(* ===== verification/Prelude.thy ===== *)
theory Prelude
  imports Complex_Main "HOL-Library.Multiset" "HOL-Library.Word" "HOL-Library.AList"
begin

text \<open>
  Shared material of the development: results of code that may throw (\<open>'e + 'a\<close>),
  the state-and-exception monad in which the database code is written
  (\<open>withTransaction\<close> of \<open>packages/db/src/pool.ts\<close> rolls the state back on a throw,
  a plain sequence of statements keeps what was written before the throw), the stable
  sort that \<open>Array.prototype.sort\<close> performs, and the lemma collections the
  components share.
\<close>

named_theorems preserves_intros "rules that an operation keeps an invariant of the state"
named_theorems monad_simps "evaluation rules of the state and exception monad"

section \<open>Results of code that may throw\<close>

fun bindE :: "'e + 'a \<Rightarrow> ('a \<Rightarrow> 'e + 'b) \<Rightarrow> 'e + 'b" where
  "bindE (Inl e) f = Inl e"
| "bindE (Inr x) f = f x"

fun foldE :: "('r \<Rightarrow> 'x \<Rightarrow> 'e + 'r) \<Rightarrow> 'r \<Rightarrow> 'x list \<Rightarrow> 'e + 'r" where
  "foldE f r [] = Inr r"
| "foldE f r (x # xs) = bindE (f r x) (\<lambda>r'. foldE f r' xs)"

fun mapE :: "('x \<Rightarrow> 'e + 'y) \<Rightarrow> 'x list \<Rightarrow> 'e + 'y list" where
  "mapE f [] = Inr []"
| "mapE f (x # xs) = bindE (f x) (\<lambda>y. bindE (mapE f xs) (\<lambda>ys. Inr (y # ys)))"

lemma bindE_Inr [simp]: "bindE m Inr = m"
  by (cases m) auto

lemma bindE_eq_Inr: "bindE m f = Inr y \<longleftrightarrow> (\<exists>x. m = Inr x \<and> f x = Inr y)"
  by (cases m) auto

lemma bindE_eq_Inl: "bindE m f = Inl e \<longleftrightarrow> m = Inl e \<or> (\<exists>x. m = Inr x \<and> f x = Inl e)"
  by (cases m) auto

lemma bindE_assoc: "bindE (bindE m f) g = bindE m (\<lambda>x. bindE (f x) g)"
  by (cases m) auto

lemma foldE_append: "foldE f r (xs @ ys) = bindE (foldE f r xs) (\<lambda>r'. foldE f r' ys)"
  by (induction xs arbitrary: r) (auto simp: bindE_assoc)

lemma foldE_snoc: "foldE f r (xs @ [x]) = bindE (foldE f r xs) (\<lambda>r'. f r' x)"
  by (simp add: foldE_append)

text \<open>An invariant that every successful step keeps holds after every successful fold.\<close>

lemma foldE_invariant:
  assumes "foldE f r xs = Inr r'" and "I r"
    and "\<And>r x r'. x \<in> set xs \<Longrightarrow> I r \<Longrightarrow> f r x = Inr r' \<Longrightarrow> I r'"
  shows "I r'"
  using assms by (induction xs arbitrary: r) (auto simp: bindE_eq_Inr)

lemma mapE_Inr_set:
  "mapE f xs = Inr ys \<Longrightarrow> \<forall>y \<in> set ys. \<exists>x \<in> set xs. f x = Inr y"
  by (induction xs arbitrary: ys) (fastforce simp: bindE_eq_Inr)+

lemma mapE_Inr_iff:
  "mapE f xs = Inr ys \<longleftrightarrow> list_all2 (\<lambda>x y. f x = Inr y) xs ys"
  by (induction xs arbitrary: ys) (auto simp: bindE_eq_Inr list_all2_Cons1)

lemma mapE_cong [fundef_cong]:
  "xs = ys \<Longrightarrow> (\<And>x. x \<in> set ys \<Longrightarrow> f x = g x) \<Longrightarrow> mapE f xs = mapE g ys"
  by (induction xs arbitrary: ys) auto

section \<open>The state and exception monad\<close>

text \<open>
  A statement takes the state and returns its result or the error it throws, together
  with the state as it is then. An error does not undo what was written before it;
  only \<open>transactM\<close> does.
\<close>

type_synonym ('s, 'e, 'a) sem = "'s \<Rightarrow> ('e + 'a) \<times> 's"

definition retM :: "'a \<Rightarrow> ('s, 'e, 'a) sem" where
  "retM x = (\<lambda>s. (Inr x, s))"

definition throwM :: "'e \<Rightarrow> ('s, 'e, 'a) sem" where
  "throwM e = (\<lambda>s. (Inl e, s))"

definition bindM :: "('s, 'e, 'a) sem \<Rightarrow> ('a \<Rightarrow> ('s, 'e, 'b) sem) \<Rightarrow> ('s, 'e, 'b) sem" where
  "bindM m f = (\<lambda>s. case m s of (Inl e, s') \<Rightarrow> (Inl e, s') | (Inr x, s') \<Rightarrow> f x s')"

definition thenM :: "('s, 'e, 'a) sem \<Rightarrow> ('s, 'e, 'b) sem \<Rightarrow> ('s, 'e, 'b) sem" where
  "thenM m n = bindM m (\<lambda>_. n)"

definition readM :: "('s \<Rightarrow> 'a) \<Rightarrow> ('s, 'e, 'a) sem" where
  "readM f = (\<lambda>s. (Inr (f s), s))"

definition modifyM :: "('s \<Rightarrow> 's) \<Rightarrow> ('s, 'e, unit) sem" where
  "modifyM f = (\<lambda>s. (Inr (), f s))"

definition liftE :: "'e + 'a \<Rightarrow> ('s, 'e, 'a) sem" where
  "liftE r = (\<lambda>s. (r, s))"

definition guardM :: "('s \<Rightarrow> bool) \<Rightarrow> 'e \<Rightarrow> ('s, 'e, unit) sem" where
  "guardM P e = (\<lambda>s. (if P s then Inr () else Inl e, s))"

definition whenM :: "bool \<Rightarrow> ('s, 'e, unit) sem \<Rightarrow> ('s, 'e, unit) sem" where
  "whenM b m = (if b then m else retM ())"

text \<open>\<open>withTransaction\<close>: BEGIN, the body, COMMIT; on a throw ROLLBACK and rethrow.\<close>

definition transactM :: "('s, 'e, 'a) sem \<Rightarrow> ('s, 'e, 'a) sem" where
  "transactM m = (\<lambda>s. case m s of (Inl e, _) \<Rightarrow> (Inl e, s) | (Inr x, s') \<Rightarrow> (Inr x, s'))"

text \<open>\<open>try m catch (err) { h err }\<close> and \<open>try m finally fin\<close> (a throw of \<open>fin\<close> wins).\<close>

definition catchM :: "('s, 'e, 'a) sem \<Rightarrow> ('e \<Rightarrow> ('s, 'e, 'a) sem) \<Rightarrow> ('s, 'e, 'a) sem" where
  "catchM m h = (\<lambda>s. case m s of (Inl e, s') \<Rightarrow> h e s' | (Inr x, s') \<Rightarrow> (Inr x, s'))"

definition finallyM :: "('s, 'e, 'a) sem \<Rightarrow> ('s, 'e, unit) sem \<Rightarrow> ('s, 'e, 'a) sem" where
  "finallyM m fin = (\<lambda>s. case m s of (r, s') \<Rightarrow>
     (case fin s' of (Inl e, s'') \<Rightarrow> (Inl e, s'') | (Inr _, s'') \<Rightarrow> (r, s'')))"

text \<open>\<open>for (const x of xs) acc = await f(acc, x)\<close>.\<close>

fun foldM :: "('a \<Rightarrow> 'x \<Rightarrow> ('s, 'e, 'a) sem) \<Rightarrow> 'a \<Rightarrow> 'x list \<Rightarrow> ('s, 'e, 'a) sem" where
  "foldM f a [] = retM a"
| "foldM f a (x # xs) = bindM (f a x) (\<lambda>a'. foldM f a' xs)"

definition forM :: "'x list \<Rightarrow> ('x \<Rightarrow> ('s, 'e, unit) sem) \<Rightarrow> ('s, 'e, unit) sem" where
  "forM xs f = foldM (\<lambda>_ x. f x) () xs"

lemma retM_app [monad_simps]: "retM x s = (Inr x, s)" by (simp add: retM_def)
lemma throwM_app [monad_simps]: "throwM e s = (Inl e, s)" by (simp add: throwM_def)
lemma readM_app [monad_simps]: "readM f s = (Inr (f s), s)" by (simp add: readM_def)
lemma modifyM_app [monad_simps]: "modifyM f s = (Inr (), f s)" by (simp add: modifyM_def)
lemma liftE_app [monad_simps]: "liftE r s = (r, s)" by (simp add: liftE_def)
lemma guardM_app [monad_simps]:
  "guardM P e s = (if P s then Inr () else Inl e, s)" by (simp add: guardM_def)
lemma whenM_app [monad_simps]: "whenM b m s = (if b then m s else (Inr (), s))"
  by (simp add: whenM_def retM_def)
lemma bindM_app [monad_simps]:
  "bindM m f s = (case m s of (Inl e, s') \<Rightarrow> (Inl e, s') | (Inr x, s') \<Rightarrow> f x s')"
  by (simp add: bindM_def)
lemma thenM_app [monad_simps]:
  "thenM m n s = (case m s of (Inl e, s') \<Rightarrow> (Inl e, s') | (Inr x, s') \<Rightarrow> n s')"
  by (simp add: thenM_def bindM_def)
lemma transactM_app [monad_simps]:
  "transactM m s = (case m s of (Inl e, _) \<Rightarrow> (Inl e, s) | (Inr x, s') \<Rightarrow> (Inr x, s'))"
  by (simp add: transactM_def)
lemma catchM_app [monad_simps]:
  "catchM m h s = (case m s of (Inl e, s') \<Rightarrow> h e s' | (Inr x, s') \<Rightarrow> (Inr x, s'))"
  by (simp add: catchM_def)
lemma finallyM_app [monad_simps]:
  "finallyM m fin s = (case m s of (r, s') \<Rightarrow>
     (case fin s' of (Inl e, s'') \<Rightarrow> (Inl e, s'') | (Inr _, s'') \<Rightarrow> (r, s'')))"
  by (simp add: finallyM_def)
lemma forM_Nil [monad_simps]: "forM [] f s = (Inr (), s)"
  by (simp add: forM_def retM_def)
lemma forM_Cons [monad_simps]:
  "forM (x # xs) f s = (case f x s of (Inl e, s') \<Rightarrow> (Inl e, s') | (Inr _, s') \<Rightarrow> forM xs f s')"
  by (auto simp: forM_def bindM_def split: prod.splits sum.splits)

lemma if_app [monad_simps]: "(if b then m else n) s = (if b then m s else n s)"
  by simp

lemma thenM_modifyM: "thenM (modifyM f) n s = n (f s)"
  by (simp add: thenM_app modifyM_app)

lemma bindM_Inr:
  "bindM m f s = (Inr y, t) \<longleftrightarrow> (\<exists>x s'. m s = (Inr x, s') \<and> f x s' = (Inr y, t))"
  by (auto simp: bindM_def split: prod.splits sum.splits)

lemma thenM_Inr:
  "thenM m n s = (Inr y, t) \<longleftrightarrow> (\<exists>x s'. m s = (Inr x, s') \<and> n s' = (Inr y, t))"
  by (auto simp: thenM_def bindM_Inr)

lemma transactM_Inr: "transactM m s = (Inr y, t) \<longleftrightarrow> m s = (Inr y, t)"
  by (auto simp: transactM_def split: prod.splits sum.splits)

lemma transactM_Inl: "transactM m s = (Inl e, t) \<Longrightarrow> t = s"
  by (auto simp: transactM_def split: prod.splits sum.splits)

section \<open>Invariants kept by a statement\<close>

text \<open>
  \<open>preserves I m\<close>: from a state with \<open>I\<close>, the statement ends in a state with \<open>I\<close>
  whether it returns or throws.
\<close>

definition preserves :: "('s \<Rightarrow> bool) \<Rightarrow> ('s, 'e, 'a) sem \<Rightarrow> bool" where
  "preserves I m \<longleftrightarrow> (\<forall>s. I s \<longrightarrow> I (snd (m s)))"

lemma preservesI: "(\<And>s. I s \<Longrightarrow> I (snd (m s))) \<Longrightarrow> preserves I m"
  by (simp add: preserves_def)

lemma preservesD: "preserves I m \<Longrightarrow> I s \<Longrightarrow> I (snd (m s))"
  by (simp add: preserves_def)

lemma preserves_run: "preserves I m \<Longrightarrow> m s = (r, t) \<Longrightarrow> I s \<Longrightarrow> I t"
  by (metis preserves_def snd_conv)

lemma preserves_retM [preserves_intros]: "preserves I (retM x)"
  by (simp add: preserves_def monad_simps)
lemma preserves_throwM [preserves_intros]: "preserves I (throwM e)"
  by (simp add: preserves_def monad_simps)
lemma preserves_readM [preserves_intros]: "preserves I (readM f)"
  by (simp add: preserves_def monad_simps)
lemma preserves_liftE [preserves_intros]: "preserves I (liftE r)"
  by (simp add: preserves_def monad_simps)
lemma preserves_guardM [preserves_intros]: "preserves I (guardM P e)"
  by (simp add: preserves_def monad_simps)

lemma preserves_modifyM: "(\<And>s. I s \<Longrightarrow> I (f s)) \<Longrightarrow> preserves I (modifyM f)"
  by (simp add: preserves_def monad_simps)

lemma preserves_bindM [preserves_intros]:
  "preserves I m \<Longrightarrow> (\<And>x. preserves I (f x)) \<Longrightarrow> preserves I (bindM m f)"
  unfolding preserves_def bindM_def
  by (fastforce split: prod.splits sum.splits)

lemma preserves_thenM [preserves_intros]:
  "preserves I m \<Longrightarrow> preserves I n \<Longrightarrow> preserves I (thenM m n)"
  unfolding thenM_def by (rule preserves_bindM)

lemma bindM_keeps: "I (snd (m s)) \<Longrightarrow> (\<And>x. preserves I (f x)) \<Longrightarrow> I (snd (bindM m f s))"
  unfolding preserves_def bindM_def
  by (cases "m s") (auto split: sum.splits)

lemma thenM_keeps: "I (snd (m s)) \<Longrightarrow> preserves I n \<Longrightarrow> I (snd (thenM m n s))"
  unfolding thenM_def by (rule bindM_keeps)

lemma preserves_whenM [preserves_intros]: "preserves I m \<Longrightarrow> preserves I (whenM b m)"
  by (simp add: whenM_def preserves_retM)

lemma preserves_transactM [preserves_intros]: "preserves I m \<Longrightarrow> preserves I (transactM m)"
  unfolding preserves_def transactM_def
  by (fastforce split: prod.splits sum.splits)

lemma preserves_catchM [preserves_intros]:
  "preserves I m \<Longrightarrow> (\<And>e. preserves I (h e)) \<Longrightarrow> preserves I (catchM m h)"
  unfolding preserves_def catchM_def
  by (fastforce split: prod.splits sum.splits)

lemma preserves_finallyM [preserves_intros]:
  "preserves I m \<Longrightarrow> preserves I fin \<Longrightarrow> preserves I (finallyM m fin)"
  unfolding preserves_def finallyM_def
  by (fastforce split: prod.splits sum.splits)

lemma preserves_foldM [preserves_intros]:
  "(\<And>a x. preserves I (f a x)) \<Longrightarrow> preserves I (foldM f a xs)"
  by (induction xs arbitrary: a) (auto intro: preserves_intros)

lemma preserves_forM [preserves_intros]: "(\<And>x. preserves I (f x)) \<Longrightarrow> preserves I (forM xs f)"
  by (simp add: forM_def preserves_foldM)

lemma preserves_if [preserves_intros]:
  "preserves I m \<Longrightarrow> preserves I n \<Longrightarrow> preserves I (if b then m else n)"
  by simp

lemma preserves_option [preserves_intros]:
  "preserves I m \<Longrightarrow> (\<And>x. preserves I (f x)) \<Longrightarrow> preserves I (case z of None \<Rightarrow> m | Some x \<Rightarrow> f x)"
  by (cases z) auto

section \<open>Stable sorting by a comparison\<close>

text \<open>
  \<open>Array.prototype.sort\<close> is stable: equal elements keep their order. With a
  comparison that is a total preorder there is one stable result, which insertion
  computes.
\<close>

fun insert_by :: "('a \<Rightarrow> 'a \<Rightarrow> bool) \<Rightarrow> 'a \<Rightarrow> 'a list \<Rightarrow> 'a list" where
  "insert_by le x [] = [x]"
| "insert_by le x (y # ys) = (if le x y then x # y # ys else y # insert_by le x ys)"

fun sort_by :: "('a \<Rightarrow> 'a \<Rightarrow> bool) \<Rightarrow> 'a list \<Rightarrow> 'a list" where
  "sort_by le [] = []"
| "sort_by le (x # xs) = insert_by le x (sort_by le xs)"

lemma mset_insert_by [simp]: "mset (insert_by le x xs) = add_mset x (mset xs)"
  by (induction xs) auto

lemma mset_sort_by [simp]: "mset (sort_by le xs) = mset xs"
  by (induction xs) auto

lemma set_insert_by [simp]: "set (insert_by le x xs) = insert x (set xs)"
  by (induction xs) auto

lemma set_sort_by [simp]: "set (sort_by le xs) = set xs"
  by (induction xs) auto

lemma length_sort_by [simp]: "length (sort_by le xs) = length xs"
  by (metis mset_sort_by size_mset)

lemma sort_by_Nil_iff [simp]: "sort_by le xs = [] \<longleftrightarrow> xs = []"
  by (metis length_sort_by length_0_conv)

lemma distinct_sort_by [simp]: "distinct (sort_by le xs) = distinct xs"
  by (metis mset_sort_by mset_eq_imp_distinct_iff)

definition total_preorder :: "('a \<Rightarrow> 'a \<Rightarrow> bool) \<Rightarrow> bool" where
  "total_preorder le \<longleftrightarrow> (\<forall>x y. le x y \<or> le y x) \<and> (\<forall>x y z. le x y \<longrightarrow> le y z \<longrightarrow> le x z)"

lemma sorted_insert_by:
  "total_preorder le \<Longrightarrow> sorted_wrt le xs \<Longrightarrow> sorted_wrt le (insert_by le x xs)"
  by (induction xs) (auto simp: total_preorder_def)

lemma sorted_sort_by: "total_preorder le \<Longrightarrow> sorted_wrt le (sort_by le xs)"
  by (induction xs) (auto intro: sorted_insert_by)

lemma sort_by_sorted: "sorted_wrt le xs \<Longrightarrow> sort_by le xs = xs"
proof (induction xs)
  case (Cons x xs)
  then show ?case by (cases xs) auto
qed simp

section \<open>Lists and options\<close>

lemma find_SomeD: "find P xs = Some x \<Longrightarrow> x \<in> set xs \<and> P x"
  by (induction xs) (auto split: if_splits)

lemma find_NoneD: "find P xs = None \<Longrightarrow> x \<in> set xs \<Longrightarrow> \<not> P x"
  by (induction xs) (auto split: if_splits)

lemma find_append: "find P (xs @ ys) = (case find P xs of None \<Rightarrow> find P ys | Some x \<Rightarrow> Some x)"
  by (induction xs) auto

lemma find_map_cong:
  "(\<And>x. x \<in> set xs \<Longrightarrow> P (f x) = P x) \<Longrightarrow> find P (map f xs) = map_option f (find P xs)"
  by (induction xs) auto

text \<open>
  A JavaScript \<open>Map\<close> is an association list with distinct keys in insertion order;
  \<open>AList.update\<close> is \<open>set\<close> (a present key keeps its place). \<open>new Map(pairs)\<close> sets
  the pairs in turn.
\<close>

definition js_map_of :: "('k \<times> 'v) list \<Rightarrow> ('k \<times> 'v) list" where
  "js_map_of kvs = fold (\<lambda>(k, v) m. AList.update k v m) kvs []"

lemma js_map_of_snoc: "js_map_of (kvs @ [(k, v)]) = AList.update k v (js_map_of kvs)"
  by (simp add: js_map_of_def)

lemma distinct_js_map_of: "distinct (map fst (js_map_of kvs))"
proof (induction kvs rule: rev_induct)
  case (snoc x kvs)
  then show ?case by (cases x) (simp add: js_map_of_snoc distinct_update)
qed (simp add: js_map_of_def)

lemma map_of_js_map_of: "map_of (js_map_of kvs) k = map_of (rev kvs) k"
proof (induction kvs rule: rev_induct)
  case (snoc x kvs)
  then show ?case by (cases x) (auto simp: js_map_of_snoc update_conv')
qed (simp add: js_map_of_def)

lemma map_of_js_map_of_Some: "map_of (js_map_of kvs) k = Some v \<Longrightarrow> (k, v) \<in> set kvs"
  by (auto simp: map_of_js_map_of dest: map_of_SomeD)

lemma js_map_of_mem: "(k, v) \<in> set (js_map_of kvs) \<Longrightarrow> (k, v) \<in> set kvs"
  by (meson distinct_js_map_of map_of_is_SomeI map_of_js_map_of_Some)

lemma map_of_js_map_of_None: "map_of (js_map_of kvs) k = None \<longleftrightarrow> k \<notin> fst ` set kvs"
  by (simp add: map_of_js_map_of map_of_eq_None_iff)

lemma js_map_of_distinct: "distinct (map fst kvs) \<Longrightarrow> js_map_of kvs = kvs"
proof (induction kvs rule: rev_induct)
  case (snoc x kvs)
  have "k \<notin> fst ` set m \<Longrightarrow> AList.update k v m = m @ [(k, v)]" for k v and m :: "('a \<times> 'b) list"
    by (induction m) auto
  with snoc show ?case by (cases x) (auto simp: js_map_of_snoc)
qed (simp add: js_map_of_def)

text \<open>JavaScript's truth value of a string that may be missing.\<close>

fun truthy :: "string option \<Rightarrow> bool" where
  "truthy None = False"
| "truthy (Some x) = (x \<noteq> [])"

text \<open>\<open>String.prototype.trim\<close>, on the ASCII white space.\<close>

definition is_space :: "char \<Rightarrow> bool" where
  "is_space c \<longleftrightarrow> (of_char c :: nat) \<in> {9, 10, 11, 12, 13, 32}"

definition js_trim :: "string \<Rightarrow> string" where
  "js_trim s = rev (dropWhile is_space (rev (dropWhile is_space s)))"

text \<open>\<open>xs.join(sep)\<close>.\<close>

fun join :: "string \<Rightarrow> string list \<Rightarrow> string" where
  "join sep [] = []"
| "join sep [x] = x"
| "join sep (x # y # ys) = x @ sep @ join sep (y # ys)"

text \<open>\<open>String(n)\<close> of an integer: decimal digits with a sign.\<close>

function nat_str :: "nat \<Rightarrow> string" where
  "nat_str n = (if n < 10 then [char_of (48 + n)] else nat_str (n div 10) @ [char_of (48 + n mod 10)])"
  by pat_completeness auto
termination
  by (relation "measure id") auto

declare nat_str.simps [simp del]

definition int_str :: "int \<Rightarrow> string" where
  "int_str z = (if z < 0 then ''-'' @ nat_str (nat (- z)) else nat_str (nat z))"

text \<open>The value of a text of decimal digits, and the number a printed integer reads as.\<close>

definition digits_value :: "string \<Rightarrow> int" where
  "digits_value s = fold (\<lambda>c n. 10 * n + (int (of_char c) - 48)) s 0"

lemma of_char_digit [simp]: "n < 10 \<Longrightarrow> (of_char (char_of (48 + n) :: char) :: nat) = 48 + n"
  by (simp add: of_char_of)

lemma digits_value_nat_str: "digits_value (nat_str n) = int n"
proof (induction n rule: nat_str.induct)
  case (1 n)
  show ?case
  proof (cases "n < 10")
    case True
    then show ?thesis by (simp add: nat_str.simps [of n] digits_value_def)
  next
    case False
    with 1 have "fold (\<lambda>c n. 10 * n + (int (of_char c) - 48)) (nat_str (n div 10)) 0 = int (n div 10)"
      by (simp add: digits_value_def)
    moreover have "10 * int (n div 10) + int (n mod 10) = int n" by presburger
    ultimately show ?thesis using False
      by (simp add: nat_str.simps [of n] digits_value_def)
  qed
qed

lemma nat_str_digits: "c \<in> set (nat_str n) \<Longrightarrow> (of_char c :: nat) \<in> {48..57}"
proof (induction n rule: nat_str.induct)
  case (1 n)
  then show ?case by (cases "n < 10") (auto simp: nat_str.simps [of n])
qed

lemma nat_str_not_Nil [simp]: "nat_str n \<noteq> []"
  by (simp add: nat_str.simps [of n])

fun read_int :: "string \<Rightarrow> int" where
  "read_int [] = 0"
| "read_int (c # cs) = (if c = CHR ''-'' then - digits_value cs else digits_value (c # cs))"

lemma read_int_int_str: "read_int (int_str z) = z"
proof (cases "z < 0")
  case False
  obtain c cs where c: "nat_str (nat z) = c # cs" by (cases "nat_str (nat z)") auto
  then have "c \<noteq> CHR ''-''" using nat_str_digits [of c "nat z"] by auto
  with False c digits_value_nat_str [of "nat z"] show ?thesis by (simp add: int_str_def)
qed (simp add: int_str_def digits_value_nat_str)

lemma int_str_inject [simp]: "int_str a = int_str b \<longleftrightarrow> a = b"
  by (metis read_int_int_str)

end
