(* ===== verification/Core_Types.thy ===== *)
theory Core_Types
  imports Prelude
begin

text \<open>
  The enumerations of \<open>packages/core/src/types.ts\<close> and \<open>state-machine.ts\<close>, the JSON
  values that travel as action parameters and ledger payloads, the values the code
  throws, and the run-time functions that are not code of the repository (hashes, the
  time-zone data base, number printing, collation), which are the fields of \<open>env\<close>.
\<close>

section \<open>Enumerations\<close>

datatype Rail = card | upi_collect | upi_autopay | enach | netbanking | wallet | smart_collect

datatype Domain = subscription_renewal | payment_failure | checkout_abandonment | overdue_invoice

datatype EvidenceKind = payment_attempt | decline_code | mandate_state | customer_profile
  | customer_reply | contact_history | obligation_state | incident_membership
  | segment_metrics | policy_snapshot

datatype CaseState = DETECTED | DIAGNOSING | PLANNING | AWAITING_APPROVAL | EXECUTING
  | OBSERVING | SCHEDULED | SUPPRESSED_BY_INCIDENT
  | RECOVERED | UNRECOVERABLE | CANCELLED | DISPUTED | OPTED_OUT | STOPPED_HUMAN

text \<open>The string a \<open>Rail\<close> or \<open>Domain\<close> is at run time, used in map keys and messages.\<close>

fun rail_str :: "Rail \<Rightarrow> string" where
  "rail_str card = ''card''"
| "rail_str upi_collect = ''upi_collect''"
| "rail_str upi_autopay = ''upi_autopay''"
| "rail_str enach = ''enach''"
| "rail_str netbanking = ''netbanking''"
| "rail_str wallet = ''wallet''"
| "rail_str smart_collect = ''smart_collect''"

fun domain_str :: "Domain \<Rightarrow> string" where
  "domain_str subscription_renewal = ''subscription_renewal''"
| "domain_str payment_failure = ''payment_failure''"
| "domain_str checkout_abandonment = ''checkout_abandonment''"
| "domain_str overdue_invoice = ''overdue_invoice''"

definition RAILS :: "Rail list" where
  "RAILS = [card, upi_collect, upi_autopay, enach, netbanking, wallet, smart_collect]"

definition DOMAINS :: "Domain list" where
  "DOMAINS = [subscription_renewal, payment_failure, checkout_abandonment, overdue_invoice]"

definition EVIDENCE_KINDS :: "EvidenceKind list" where
  "EVIDENCE_KINDS = [payment_attempt, decline_code, mandate_state, customer_profile,
     customer_reply, contact_history, obligation_state, incident_membership,
     segment_metrics, policy_snapshot]"

lemma RAILS_all: "r \<in> set RAILS"
  by (cases r) (simp_all add: RAILS_def)

lemma EVIDENCE_KINDS_all: "k \<in> set EVIDENCE_KINDS"
  by (cases k) (simp_all add: EVIDENCE_KINDS_def)

lemma rail_str_no_colon: "CHR '':'' \<notin> set (rail_str r)"
  by (cases r) simp_all

lemma rail_str_inject: "rail_str r = rail_str r' \<Longrightarrow> r = r'"
  by (cases r; cases r') simp_all

lemma domain_str_inject: "domain_str d = domain_str d' \<Longrightarrow> d = d'"
  by (cases d; cases d') simp_all

lemma domain_str_not_star: "domain_str d \<noteq> ''*''"
  by (cases d) simp_all

text \<open>The composite keys \<open>`${a}::${b}`\<close> are injective where \<open>a\<close> holds no colon.\<close>

definition pair_key :: "string \<Rightarrow> string \<Rightarrow> string" where
  "pair_key a b = a @ ''::'' @ b"

lemma pair_key_inject:
  assumes "pair_key a b = pair_key a' b'" and "CHR '':'' \<notin> set a" and "CHR '':'' \<notin> set a'"
  shows "a = a' \<and> b = b'"
proof -
  have split: "takeWhile (\<lambda>c. c \<noteq> CHR '':'') (pair_key x y) = x"
    if "CHR '':'' \<notin> set x" for x y
    using that unfolding pair_key_def by (subst takeWhile_append2) auto
  from assms have "a = a'" using split by metis
  with assms(1) show ?thesis by (simp add: pair_key_def)
qed

section \<open>JSON values\<close>

text \<open>
  Objects keep their properties in insertion order. Numbers are exact rationals.
\<close>

datatype json = JNull | JBool bool | JNum rat | JStr string | JArr "json list"
  | JObj "(string \<times> json) list"

abbreviation JInt :: "int \<Rightarrow> json" where
  "JInt n \<equiv> JNum (of_int n)"

type_synonym params = "(string \<times> json) list"

definition jopt :: "string option \<Rightarrow> json" where
  "jopt z = (case z of None \<Rightarrow> JNull | Some x \<Rightarrow> JStr x)"

section \<open>Thrown values\<close>

datatype TokenRejection = bad_signature | expired | action_mismatch | params_mismatch
  | amount_exceeds_cap

datatype err =
    IllegalTransitionError CaseState CaseState string
  | CaseEventOrderError int int
  | ForbiddenActionError string string
  | UnknownActionError string
  | TokenRejectedError TokenRejection string
  | TokenReplayError string
  | DuplicateAttemptError string
  | ScheduleActionNotExecutableError string
  | UnsupportedCapabilityError string string
  | LeaseUnavailableError string string
  | UnverifiedWebhookError
  | ProviderUnavailableError string string
  | SchemaValidationError string string
  | RangeError string
  | Error string
  | UniqueViolation string        \<comment> \<open>Postgres 23505, with the violated key\<close>
  | ForeignKeyViolation string    \<comment> \<open>Postgres 23503, with the referenced table\<close>
  | CheckViolation string         \<comment> \<open>Postgres 23514, with the column\<close>

section \<open>The run-time environment\<close>

text \<open>
  \<open>hmac_sha256\<close> and \<open>sha256\<close> are OpenSSL's, \<open>local_hm\<close> is the hour and minute that ICU
  reports for an instant in a time zone, \<open>locale_le\<close> is ICU collation and \<open>db_le\<close> the
  collation of the data base, \<open>num_str\<close> and \<open>to_fixed\<close> print a number, \<open>to_iso\<close> and \<open>parse_iso\<close> are
  \<open>Date.toISOString\<close> and the \<open>Date\<close> constructor (\<open>None\<close> is an invalid date),
  \<open>parse_json\<close> is \<open>JSON.parse\<close> (\<open>None\<close> is a syntax error), \<open>fl\<close>
  is the rounding of an exact result to a double, \<open>js_sqrt\<close>, \<open>js_exp\<close>, \<open>js_log\<close> and \<open>js_cos\<close> are
  \<open>Math.sqrt\<close>, \<open>Math.exp\<close>, \<open>Math.log\<close> and \<open>Math.cos\<close>. A double is a rational: NaN and the infinities are not
  modelled, and code that could reach them says so.
\<close>

type_synonym byte = "8 word"

record env =
  hmac_sha256 :: "string \<Rightarrow> string \<Rightarrow> byte list"
  sha256 :: "string \<Rightarrow> byte list"
  local_hm :: "string \<Rightarrow> int \<Rightarrow> nat \<times> nat"
  locale_le :: "string \<Rightarrow> string \<Rightarrow> bool"
  db_le :: "string \<Rightarrow> string \<Rightarrow> bool"
  num_str :: "rat \<Rightarrow> string"
  to_fixed :: "rat \<Rightarrow> nat \<Rightarrow> string"
  to_iso :: "int \<Rightarrow> string"
  parse_iso :: "string \<Rightarrow> int option"
  parse_json :: "string \<Rightarrow> json option"
  fl :: "rat \<Rightarrow> rat"
  js_sqrt :: "rat \<Rightarrow> rat"
  js_exp :: "rat \<Rightarrow> rat"
  js_log :: "rat \<Rightarrow> rat"
  js_cos :: "rat \<Rightarrow> rat"

text \<open>
  Rounding to a double is monotone and leaves 0, 1 and every integer of at most 53 bits
  alone (IEEE 754, round to nearest).
\<close>

definition rounding :: "(rat \<Rightarrow> rat) \<Rightarrow> bool" where
  "rounding f \<longleftrightarrow> mono f \<and> (\<forall>n::int. \<bar>n\<bar> \<le> 2 ^ 53 \<longrightarrow> f (of_int n) = of_int n)"

lemma rounding_id: "rounding (\<lambda>x. x)"
  by (simp add: rounding_def mono_def)

lemma rounding_mono: "rounding f \<Longrightarrow> x \<le> y \<Longrightarrow> f x \<le> f y"
  by (simp add: rounding_def mono_def)

lemma rounding_int: "rounding f \<Longrightarrow> \<bar>n\<bar> \<le> 2 ^ 53 \<Longrightarrow> f (of_int n) = of_int n"
  by (simp add: rounding_def)

lemma rounding_0: "rounding f \<Longrightarrow> f 0 = 0"
  using rounding_int [of f 0] by simp

lemma rounding_1: "rounding f \<Longrightarrow> f 1 = 1"
  using rounding_int [of f 1] by simp

text \<open>The four operations on doubles: the exact result, rounded.\<close>

definition fadd :: "env \<Rightarrow> rat \<Rightarrow> rat \<Rightarrow> rat" where "fadd E a b = fl E (a + b)"
definition fsub :: "env \<Rightarrow> rat \<Rightarrow> rat \<Rightarrow> rat" where "fsub E a b = fl E (a - b)"
definition fmul :: "env \<Rightarrow> rat \<Rightarrow> rat \<Rightarrow> rat" where "fmul E a b = fl E (a * b)"
definition fdiv :: "env \<Rightarrow> rat \<Rightarrow> rat \<Rightarrow> rat" where "fdiv E a b = fl E (a / b)"

lemmas float_ops = fadd_def fsub_def fmul_def fdiv_def

text \<open>\<open>Math.round\<close>: the nearest integer, a half rounded up.\<close>

definition js_round :: "rat \<Rightarrow> int" where
  "js_round x = \<lfloor>x + 1/2\<rfloor>"

lemma js_round_int [simp]: "js_round (of_int n) = n"
  by (simp add: js_round_def floor_eq_iff)

lemma js_round_mono: "x \<le> y \<Longrightarrow> js_round x \<le> js_round y"
  by (simp add: js_round_def floor_mono)

text \<open>The default order of \<open>Array.prototype.sort()\<close>: by code unit.\<close>

fun code_le :: "string \<Rightarrow> string \<Rightarrow> bool" where
  "code_le [] ys = True"
| "code_le (x # xs) [] = False"
| "code_le (x # xs) (y # ys) =
     ((of_char x :: nat) < of_char y \<or> (x = y \<and> code_le xs ys))"

lemma code_le_total: "code_le xs ys \<or> code_le ys xs"
proof (induction xs ys rule: code_le.induct)
  case (3 x xs y ys)
  have "(of_char x :: nat) = of_char y \<longleftrightarrow> x = y" by simp
  with 3 show ?case by (auto simp: not_less_iff_gr_or_eq)
qed simp_all

lemma code_le_trans: "code_le xs ys \<Longrightarrow> code_le ys zs \<Longrightarrow> code_le xs zs"
proof (induction xs arbitrary: ys zs)
  case (Cons x xs)
  then show ?case by (cases ys; cases zs) auto
qed simp

lemma total_preorder_code_le: "total_preorder code_le"
  unfolding total_preorder_def using code_le_total code_le_trans by blast

end
