(* ===== verification/State_Machine.thy ===== *)
theory State_Machine
  imports Core_Types
begin

text \<open>
  \<open>packages/core/src/state-machine.ts\<close>: the legal transitions of a case, the terminal
  states, and the check that every transition passes.
\<close>

definition CASE_STATES :: "CaseState list" where
  "CASE_STATES = [DETECTED, DIAGNOSING, PLANNING, AWAITING_APPROVAL, EXECUTING, OBSERVING,
     SCHEDULED, SUPPRESSED_BY_INCIDENT, RECOVERED, UNRECOVERABLE, CANCELLED, DISPUTED,
     OPTED_OUT, STOPPED_HUMAN]"

definition TERMINAL_STATES :: "CaseState list" where
  "TERMINAL_STATES = [RECOVERED, UNRECOVERABLE, CANCELLED, DISPUTED, OPTED_OUT, STOPPED_HUMAN]"

definition isTerminal :: "CaseState \<Rightarrow> bool" where
  "isTerminal s \<longleftrightarrow> s \<in> set TERMINAL_STATES"

fun LEGAL :: "CaseState \<Rightarrow> CaseState list" where
  "LEGAL DETECTED = [DIAGNOSING, SUPPRESSED_BY_INCIDENT]"
| "LEGAL DIAGNOSING = [PLANNING, SUPPRESSED_BY_INCIDENT]"
| "LEGAL PLANNING = [AWAITING_APPROVAL, EXECUTING, SCHEDULED, SUPPRESSED_BY_INCIDENT]"
| "LEGAL AWAITING_APPROVAL = [EXECUTING, SUPPRESSED_BY_INCIDENT]"
| "LEGAL EXECUTING = [OBSERVING, SUPPRESSED_BY_INCIDENT]"
| "LEGAL OBSERVING = [DIAGNOSING, SCHEDULED, PLANNING, SUPPRESSED_BY_INCIDENT]"
| "LEGAL SCHEDULED = [DIAGNOSING, EXECUTING, SUPPRESSED_BY_INCIDENT]"
| "LEGAL SUPPRESSED_BY_INCIDENT = [SCHEDULED, DIAGNOSING]"
| "LEGAL RECOVERED = []"
| "LEGAL UNRECOVERABLE = []"
| "LEGAL CANCELLED = []"
| "LEGAL DISPUTED = []"
| "LEGAL OPTED_OUT = []"
| "LEGAL STOPPED_HUMAN = []"

definition canTransition :: "CaseState \<Rightarrow> CaseState \<Rightarrow> bool" where
  "canTransition frm to =
     (if frm = to then True
      else if isTerminal frm then False
      else if isTerminal to then True
      else to \<in> set (LEGAL frm))"

definition assertTransition :: "CaseState \<Rightarrow> CaseState \<Rightarrow> string \<Rightarrow> err + unit" where
  "assertTransition frm to because =
     (if \<not> canTransition frm to then Inl (IllegalTransitionError frm to because) else Inr ())"

lemma CASE_STATES_all: "s \<in> set CASE_STATES"
  by (cases s) (simp_all add: CASE_STATES_def)

lemma isTerminal_simps [simp]:
  "isTerminal DETECTED = False" "isTerminal DIAGNOSING = False" "isTerminal PLANNING = False"
  "isTerminal AWAITING_APPROVAL = False" "isTerminal EXECUTING = False"
  "isTerminal OBSERVING = False" "isTerminal SCHEDULED = False"
  "isTerminal SUPPRESSED_BY_INCIDENT = False"
  "isTerminal RECOVERED = True" "isTerminal UNRECOVERABLE = True" "isTerminal CANCELLED = True"
  "isTerminal DISPUTED = True" "isTerminal OPTED_OUT = True" "isTerminal STOPPED_HUMAN = True"
  by (simp_all add: isTerminal_def TERMINAL_STATES_def)

lemma canTransition_refl [simp]: "canTransition s s"
  by (simp add: canTransition_def)

lemma canTransition_terminal: "canTransition s t \<Longrightarrow> isTerminal s \<Longrightarrow> t = s"
  by (auto simp: canTransition_def split: if_splits)

lemma canTransition_to_terminal: "isTerminal t \<Longrightarrow> canTransition s t \<longleftrightarrow> s = t \<or> \<not> isTerminal s"
  by (auto simp: canTransition_def)

lemma assertTransition_Inr [simp]: "assertTransition s t b = Inr u \<longleftrightarrow> canTransition s t"
  by (simp add: assertTransition_def)

lemma assertTransition_Inl:
  "assertTransition s t b = Inl e \<longleftrightarrow> \<not> canTransition s t \<and> e = IllegalTransitionError s t b"
  by (auto simp: assertTransition_def)

text \<open>
  The state machine as a transition relation over events nobody has constrained yet:
  \<open>moves s t\<close> is one legal step that changes the state.
\<close>

inductive moves :: "CaseState \<Rightarrow> CaseState \<Rightarrow> bool" where
  legal: "t \<in> set (LEGAL s) \<Longrightarrow> moves s t"
| terminal: "\<not> isTerminal s \<Longrightarrow> isTerminal t \<Longrightarrow> moves s t"

inductive_cases movesE: "moves s t"

inductive_simps moves_simp: "moves s t"

lemma LEGAL_terminal: "isTerminal s \<Longrightarrow> LEGAL s = []"
  by (cases s) simp_all

lemma LEGAL_irrefl: "s \<notin> set (LEGAL s)"
  by (cases s) simp_all

lemma canTransition_moves: "canTransition s t \<longleftrightarrow> s = t \<or> moves s t"
proof -
  have "isTerminal t \<Longrightarrow> t \<notin> set (LEGAL s)" by (cases s) auto
  then show ?thesis
    by (auto simp: canTransition_def moves_simp LEGAL_terminal)
qed

lemma moves_irrefl: "\<not> moves s s"
  by (auto simp: moves_simp LEGAL_irrefl)

section \<open>Machines with absorbing states\<close>

text \<open>
  What the rest of the program relies on: from an absorbing state no permitted step
  leads elsewhere, hence no run does.
\<close>

locale absorbing =
  fixes can :: "'s \<Rightarrow> 's \<Rightarrow> bool" and final :: "'s \<Rightarrow> bool"
  assumes absorb: "can s t \<Longrightarrow> final s \<Longrightarrow> t = s"
begin

lemma absorb_rtranclp: "can\<^sup>*\<^sup>* s t \<Longrightarrow> final s \<Longrightarrow> t = s"
  by (induction rule: rtranclp_induct) (auto dest: absorb)

lemma chain_before_final:
  "successively can (xs @ [s] @ ys) \<Longrightarrow> final s \<Longrightarrow> set ys \<subseteq> {s}"
proof (induction ys arbitrary: xs)
  case (Cons y ys)
  then have "can s y" and "successively can (y # ys)"
    by (auto simp: successively_append_iff)
  with Cons.prems(2) have "y = s" by (blast dest: absorb)
  with Cons.IH [of "[]"] \<open>successively can (y # ys)\<close> Cons.prems(2) show ?case by simp
qed simp

end

interpretation case_machine: absorbing canTransition isTerminal
  by unfold_locales (rule canTransition_terminal)

end
