(* ===== verification/Case_Events.thy ===== *)
theory Case_Events
  imports State_Machine
begin

text \<open>
  \<open>packages/core/src/events.ts\<close>: the case events, the revision they are reduced to, and
  the reducer, which is the only writer of case state. \<open>reduceAll\<close> folds a whole log.
\<close>

datatype CaseEvent =
    case_opened Domain bool
  | evidence_added EvidenceKind string
  | diagnosis_started nat
  | plan_proposed int
  | approval_required string
  | approval_granted string
  | approval_expired
  | action_executed string int
  | action_scheduled string string
  | outcome_observed string
  | incident_attached string
  | incident_released string
  | terminal_reached CaseState string

text \<open>The \<open>type\<close> tag of an event.\<close>

fun event_type :: "CaseEvent \<Rightarrow> string" where
  "event_type (case_opened _ _) = ''case_opened''"
| "event_type (evidence_added _ _) = ''evidence_added''"
| "event_type (diagnosis_started _) = ''diagnosis_started''"
| "event_type (plan_proposed _) = ''plan_proposed''"
| "event_type (approval_required _) = ''approval_required''"
| "event_type (approval_granted _) = ''approval_granted''"
| "event_type approval_expired = ''approval_expired''"
| "event_type (action_executed _ _) = ''action_executed''"
| "event_type (action_scheduled _ _) = ''action_scheduled''"
| "event_type (outcome_observed _) = ''outcome_observed''"
| "event_type (incident_attached _) = ''incident_attached''"
| "event_type (incident_released _) = ''incident_released''"
| "event_type (terminal_reached _ _) = ''terminal_reached''"

record StoredCaseEvent =
  ev_caseId :: string
  ev_seq :: int
  ev_event :: CaseEvent
  ev_source :: string
  ev_occurredAt :: int

record CaseRevision =
  rv_caseId :: string
  rv_revision :: int
  rv_reducedThroughSeq :: int
  rv_state :: CaseState
  rv_tier :: nat
  rv_holdout :: bool
  rv_attemptCount :: int
  rv_planVersion :: int
  rv_incidentId :: "string option"
  rv_terminalReason :: "string option"
  rv_evidenceKinds :: "EvidenceKind list"
  rv_changedKinds :: "EvidenceKind list"

definition initialRevision :: "string \<Rightarrow> CaseRevision" where
  "initialRevision caseId =
     \<lparr>rv_caseId = caseId, rv_revision = 0, rv_reducedThroughSeq = -1, rv_state = DETECTED,
      rv_tier = 0, rv_holdout = False, rv_attemptCount = 0, rv_planVersion = 0,
      rv_incidentId = None, rv_terminalReason = None,
      rv_evidenceKinds = [], rv_changedKinds = []\<rparr>"

text \<open>
  The state an event drives the case to. TypeScript requires the type of a
  \<open>terminal_reached\<close> event's state to be terminal; at run time the payload is trusted,
  and so it is here.
\<close>

fun targetState :: "CaseEvent \<Rightarrow> CaseState \<Rightarrow> CaseState" where
  "targetState (case_opened _ _) current = DETECTED"
| "targetState (diagnosis_started _) current = DIAGNOSING"
| "targetState (plan_proposed _) current = PLANNING"
| "targetState (approval_required _) current = AWAITING_APPROVAL"
| "targetState (approval_granted _) current = EXECUTING"
| "targetState approval_expired current = STOPPED_HUMAN"
| "targetState (action_executed _ _) current = OBSERVING"
| "targetState (action_scheduled _ _) current = SCHEDULED"
| "targetState (incident_attached _) current = SUPPRESSED_BY_INCIDENT"
| "targetState (incident_released _) current = SCHEDULED"
| "targetState (terminal_reached st _) current = st"
| "targetState (outcome_observed _) current = (if current = EXECUTING then OBSERVING else current)"
| "targetState (evidence_added _ _) current = current"

fun next_evidenceKinds :: "CaseEvent \<Rightarrow> EvidenceKind list \<Rightarrow> EvidenceKind list" where
  "next_evidenceKinds (evidence_added k _) ks = (if k \<in> set ks then ks else ks @ [k])"
| "next_evidenceKinds _ ks = ks"

text \<open>The object literal \<open>reduce\<close> returns, once the checks have passed.\<close>

definition next_revision :: "CaseRevision \<Rightarrow> StoredCaseEvent \<Rightarrow> CaseRevision" where
  "next_revision prev stored = (let e = ev_event stored in
     \<lparr>rv_caseId = rv_caseId prev,
      rv_revision = rv_revision prev + 1,
      rv_reducedThroughSeq = ev_seq stored,
      rv_state = targetState e (rv_state prev),
      rv_tier = (case e of diagnosis_started t \<Rightarrow> t | _ \<Rightarrow> rv_tier prev),
      rv_holdout = (case e of case_opened _ h \<Rightarrow> h | _ \<Rightarrow> rv_holdout prev),
      rv_attemptCount = (case e of action_executed _ _ \<Rightarrow> rv_attemptCount prev + 1
                                 | _ \<Rightarrow> rv_attemptCount prev),
      rv_planVersion = (case e of plan_proposed v \<Rightarrow> v | _ \<Rightarrow> rv_planVersion prev),
      rv_incidentId = (case e of incident_attached i \<Rightarrow> Some i
                               | incident_released _ \<Rightarrow> None
                               | _ \<Rightarrow> rv_incidentId prev),
      rv_terminalReason = (case e of terminal_reached _ r \<Rightarrow> Some r
                                   | _ \<Rightarrow> rv_terminalReason prev),
      rv_evidenceKinds = next_evidenceKinds e (rv_evidenceKinds prev),
      rv_changedKinds = (case e of evidence_added k _ \<Rightarrow> [k] | _ \<Rightarrow> [])\<rparr>)"

definition reduce :: "CaseRevision \<Rightarrow> StoredCaseEvent \<Rightarrow> err + CaseRevision" where
  "reduce prev stored =
     (let expected = rv_reducedThroughSeq prev + 1 in
      if ev_seq stored \<noteq> expected then Inl (CaseEventOrderError expected (ev_seq stored))
      else bindE (assertTransition (rv_state prev) (targetState (ev_event stored) (rv_state prev))
                    (event_type (ev_event stored)))
             (\<lambda>_. Inr (next_revision prev stored)))"

definition reduceAll :: "string \<Rightarrow> StoredCaseEvent list \<Rightarrow> err + CaseRevision" where
  "reduceAll caseId events = foldE reduce (initialRevision caseId) events"

definition isCaseClosed :: "CaseRevision \<Rightarrow> bool" where
  "isCaseClosed r = isTerminal (rv_state r)"

section \<open>One step of the reducer\<close>

lemma reduce_Inr:
  "reduce r e = Inr r' \<longleftrightarrow>
     ev_seq e = rv_reducedThroughSeq r + 1
     \<and> canTransition (rv_state r) (targetState (ev_event e) (rv_state r))
     \<and> r' = next_revision r e"
  by (auto simp: reduce_def Let_def bindE_eq_Inr)

lemma reduce_Inl:
  "reduce r e = Inl x \<longleftrightarrow>
     (if ev_seq e \<noteq> rv_reducedThroughSeq r + 1
      then x = CaseEventOrderError (rv_reducedThroughSeq r + 1) (ev_seq e)
      else \<not> canTransition (rv_state r) (targetState (ev_event e) (rv_state r))
        \<and> x = IllegalTransitionError (rv_state r) (targetState (ev_event e) (rv_state r))
                (event_type (ev_event e)))"
  by (auto simp: reduce_def Let_def bindE_eq_Inl assertTransition_Inl)

lemma next_revision_simps [simp]:
  "rv_caseId (next_revision r e) = rv_caseId r"
  "rv_revision (next_revision r e) = rv_revision r + 1"
  "rv_reducedThroughSeq (next_revision r e) = ev_seq e"
  "rv_state (next_revision r e) = targetState (ev_event e) (rv_state r)"
  "rv_evidenceKinds (next_revision r e) = next_evidenceKinds (ev_event e) (rv_evidenceKinds r)"
  by (simp_all add: next_revision_def Let_def)

lemma initialRevision_simps [simp]:
  "rv_caseId (initialRevision c) = c" "rv_revision (initialRevision c) = 0"
  "rv_reducedThroughSeq (initialRevision c) = -1" "rv_state (initialRevision c) = DETECTED"
  "rv_terminalReason (initialRevision c) = None" "rv_incidentId (initialRevision c) = None"
  "rv_attemptCount (initialRevision c) = 0" "rv_evidenceKinds (initialRevision c) = []"
  "rv_holdout (initialRevision c) = False" "rv_tier (initialRevision c) = 0"
  by (simp_all add: initialRevision_def)

section \<open>Logs that are folded in order\<close>

text \<open>
  The interface replay relies on: a step accepts only the next number of its sequence,
  and counts itself. Whatever the state is, a log that folds is numbered without gaps,
  a second copy of an event is refused, and the position of the result is the number of
  events.
\<close>

locale ordered_log =
  fixes step :: "'r \<Rightarrow> 'x \<Rightarrow> 'e + 'r" and pos :: "'r \<Rightarrow> int" and num :: "'x \<Rightarrow> int"
  assumes step_num: "step r x = Inr r' \<Longrightarrow> num x = pos r + 1"
    and step_pos: "step r x = Inr r' \<Longrightarrow> pos r' = num x"
begin

lemma step_next: "step r x = Inr r' \<Longrightarrow> pos r' = pos r + 1"
  using step_num [of r x r'] step_pos [of r x r'] by simp

lemma fold_pos: "foldE step r xs = Inr r' \<Longrightarrow> pos r' = pos r + int (length xs)"
  by (induction xs arbitrary: r) (auto simp: bindE_eq_Inr step_next)

lemma fold_nums:
  "foldE step r xs = Inr r' \<Longrightarrow> map num xs = map (\<lambda>i. pos r + 1 + int i) [0..<length xs]"
proof (induction xs arbitrary: r' rule: rev_induct)
  case (snoc x xs)
  then obtain r1 where r1: "foldE step r xs = Inr r1" and x: "step r1 x = Inr r'"
    by (auto simp: foldE_snoc bindE_eq_Inr)
  from fold_pos [OF r1] step_num [OF x] have "num x = pos r + 1 + int (length xs)" by simp
  with snoc.IH [OF r1] show ?case by simp
qed simp

lemma fold_prefix:
  "foldE step r (xs @ ys) = Inr r' \<Longrightarrow> \<exists>r1. foldE step r xs = Inr r1 \<and> foldE step r1 ys = Inr r'"
  by (auto simp: foldE_append bindE_eq_Inr)

lemma replayed_event_refused:
  assumes "foldE step r xs = Inr r'" and "x \<in> set xs"
  shows "\<exists>e. step r' x = Inl e"
proof (cases "step r' x")
  case (Inr r2)
  from assms(2) obtain i where i: "i < length xs" "xs ! i = x" by (auto simp: in_set_conv_nth)
  from fold_nums [OF assms(1)] i have "num x = pos r + 1 + int i"
    by (metis (no_types, lifting) add_0 nth_map nth_upt length_map length_upt diff_zero)
  with step_num [OF Inr] fold_pos [OF assms(1)] i have False by simp
  then show ?thesis ..
qed auto

end

interpretation case_log: ordered_log reduce rv_reducedThroughSeq ev_seq
  by unfold_locales (auto simp: reduce_Inr)

section \<open>What the fold of a log is\<close>

lemma reduceAll_Nil [simp]: "reduceAll c [] = Inr (initialRevision c)"
  by (simp add: reduceAll_def)

lemma reduceAll_snoc: "reduceAll c (es @ [e]) = bindE (reduceAll c es) (\<lambda>r. reduce r e)"
  by (simp add: reduceAll_def foldE_snoc)

lemma reduceAll_revision: "reduceAll c es = Inr r \<Longrightarrow> rv_revision r = int (length es)"
proof (induction es arbitrary: r rule: rev_induct)
  case (snoc e es)
  then show ?case by (auto simp: reduceAll_snoc bindE_eq_Inr reduce_Inr)
qed simp

lemma reduceAll_caseId: "reduceAll c es = Inr r \<Longrightarrow> rv_caseId r = c"
proof (induction es arbitrary: r rule: rev_induct)
  case (snoc e es)
  then show ?case by (auto simp: reduceAll_snoc bindE_eq_Inr reduce_Inr)
qed simp

text \<open>The fields of the result, each read off the log without folding it.\<close>

definition is_executed :: "StoredCaseEvent \<Rightarrow> bool" where
  "is_executed e = (case ev_event e of action_executed _ _ \<Rightarrow> True | _ \<Rightarrow> False)"

definition evidence_of :: "StoredCaseEvent \<Rightarrow> EvidenceKind option" where
  "evidence_of e = (case ev_event e of evidence_added k _ \<Rightarrow> Some k | _ \<Rightarrow> None)"

lemma reduceAll_attempts:
  "reduceAll c es = Inr r \<Longrightarrow> rv_attemptCount r = int (length (filter is_executed es))"
proof (induction es arbitrary: r rule: rev_induct)
  case (snoc e es)
  then show ?case
    by (auto simp: reduceAll_snoc bindE_eq_Inr reduce_Inr next_revision_def Let_def is_executed_def
        split: CaseEvent.splits)
qed simp

lemma next_evidenceKinds_set:
  "set (next_evidenceKinds (ev_event e) ks) = set ks \<union> set_option (evidence_of e)"
  by (cases "ev_event e") (auto simp: evidence_of_def)

lemma next_evidenceKinds_distinct: "distinct ks \<Longrightarrow> distinct (next_evidenceKinds e ks)"
  by (cases e) auto

lemma reduceAll_evidence:
  "reduceAll c es = Inr r \<Longrightarrow>
     distinct (rv_evidenceKinds r) \<and>
     set (rv_evidenceKinds r) = (\<Union>e \<in> set es. set_option (evidence_of e))"
proof (induction es arbitrary: r rule: rev_induct)
  case (snoc e es)
  then obtain r1 where "reduceAll c es = Inr r1" and "r = next_revision r1 e"
    by (auto simp: reduceAll_snoc bindE_eq_Inr reduce_Inr)
  with snoc.IH show ?case
    by (auto simp: next_evidenceKinds_distinct next_evidenceKinds_set)
qed simp

text \<open>The states a log visits, and the fact that they form a run of the state machine.\<close>

fun visited :: "CaseState \<Rightarrow> StoredCaseEvent list \<Rightarrow> CaseState list" where
  "visited s [] = [s]"
| "visited s (e # es) = s # visited (targetState (ev_event e) s) es"

lemma visited_not_Nil [simp]: "visited s es \<noteq> []"
  by (cases es) auto

lemma hd_visited [simp]: "hd (visited s es) = s"
  by (cases es) auto

lemma foldE_reduce_visited:
  "foldE reduce r es = Inr r' \<Longrightarrow>
     successively canTransition (visited (rv_state r) es) \<and> last (visited (rv_state r) es) = rv_state r'"
proof (induction es arbitrary: r)
  case (Cons e es)
  then obtain r1 where "reduce r e = Inr r1" and fold: "foldE reduce r1 es = Inr r'"
    by (auto simp: bindE_eq_Inr)
  then have r1: "rv_state r1 = targetState (ev_event e) (rv_state r)"
    and can: "canTransition (rv_state r) (rv_state r1)"
    by (auto simp: reduce_Inr)
  with Cons.IH [OF fold] show ?case by (simp add: successively_Cons)
qed simp

lemma visited_terminal:
  "successively canTransition (visited s es) \<Longrightarrow> isTerminal s \<Longrightarrow> last (visited s es) = s"
proof (induction es arbitrary: s)
  case (Cons e es)
  then show ?case by (auto simp: successively_Cons dest: canTransition_terminal)
qed simp

lemma reduce_terminal:
  assumes "foldE reduce r es = Inr r'" and "isTerminal (rv_state r)"
  shows "rv_state r' = rv_state r"
  using foldE_reduce_visited [OF assms(1)] visited_terminal [OF _ assms(2)] by metis

end
