(* ===== verification/Json_Text.thy ===== *)
theory Json_Text
  imports Core_Types
begin

text \<open>
  The parts of the language's library the capability code uses: \<open>JSON.stringify\<close> with a
  property list as replacer, and hexadecimal \<open>Buffer\<close> encoding and decoding.
\<close>

section \<open>\<open>JSON.stringify\<close>\<close>

definition hex_digit :: "nat \<Rightarrow> char" where
  "hex_digit n = (if n < 10 then char_of (48 + n) else char_of (87 + n))"

text \<open>\<open>QuoteJSONString\<close>: quote, backslash and control characters are escaped.\<close>

definition quote_char :: "char \<Rightarrow> string" where
  "quote_char c = (let n = of_char c :: nat in
     if n = 34 then [CHR 0x5C, CHR 0x22]
     else if n = 92 then [CHR 0x5C, CHR 0x5C]
     else if n = 8 then [CHR 0x5C, CHR ''b'']
     else if n = 12 then [CHR 0x5C, CHR ''f'']
     else if n = 10 then [CHR 0x5C, CHR ''n'']
     else if n = 13 then [CHR 0x5C, CHR ''r'']
     else if n = 9 then [CHR 0x5C, CHR ''t'']
     else if n < 32 then CHR 0x5C # ''u00'' @ [hex_digit (n div 16), hex_digit (n mod 16)]
     else [c])"

definition json_quote :: "string \<Rightarrow> string" where
  "json_quote s = [CHR 0x22] @ concat (map quote_char s) @ [CHR 0x22]"

text \<open>
  With an array as second argument, \<open>JSON.stringify\<close> keeps only the properties the
  array names, in the order of the array, and does so at every level of nesting.
\<close>

definition pick_props :: "string list \<Rightarrow> (string \<times> string) list \<Rightarrow> string list" where
  "pick_props allow fs =
     List.map_filter (\<lambda>k. map_option (\<lambda>v. json_quote k @ '':'' @ v) (map_of fs k)) allow"

fun json_str :: "env \<Rightarrow> string list \<Rightarrow> json \<Rightarrow> string" where
  "json_str E allow JNull = ''null''"
| "json_str E allow (JBool b) = (if b then ''true'' else ''false'')"
| "json_str E allow (JNum q) = num_str E q"
| "json_str E allow (JStr s) = json_quote s"
| "json_str E allow (JArr xs) = ''['' @ join '','' (map (json_str E allow) xs) @ '']''"
| "json_str E allow (JObj fs) =
     ''{'' @ join '','' (pick_props allow (map (\<lambda>(k, v). (k, json_str E allow v)) fs)) @ ''}''"

text \<open>\<open>Object.keys(o).sort()\<close>.\<close>

definition sorted_keys :: "params \<Rightarrow> string list" where
  "sorted_keys fs = sort_by code_le (map fst fs)"

section \<open>Hexadecimal\<close>

fun hex_value :: "char \<Rightarrow> nat option" where
  "hex_value c = (let n = of_char c :: nat in
     if n \<in> {48..57} then Some (n - 48)
     else if n \<in> {65..70} then Some (n - 55)
     else if n \<in> {97..102} then Some (n - 87)
     else None)"

text \<open>\<open>digest.toString("hex")\<close>.\<close>

definition hex_encode :: "byte list \<Rightarrow> string" where
  "hex_encode bs = concat (map (\<lambda>b. [hex_digit (unat b div 16), hex_digit (unat b mod 16)]) bs)"

text \<open>
  \<open>Buffer.from(s, "hex")\<close> never throws: it stops at the first pair that is not two
  hexadecimal digits, and drops an odd last character.
\<close>

fun hex_decode :: "string \<Rightarrow> byte list" where
  "hex_decode (a # b # s) =
     (case (hex_value a, hex_value b) of
        (Some x, Some y) \<Rightarrow> of_nat (16 * x + y) # hex_decode s
      | _ \<Rightarrow> [])"
| "hex_decode _ = []"

lemma nibble_cases: "n < 16 \<Longrightarrow> n \<in> {0, 1, 2, 3, 4, 5, 6, 7, 8, 9, 10, 11, 12, 13, 14, 15 :: nat}"
  unfolding insert_iff empty_iff simp_thms by arith

lemma hex_value_digit: "n < 16 \<Longrightarrow> hex_value (hex_digit n) = Some n"
  by (drule nibble_cases) (auto simp: hex_digit_def)

lemma byte_nibbles: "of_nat (16 * (unat b div 16) + unat b mod 16) = (b :: byte)"
proof -
  have "16 * (unat b div 16) + unat b mod 16 = unat b" by (simp add: mult_div_mod_eq)
  then show ?thesis by (simp only: of_nat_unat ucast_id)
qed

lemma hex_decode_encode: "hex_decode (hex_encode bs) = bs"
proof (induction bs)
  case (Cons b bs)
  have "unat b < 256" using unsigned_less [of b, where ?'a = nat] by simp
  then have "unat b div 16 < 16" and "unat b mod 16 < 16" by auto
  then show ?case using Cons byte_nibbles [of b]
    by (simp add: hex_encode_def hex_value_digit del: hex_value.simps)
qed (simp add: hex_encode_def)

lemma hex_decode_encode_append:
  "hex_decode (hex_encode bs @ s) = bs @ hex_decode s"
proof (induction bs)
  case (Cons b bs)
  have "unat b < 256" using unsigned_less [of b, where ?'a = nat] by simp
  then have "unat b div 16 < 16" and "unat b mod 16 < 16" by auto
  then show ?case using Cons byte_nibbles [of b]
    by (simp add: hex_encode_def hex_value_digit del: hex_value.simps)
qed (simp add: hex_encode_def)

lemma hex_encode_inject: "hex_encode bs = hex_encode bs' \<longleftrightarrow> bs = bs'"
  using hex_decode_encode by metis

text \<open>A property outside the list does not reach the text, wherever it is nested.\<close>

lemma pick_props_absent:
  "k \<notin> set allow \<Longrightarrow> pick_props allow (fs @ [(k, v)]) = pick_props allow fs"
  unfolding pick_props_def List.map_filter_def
  by (induction allow) (auto simp: map_add_Some_iff split: option.splits)

end
