(* ===== verification/Capability.thy ===== *)
theory Capability
  imports Json_Text
begin

text \<open>
  \<open>packages/core/src/capability.ts\<close>: capability tokens, what they sign, and the first
  three steps of connector admission. The keyed hash is OpenSSL's and a field of the
  environment; the random nonce is an argument of \<open>mint\<close>.
\<close>

record CapabilityToken =
  tk_caseId :: string
  tk_obligationId :: string
  tk_actionId :: string
  tk_paramsHash :: string
  tk_attemptNo :: int
  tk_amountCapPaise :: "int option"
  tk_currency :: string
  tk_policyVersion :: string
  tk_ruleId :: string
  tk_notAfter :: string
  tk_nonce :: string
  tk_hmac :: string

definition canonical :: "CapabilityToken \<Rightarrow> string" where
  "canonical t = join ''|''
     [tk_caseId t, tk_obligationId t, tk_actionId t, tk_paramsHash t, int_str (tk_attemptNo t),
      (case tk_amountCapPaise t of None \<Rightarrow> ''null'' | Some a \<Rightarrow> int_str a),
      tk_currency t, tk_policyVersion t, tk_ruleId t, tk_notAfter t, tk_nonce t]"

definition hashParams :: "env \<Rightarrow> params \<Rightarrow> string" where
  "hashParams E ps =
     hex_encode (hmac_sha256 E ''params'' (json_str E (sorted_keys ps) (JObj ps)))"

record CapabilityMinter =
  mi_key :: string
  mi_ttlMs :: int

definition DEFAULT_TTL_MS :: int where
  "DEFAULT_TTL_MS = 120000"

record MintInput =
  mt_caseId :: string
  mt_obligationId :: string
  mt_actionId :: string
  mt_paramsHash :: string
  mt_attemptNo :: int
  mt_amountCapPaise :: "int option"
  mt_policyVersion :: string
  mt_ruleId :: string

definition token_sign :: "env \<Rightarrow> CapabilityMinter \<Rightarrow> CapabilityToken \<Rightarrow> string" where
  "token_sign E m t = hex_encode (hmac_sha256 E (mi_key m) (canonical t))"

definition unsigned :: "env \<Rightarrow> CapabilityMinter \<Rightarrow> int \<Rightarrow> string \<Rightarrow> MintInput \<Rightarrow> CapabilityToken" where
  "unsigned E m now nonce i =
     \<lparr>tk_caseId = mt_caseId i, tk_obligationId = mt_obligationId i, tk_actionId = mt_actionId i,
      tk_paramsHash = mt_paramsHash i, tk_attemptNo = mt_attemptNo i,
      tk_amountCapPaise = mt_amountCapPaise i, tk_currency = ''INR'',
      tk_policyVersion = mt_policyVersion i, tk_ruleId = mt_ruleId i,
      tk_notAfter = to_iso E (now + mi_ttlMs m), tk_nonce = nonce, tk_hmac = []\<rparr>"

definition mint :: "env \<Rightarrow> CapabilityMinter \<Rightarrow> int \<Rightarrow> string \<Rightarrow> MintInput \<Rightarrow> CapabilityToken" where
  "mint E m now nonce i =
     (let u = unsigned E m now nonce i in u\<lparr>tk_hmac := token_sign E m u\<rparr>)"

record TokenCall =
  tc_actionId :: string
  tc_params :: params
  tc_amountPaise :: "int option"

text \<open>
  \<open>verify\<close>: the signature, then the expiry (a date that does not parse compares false),
  the action, the parameters and the amount. The comparison of the signatures is of the
  decoded bytes, as \<open>timingSafeEqual\<close> makes it after the length check.
\<close>

definition token_verify ::
  "env \<Rightarrow> CapabilityMinter \<Rightarrow> int \<Rightarrow> CapabilityToken \<Rightarrow> TokenCall \<Rightarrow> err + unit" where
  "token_verify E m now token call =
     (let expected = hex_decode (token_sign E m token); actual = hex_decode (tk_hmac token) in
      if expected \<noteq> actual then Inl (TokenRejectedError bad_signature [])
      else if (case parse_iso E (tk_notAfter token) of None \<Rightarrow> False | Some t \<Rightarrow> now > t)
      then Inl (TokenRejectedError expired (tk_notAfter token))
      else if tk_actionId token \<noteq> tc_actionId call
      then Inl (TokenRejectedError action_mismatch (tk_actionId token @ '' != '' @ tc_actionId call))
      else if tk_paramsHash token \<noteq> hashParams E (tc_params call)
      then Inl (TokenRejectedError params_mismatch [])
      else (case (tk_amountCapPaise token, tc_amountPaise call) of
              (Some cap, Some amt) \<Rightarrow>
                if amt > cap
                then Inl (TokenRejectedError amount_exceeds_cap (int_str amt @ '' > '' @ int_str cap))
                else Inr ()
            | _ \<Rightarrow> Inr ()))"

section \<open>What verification establishes\<close>

lemma canonical_hmac [simp]: "canonical (t\<lparr>tk_hmac := h\<rparr>) = canonical t"
  by (simp add: canonical_def)

lemma token_sign_hmac [simp]: "token_sign E m (t\<lparr>tk_hmac := h\<rparr>) = token_sign E m t"
  by (simp add: token_sign_def)

lemma hex_decode_sign [simp]:
  "hex_decode (token_sign E m t) = hmac_sha256 E (mi_key m) (canonical t)"
  by (simp add: token_sign_def hex_decode_encode)

lemma token_verify_Inr:
  "token_verify E m now t c = Inr () \<longleftrightarrow>
     hex_decode (tk_hmac t) = hmac_sha256 E (mi_key m) (canonical t)
     \<and> (\<forall>d. parse_iso E (tk_notAfter t) = Some d \<longrightarrow> now \<le> d)
     \<and> tk_actionId t = tc_actionId c
     \<and> tk_paramsHash t = hashParams E (tc_params c)
     \<and> (\<forall>cap amt. tk_amountCapPaise t = Some cap \<longrightarrow> tc_amountPaise c = Some amt \<longrightarrow> amt \<le> cap)"
  by (auto simp: token_verify_def Let_def split: option.splits if_splits)

lemma mint_simps [simp]:
  "tk_caseId (mint E m now n i) = mt_caseId i"
  "tk_obligationId (mint E m now n i) = mt_obligationId i"
  "tk_actionId (mint E m now n i) = mt_actionId i"
  "tk_paramsHash (mint E m now n i) = mt_paramsHash i"
  "tk_attemptNo (mint E m now n i) = mt_attemptNo i"
  "tk_amountCapPaise (mint E m now n i) = mt_amountCapPaise i"
  "tk_policyVersion (mint E m now n i) = mt_policyVersion i"
  "tk_ruleId (mint E m now n i) = mt_ruleId i"
  "tk_notAfter (mint E m now n i) = to_iso E (now + mi_ttlMs m)"
  "tk_nonce (mint E m now n i) = n"
  by (simp_all add: mint_def unsigned_def Let_def)

lemma mint_hmac: "tk_hmac (mint E m now n i) = token_sign E m (mint E m now n i)"
  by (simp add: mint_def Let_def token_sign_def canonical_def)

lemma mint_signed:
  "hex_decode (tk_hmac (mint E m now n i)) = hmac_sha256 E (mi_key m) (canonical (mint E m now n i))"
  by (simp add: mint_def Let_def)

section \<open>Minting and verifying as an interface\<close>

text \<open>
  What the executor relies on of a token scheme: a token passes exactly while it is
  fresh and for a call that it covers. Stated over any issue and check operation.
\<close>

locale token_scheme =
  fixes issue :: "int \<Rightarrow> 'i \<Rightarrow> 't" and check :: "int \<Rightarrow> 't \<Rightarrow> 'c \<Rightarrow> bool"
    and covers :: "'i \<Rightarrow> 'c \<Rightarrow> bool" and ttl :: int
  assumes check_issue: "check now (issue t0 i) c \<longleftrightarrow> now \<le> t0 + ttl \<and> covers i c"
begin

lemma check_later: "check now (issue t0 i) c \<Longrightarrow> now' \<le> now \<Longrightarrow> check now' (issue t0 i) c"
  by (simp add: check_issue)

lemma expired_for_good: "t0 + ttl < now \<Longrightarrow> \<not> check now (issue t0 i) c"
  by (simp add: check_issue)

end

definition input_covers :: "env \<Rightarrow> MintInput \<Rightarrow> TokenCall \<Rightarrow> bool" where
  "input_covers E i c \<longleftrightarrow>
     mt_actionId i = tc_actionId c \<and> mt_paramsHash i = hashParams E (tc_params c)
     \<and> (\<forall>cap amt. mt_amountCapPaise i = Some cap \<longrightarrow> tc_amountPaise c = Some amt \<longrightarrow> amt \<le> cap)"

text \<open>Dates print and parse back (ECMAScript: \<open>toISOString\<close> is in the format \<open>Date\<close> parses).\<close>

definition iso_roundtrip :: "env \<Rightarrow> bool" where
  "iso_roundtrip E \<longleftrightarrow> (\<forall>t. parse_iso E (to_iso E t) = Some t)"

lemma token_verify_mint:
  assumes "iso_roundtrip E"
  shows "token_verify E m now (mint E m t0 n i) c = Inr () \<longleftrightarrow>
    now \<le> t0 + mi_ttlMs m \<and> input_covers E i c"
  using assms by (auto simp: token_verify_Inr mint_signed iso_roundtrip_def input_covers_def)

text \<open>
  The interface on the model's own minter, in an environment whose dates are the
  decimal digits of the instant.
\<close>

definition env0 :: env where
  "env0 = \<lparr>hmac_sha256 = (\<lambda>k d. map (\<lambda>c. of_nat (of_char c)) (k @ d)),
           sha256 = (\<lambda>d. map (\<lambda>c. of_nat (of_char c)) d),
           local_hm = (\<lambda>tz t. (nat ((t div 3600000) mod 24), nat ((t div 60000) mod 60))),
           locale_le = code_le, db_le = code_le,
           num_str = (\<lambda>q. int_str \<lfloor>q\<rfloor>), to_fixed = (\<lambda>q n. int_str \<lfloor>q\<rfloor>),
           to_iso = int_str, parse_iso = (\<lambda>s. Some (read_int s)), parse_json = (\<lambda>s. Some (JStr s)),
           fl = (\<lambda>q. q), js_sqrt = (\<lambda>q. q), js_exp = (\<lambda>q. 1),
           js_log = (\<lambda>q. 0), js_cos = (\<lambda>q. 1)\<rparr>"

lemma iso_roundtrip_env0: "iso_roundtrip env0"
  by (simp add: iso_roundtrip_def env0_def read_int_int_str)

text \<open>The scheme holds of the model's minter in every environment whose dates round-trip.\<close>

lemma capability_scheme:
  "iso_roundtrip E \<Longrightarrow>
     token_scheme (\<lambda>t0 (n, i). mint E m t0 n i) (\<lambda>now t c. token_verify E m now t c = Inr ())
       (\<lambda>(n, i) c. input_covers E i c) (mi_ttlMs m)"
  by unfold_locales (auto simp: token_verify_mint)

interpretation capability0: token_scheme
  "\<lambda>t0 (n, i). mint env0 m t0 n i" "\<lambda>now t c. token_verify env0 m now t c = Inr ()"
  "\<lambda>(n, i) c. input_covers env0 i c" "mi_ttlMs m" for m
  by (rule capability_scheme) (rule iso_roundtrip_env0)

section \<open>The parameter hash\<close>

text \<open>The hash is the keyed hash of the property-list text, so it only sees listed names.\<close>

lemma hashParams_text:
  "json_str E (sorted_keys ps) (JObj ps) = json_str E (sorted_keys qs) (JObj qs) \<Longrightarrow>
     hashParams E ps = hashParams E qs"
  by (simp add: hashParams_def)

end
