(* ===== verification/Roles.thy ===== *)
theory Roles
  imports Core_Types
begin

text \<open>\<open>packages/core/src/roles.ts\<close>: the specialist roles and the evidence each one reads.\<close>

datatype RoleId = payment_diagnosis | customer_context | incident_intelligence
  | recovery_economics | communication

definition ROLE_IDS :: "RoleId list" where
  "ROLE_IDS = [payment_diagnosis, customer_context, incident_intelligence,
     recovery_economics, communication]"

fun role_str :: "RoleId \<Rightarrow> string" where
  "role_str payment_diagnosis = ''payment_diagnosis''"
| "role_str customer_context = ''customer_context''"
| "role_str incident_intelligence = ''incident_intelligence''"
| "role_str recovery_economics = ''recovery_economics''"
| "role_str communication = ''communication''"

record RoleContract =
  rc_role :: RoleId
  rc_dependsOn :: "EvidenceKind list"
  rc_toolScope :: "string list"
  rc_mayUseProvider :: bool
  rc_timeoutMs :: int
  rc_callBudget :: int

fun ROLE_REGISTRY :: "RoleId \<Rightarrow> RoleContract" where
  "ROLE_REGISTRY payment_diagnosis =
     \<lparr>rc_role = payment_diagnosis,
      rc_dependsOn = [payment_attempt, decline_code, mandate_state],
      rc_toolScope = [''taxonomy_lookup'', ''attempt_history''],
      rc_mayUseProvider = True, rc_timeoutMs = 8000, rc_callBudget = 1\<rparr>"
| "ROLE_REGISTRY customer_context =
     \<lparr>rc_role = customer_context,
      rc_dependsOn = [customer_profile, customer_reply, contact_history, obligation_state],
      rc_toolScope = [''customer_lookup'', ''obligation_lookup'', ''contact_budget_read''],
      rc_mayUseProvider = True, rc_timeoutMs = 8000, rc_callBudget = 1\<rparr>"
| "ROLE_REGISTRY incident_intelligence =
     \<lparr>rc_role = incident_intelligence,
      rc_dependsOn = [incident_membership, segment_metrics],
      rc_toolScope = [''incident_index'', ''segment_baseline''],
      rc_mayUseProvider = True, rc_timeoutMs = 10000, rc_callBudget = 1\<rparr>"
| "ROLE_REGISTRY recovery_economics =
     \<lparr>rc_role = recovery_economics,
      rc_dependsOn = [payment_attempt, decline_code, obligation_state, policy_snapshot],
      rc_toolScope = [''action_library'', ''policy_snapshot_read''],
      rc_mayUseProvider = False, rc_timeoutMs = 2000, rc_callBudget = 0\<rparr>"
| "ROLE_REGISTRY communication =
     \<lparr>rc_role = communication,
      rc_dependsOn = [customer_profile, customer_reply, contact_history, policy_snapshot],
      rc_toolScope = [''template_catalog''],
      rc_mayUseProvider = True, rc_timeoutMs = 6000, rc_callBudget = 1\<rparr>"

definition rolesDependingOn :: "EvidenceKind list \<Rightarrow> RoleId list" where
  "rolesDependingOn kinds =
     filter (\<lambda>r. list_ex (\<lambda>k. k \<in> set kinds) (rc_dependsOn (ROLE_REGISTRY r))) ROLE_IDS"

lemma ROLE_IDS_all: "r \<in> set ROLE_IDS"
  by (cases r) (simp_all add: ROLE_IDS_def)

lemma distinct_ROLE_IDS: "distinct ROLE_IDS"
  by (simp add: ROLE_IDS_def)

lemma set_rolesDependingOn:
  "r \<in> set (rolesDependingOn kinds) \<longleftrightarrow> set (rc_dependsOn (ROLE_REGISTRY r)) \<inter> set kinds \<noteq> {}"
  by (auto simp: rolesDependingOn_def ROLE_IDS_all list_ex_iff)

text \<open>Every evidence kind is read by some role: a change of any kind reruns something.\<close>

lemma every_kind_read: "\<exists>r. k \<in> set (rc_dependsOn (ROLE_REGISTRY r))"
proof -
  have "\<exists>r \<in> set ROLE_IDS. k \<in> set (rc_dependsOn (ROLE_REGISTRY r))"
    by (cases k) (simp_all add: ROLE_IDS_def)
  then show ?thesis by blast
qed

end
