(* ===== verification/Action_Library.thy ===== *)
theory Action_Library
  imports Core_Types
begin

text \<open>
  \<open>packages/core/src/actions.ts\<close>: the closed set of actions. The YAML text is parsed by
  a third-party package, so the model starts at the raw value it returns.
\<close>

datatype ActionKind = capability | schedule

datatype ActionSurface = live | simulated

record ActionDef =
  ad_id :: string
  ad_kind :: ActionKind
  ad_capability :: "string option"
  ad_surface :: ActionSurface
  ad_description :: string
  ad_rails :: "Rail list option"
  ad_params :: params
  ad_amountCapped :: bool
  ad_consumesContactBudget :: bool
  ad_quietHoursEnforced :: bool
  ad_requiresApproval :: bool
  ad_optimizerSelectable :: bool
  ad_actionCostPaise :: int
  ad_pRecoverDefault :: "rat option"
  ad_pRecoverByCause :: "(string \<times> rat) list"
  ad_stopConditions :: "string list"

record ForbiddenActionDef =
  fb_id :: string
  fb_reason :: string

record ActionLibrary =
  lib_version :: int
  lib_byId :: "(string \<times> ActionDef) list"
  lib_forbidden :: "(string \<times> ForbiddenActionDef) list"

definition newActionLibrary ::
  "int \<Rightarrow> ActionDef list \<Rightarrow> ForbiddenActionDef list \<Rightarrow> ActionLibrary" where
  "newActionLibrary version actions forbidden =
     \<lparr>lib_version = version,
      lib_byId = js_map_of (map (\<lambda>a. (ad_id a, a)) actions),
      lib_forbidden = js_map_of (map (\<lambda>f. (fb_id f, f)) forbidden)\<rparr>"

text \<open>\<open>ActionLibrary.get\<close>: a forbidden id fails with its documented reason, an unknown one as unknown.\<close>

definition lib_get :: "ActionLibrary \<Rightarrow> string \<Rightarrow> err + ActionDef" where
  "lib_get lib i =
     (case map_of (lib_forbidden lib) i of
        Some f \<Rightarrow> Inl (ForbiddenActionError (fb_id f) (js_trim (fb_reason f)))
      | None \<Rightarrow> (case map_of (lib_byId lib) i of
                   None \<Rightarrow> Inl (UnknownActionError i)
                 | Some a \<Rightarrow> Inr a))"

definition lib_has :: "ActionLibrary \<Rightarrow> string \<Rightarrow> bool" where
  "lib_has lib i \<longleftrightarrow> map_of (lib_byId lib) i \<noteq> None"

definition lib_all :: "env \<Rightarrow> ActionLibrary \<Rightarrow> ActionDef list" where
  "lib_all E lib =
     sort_by (\<lambda>a b. locale_le E (ad_id a) (ad_id b)) (map snd (lib_byId lib))"

definition lib_selectableForRail :: "env \<Rightarrow> ActionLibrary \<Rightarrow> Rail \<Rightarrow> ActionDef list" where
  "lib_selectableForRail E lib rail =
     filter (\<lambda>a. ad_optimizerSelectable a \<and>
                 (case ad_rails a of None \<Rightarrow> True | Some rs \<Rightarrow> rail \<in> set rs))
       (lib_all E lib)"

definition lib_pRecover :: "ActionLibrary \<Rightarrow> string \<Rightarrow> string \<Rightarrow> err + rat" where
  "lib_pRecover lib i cause =
     bindE (lib_get lib i) (\<lambda>a. Inr
       (case map_of (ad_pRecoverByCause a) cause of
          Some p \<Rightarrow> p
        | None \<Rightarrow> (case ad_pRecoverDefault a of Some p \<Rightarrow> p | None \<Rightarrow> 0)))"

record RawAction =
  ra_id :: string
  ra_kind :: ActionKind
  ra_capability :: "string option"
  ra_surface :: "ActionSurface option"
  ra_description :: "string option"
  ra_rails :: "Rail list option"
  ra_params :: "params option"
  ra_amount_capped :: "bool option"
  ra_consumes_contact_budget :: "bool option"
  ra_quiet_hours_enforced :: "bool option"
  ra_requires_approval :: "bool option"
  ra_optimizer_selectable :: "bool option"
  ra_action_cost_paise :: "int option"
  ra_p_recover_default :: "rat option"
  ra_p_recover_by_cause :: "(string \<times> rat) list option"
  ra_stop_conditions :: "string list option"

record RawLibrary =
  rl_version :: int
  rl_default_requires_approval :: "bool option"
  rl_default_surface :: "ActionSurface option"
  rl_actions :: "RawAction list"
  rl_forbidden :: "ForbiddenActionDef list option"

text \<open>\<open>a ?? b\<close>.\<close>

definition dflt :: "'a option \<Rightarrow> 'a \<Rightarrow> 'a" where
  "dflt z d = (case z of None \<Rightarrow> d | Some x \<Rightarrow> x)"

definition action_of_raw :: "RawLibrary \<Rightarrow> RawAction \<Rightarrow> ActionDef" where
  "action_of_raw raw a =
     \<lparr>ad_id = ra_id a,
      ad_kind = ra_kind a,
      ad_capability = ra_capability a,
      ad_surface = dflt (ra_surface a) (dflt (rl_default_surface raw) simulated),
      ad_description = js_trim (dflt (ra_description a) []),
      ad_rails = ra_rails a,
      ad_params = dflt (ra_params a) [],
      ad_amountCapped = dflt (ra_amount_capped a) False,
      ad_consumesContactBudget = dflt (ra_consumes_contact_budget a) False,
      ad_quietHoursEnforced = dflt (ra_quiet_hours_enforced a) False,
      ad_requiresApproval =
        dflt (ra_requires_approval a) (dflt (rl_default_requires_approval raw) False),
      ad_optimizerSelectable = dflt (ra_optimizer_selectable a) True,
      ad_actionCostPaise = dflt (ra_action_cost_paise a) 0,
      ad_pRecoverDefault = ra_p_recover_default a,
      ad_pRecoverByCause = dflt (ra_p_recover_by_cause a) [],
      ad_stopConditions = dflt (ra_stop_conditions a) []\<rparr>"

fun parse_actions :: "RawLibrary \<Rightarrow> string list \<Rightarrow> RawAction list \<Rightarrow> err + ActionDef list" where
  "parse_actions raw seen [] = Inr []"
| "parse_actions raw seen (a # as) =
     (if ra_id a \<in> set seen then Inl (Error (''duplicate action id in library: '' @ ra_id a))
      else if ra_kind a = capability \<and> \<not> truthy (ra_capability a)
      then Inl (Error (''capability action '' @ ra_id a @ '' must name a PSPAdapter capability''))
      else if ra_kind a = schedule \<and> truthy (ra_capability a)
      then Inl (Error (''schedule action '' @ ra_id a @ '' must not bind a capability''))
      else bindE (parse_actions raw (seen @ [ra_id a]) as)
             (\<lambda>ds. Inr (action_of_raw raw a # ds)))"

definition parseActionLibrary :: "RawLibrary \<Rightarrow> err + ActionLibrary" where
  "parseActionLibrary raw =
     bindE (parse_actions raw [] (rl_actions raw))
       (\<lambda>actions. Inr (newActionLibrary (rl_version raw) actions (dflt (rl_forbidden raw) [])))"

section \<open>Lookups in a library\<close>

lemma lib_get_Inr:
  "lib_get lib i = Inr a \<longleftrightarrow>
     map_of (lib_forbidden lib) i = None \<and> map_of (lib_byId lib) i = Some a"
  by (auto simp: lib_get_def split: option.splits)

lemma lib_get_id:
  "lib_get (newActionLibrary v as fs) i = Inr a \<Longrightarrow> ad_id a = i \<and> a \<in> set as"
  by (auto simp: lib_get_Inr newActionLibrary_def dest!: map_of_js_map_of_Some)

text \<open>What a library built by the constructor satisfies: the key of an entry is its id.\<close>

definition lib_wf :: "ActionLibrary \<Rightarrow> bool" where
  "lib_wf lib \<longleftrightarrow> (\<forall>(i, a) \<in> set (lib_byId lib). ad_id a = i) \<and> distinct (map fst (lib_byId lib))"

lemma lib_wf_new: "lib_wf (newActionLibrary v as fs)"
  by (auto simp: lib_wf_def newActionLibrary_def distinct_js_map_of dest!: js_map_of_mem)

lemma lib_wf_get: "lib_wf lib \<Longrightarrow> lib_get lib i = Inr a \<Longrightarrow> ad_id a = i"
  by (auto simp: lib_get_Inr lib_wf_def dest!: map_of_SomeD)

lemma set_lib_all: "set (lib_all E lib) = snd ` set (lib_byId lib)"
  by (simp add: lib_all_def)

lemma lib_all_get:
  assumes "lib_wf lib" and "a \<in> set (lib_all E lib)" and "map_of (lib_forbidden lib) (ad_id a) = None"
  shows "lib_get lib (ad_id a) = Inr a"
proof -
  from assms(2) obtain i where i: "(i, a) \<in> set (lib_byId lib)" by (auto simp: set_lib_all)
  with assms(1) have "ad_id a = i" and "map_of (lib_byId lib) i = Some a"
    by (auto simp: lib_wf_def)
  with assms(3) show ?thesis by (simp add: lib_get_Inr)
qed

section \<open>What parsing guarantees\<close>

text \<open>An action either names a capability or makes no external call at all.\<close>

definition action_wf :: "ActionDef \<Rightarrow> bool" where
  "action_wf a \<longleftrightarrow> (ad_kind a = capability \<longleftrightarrow> truthy (ad_capability a))"

lemma action_of_raw_simps [simp]:
  "ad_id (action_of_raw raw a) = ra_id a" "ad_kind (action_of_raw raw a) = ra_kind a"
  "ad_capability (action_of_raw raw a) = ra_capability a"
  by (simp_all add: action_of_raw_def)

lemma parse_actions_sound:
  "parse_actions raw seen as = Inr ds \<Longrightarrow>
     ds = map (action_of_raw raw) as \<and> distinct (map ra_id as) \<and>
     set (map ra_id as) \<inter> set seen = {} \<and> (\<forall>d \<in> set ds. action_wf d)"
proof (induction as arbitrary: seen ds)
  case (Cons a as)
  from Cons.prems obtain ds' where "parse_actions raw (seen @ [ra_id a]) as = Inr ds'"
    and "ra_id a \<notin> set seen" and "ds = action_of_raw raw a # ds'"
    and "ra_kind a = capability \<longleftrightarrow> truthy (ra_capability a)"
    by (cases "ra_kind a") (auto simp: bindE_eq_Inr split: if_splits)
  with Cons.IH show ?case by (fastforce simp: action_wf_def)
qed simp

lemma parseActionLibrary_sound:
  assumes "parseActionLibrary raw = Inr lib"
  shows "lib_wf lib \<and> (\<forall>i a. lib_get lib i = Inr a \<longrightarrow> action_wf a)
         \<and> map fst (lib_byId lib) = map ra_id (rl_actions raw)"
proof -
  from assms obtain ds where ds: "parse_actions raw [] (rl_actions raw) = Inr ds"
    and lib: "lib = newActionLibrary (rl_version raw) ds (dflt (rl_forbidden raw) [])"
    by (auto simp: parseActionLibrary_def bindE_eq_Inr)
  from parse_actions_sound [OF ds]
  have "map ad_id ds = map ra_id (rl_actions raw)" and "distinct (map ad_id ds)"
    and wf: "\<forall>d \<in> set ds. action_wf d" by (auto simp: comp_def)
  then have "map fst (lib_byId lib) = map ra_id (rl_actions raw)"
    by (simp add: lib newActionLibrary_def js_map_of_distinct comp_def)
  with wf show ?thesis
    by (auto simp: lib lib_wf_new dest: lib_get_id)
qed

end
