(* ===== verification/Policy.thy ===== *)
theory Policy
  imports Action_Library
begin

text \<open>
  \<open>packages/core/src/policy.ts\<close>: the merchant policy, quiet hours in its time zone, and
  the contact caps. The hour and minute of an instant in a time zone are ICU's
  (\<open>local_hm\<close>). \<open>Number\<close> is modelled on the text between the colons of an
  \<open>HH:MM\<close> value: decimal digits with surrounding white space are the number, the empty
  text is 0 and anything else is \<open>NaN\<close> (\<open>None\<close>), with which every comparison is false.
\<close>

record ContactCap =
  cc_channel :: string
  cc_windowDays :: int
  cc_max :: int

record QuietHours =
  qh_start :: string
  qh_end :: string
  qh_timezone :: string

record Policy =
  po_version :: string
  po_merchant :: string
  po_quietHours :: QuietHours
  po_contactCaps :: "ContactCap list"
  po_maxAttemptsPerCase :: int
  po_requireApprovalAbovePaise :: int
  po_allowedActions :: "(string \<times> string list) list"

datatype RuleId = ACTION_NOT_ALLOWED_ON_RAIL | RETRY_CAP | QUIET_HOURS | CONTACT_BUDGET
  | AMOUNT_APPROVAL | OPTED_OUT_RULE | ALLOWED

fun RULES :: "RuleId \<Rightarrow> string" where
  "RULES ACTION_NOT_ALLOWED_ON_RAIL = ''R-102''"
| "RULES RETRY_CAP = ''R-201''"
| "RULES QUIET_HOURS = ''R-207''"
| "RULES CONTACT_BUDGET = ''R-208''"
| "RULES AMOUNT_APPROVAL = ''R-301''"
| "RULES OPTED_OUT_RULE = ''R-401''"
| "RULES ALLOWED = ''R-500''"

datatype PolicyOutcome = allow | block | require_approval

record PolicyDecision =
  pd_outcome :: PolicyOutcome
  pd_ruleId :: RuleId
  pd_reason :: string
  pd_policyVersion :: string

definition localMinutes :: "env \<Rightarrow> int \<Rightarrow> string \<Rightarrow> int" where
  "localMinutes E tm tz = (case local_hm E tz tm of (h, m) \<Rightarrow> int h * 60 + int m)"

definition is_digit :: "char \<Rightarrow> bool" where
  "is_digit c \<longleftrightarrow> (of_char c :: nat) \<in> {48..57}"

definition js_Number :: "string \<Rightarrow> int option" where
  "js_Number s = (let t = js_trim s in
     if list_all is_digit t then Some (digits_value t) else None)"

text \<open>\<open>s.split(":")\<close>.\<close>

fun split_on :: "char \<Rightarrow> string \<Rightarrow> string list" where
  "split_on c [] = [[]]"
| "split_on c (x # xs) =
     (if x = c then [] # split_on c xs
      else (case split_on c xs of [] \<Rightarrow> [[x]] | y # ys \<Rightarrow> (x # y) # ys))"

definition toMinutes :: "string \<Rightarrow> int option" where
  "toMinutes hhmm =
     (case split_on (CHR '':'') hhmm of
        h # m # _ \<Rightarrow> (case (js_Number h, js_Number m) of
                        (Some a, Some b) \<Rightarrow> Some (a * 60 + b) | _ \<Rightarrow> None)
      | _ \<Rightarrow> None)"

text \<open>\<open>a < b\<close> and \<open>a >= b\<close> where a side may be \<open>NaN\<close>.\<close>

fun nan_less :: "int option \<Rightarrow> int option \<Rightarrow> bool" where
  "nan_less (Some a) (Some b) = (a < b)"
| "nan_less _ _ = False"

fun nan_geq :: "int option \<Rightarrow> int option \<Rightarrow> bool" where
  "nan_geq (Some a) (Some b) = (a \<ge> b)"
| "nan_geq _ _ = False"

definition inQuietHours :: "env \<Rightarrow> int \<Rightarrow> Policy \<Rightarrow> bool" where
  "inQuietHours E tm policy =
     (let now = Some (localMinutes E tm (qh_timezone (po_quietHours policy)));
          start = toMinutes (qh_start (po_quietHours policy));
          fin = toMinutes (qh_end (po_quietHours policy))
      in if nan_less fin start then nan_geq now start \<or> nan_less now fin
         else nan_geq now start \<and> nan_less now fin)"

definition capFor :: "Policy \<Rightarrow> string \<Rightarrow> ContactCap option" where
  "capFor policy channel = find (\<lambda>c. cc_channel c = channel) (po_contactCaps policy)"

definition globalCap :: "Policy \<Rightarrow> ContactCap option" where
  "globalCap policy = find (\<lambda>c. cc_channel c = ''*'') (po_contactCaps policy)"

definition actionAllowedOnRail :: "Policy \<Rightarrow> Rail \<Rightarrow> string \<Rightarrow> bool" where
  "actionAllowedOnRail policy rail actionId \<longleftrightarrow>
     actionId \<in> set (dflt (map_of (po_allowedActions policy) (rail_str rail)) [])"

lemma capFor_channel: "capFor policy ch = Some c \<Longrightarrow> cc_channel c = ch"
  by (auto simp: capFor_def dest: find_SomeD)

lemma globalCap_channel: "globalCap policy = Some c \<Longrightarrow> cc_channel c = ''*''"
  by (auto simp: globalCap_def dest: find_SomeD)

section \<open>Quiet hours as an interval of the day\<close>

text \<open>
  With both ends readable, quiet hours are the cyclic interval from the start to the
  end of a day of 1440 minutes: how long after the start the instant lies, counted
  around midnight, is less than how long quiet hours last.
\<close>

lemma cyclic_interval:
  fixes n s e :: int
  assumes "0 \<le> n" "n < d" "0 \<le> s" "s < d" "0 \<le> e" "e < d"
  shows "(if e < s then n \<ge> s \<or> n < e else n \<ge> s \<and> n < e) \<longleftrightarrow> (n - s) mod d < (e - s) mod d"
proof -
  have m: "x mod d = (if x < 0 then x + d else x)" if "- d < x" "x < d" for x
  proof (cases "x < 0")
    case True
    have "x mod d = (x + d) mod d" by simp
    also have "\<dots> = x + d" using True that by (intro mod_pos_pos_trivial) auto
    finally show ?thesis using True by (simp only: if_True)
  qed (use that in simp)
  show ?thesis using assms by (simp add: m)
qed

lemma inQuietHours_cyclic:
  assumes "toMinutes (qh_start (po_quietHours p)) = Some s"
    and "toMinutes (qh_end (po_quietHours p)) = Some e"
    and "0 \<le> s" "s < 1440" "0 \<le> e" "e < 1440"
    and "fst (local_hm E (qh_timezone (po_quietHours p)) tm) < 24"
    and "snd (local_hm E (qh_timezone (po_quietHours p)) tm) < 60"
  shows "inQuietHours E tm p \<longleftrightarrow>
    (localMinutes E tm (qh_timezone (po_quietHours p)) - s) mod 1440 < (e - s) mod 1440"
proof -
  let ?n = "localMinutes E tm (qh_timezone (po_quietHours p))"
  have "0 \<le> ?n" "?n < 1440" using assms(7,8) by (auto simp: localMinutes_def split: prod.split)
  then show ?thesis
    using cyclic_interval [of ?n 1440 s e] assms(3-6)
    by (simp only: inQuietHours_def Let_def assms(1,2) nan_less.simps nan_geq.simps)
qed

end
