(* ===== verification/Db.thy ===== *)
theory Db
  imports Case_Events Capability Roles Policy
begin

text \<open>
  The data base of \<open>migrations/*.sql\<close>: one list per table, in insertion order, with the
  unique keys, foreign keys and checks its statements can violate. Instants are
  milliseconds. A statement is a \<open>dbm\<close>; a violated constraint throws the Postgres
  error the code may catch. A statement runs atomically, as the row locks of the code make it.
  Also \<open>packages/db/src/ledger.ts\<close>, the append-only audit log.
\<close>

section \<open>Rows\<close>

record obligation_row =
  ob_id :: string
  ob_merchant :: string
  ob_customer :: string
  ob_type :: Domain
  ob_amount :: int
  ob_due :: int
  ob_ref :: string
  ob_state :: string
  ob_virtual_account :: "string option"

text \<open>The columns that label a case for the reports; nothing of the engine reads them.\<close>

record case_labels =
  lb_stratum :: "string option"
  lb_cause :: "string option"
  lb_rail :: "string option"
  lb_gateway :: "string option"
  lb_issuer :: "string option"

record case_row =
  cs_id :: string
  cs_obligation :: string
  cs_incident :: "string option"
  cs_domain :: Domain
  cs_state :: CaseState
  cs_tier :: nat
  cs_holdout :: bool
  cs_next_seq :: int
  cs_opened_at :: int
  cs_closed_at :: "int option"
  cs_terminal_reason :: "string option"
  cs_labels :: case_labels

record ActionRef =
  rf_actionId :: string
  rf_params :: params
  rf_attemptNo :: int

datatype sched_state = pending | leased | sched_done | cancelled

record sched_row =
  sa_id :: nat
  sa_case :: string
  sa_obligation :: string
  sa_fire_at :: int
  sa_ref :: ActionRef
  sa_state :: sched_state
  sa_owner :: "string option"
  sa_expiry :: "int option"
  sa_attempts :: nat
  sa_created :: int
  sa_settled :: "int option"

record lock_row =
  lk_obligation :: string
  lk_holder :: string
  lk_acquired :: int
  lk_expiry :: int

record ledger_row =
  lg_case :: string
  lg_ts :: int
  lg_actor :: string
  lg_type :: string
  lg_payload :: params
  lg_policy :: "string option"

record evidence_row =
  er_id :: string
  er_case :: string
  er_kind :: EvidenceKind
  er_payload :: params
  er_source :: string
  er_observed :: int

datatype claim_status = valid | invalidated

record claim_row =
  cm_id :: string
  cm_case :: string
  cm_revision :: int
  cm_run :: "string option"
  cm_role :: RoleId
  cm_status :: claim_status
  cm_confidence :: "rat option"
  cm_payload :: params
  cm_refs :: "string list"
  cm_created :: int
  cm_invalidated :: "int option"

datatype run_status = run_ok | run_timeout | run_error | run_skipped

record run_row =
  ar_id :: string
  ar_case :: string
  ar_revision :: int
  ar_role :: RoleId
  ar_status :: run_status
  ar_inputHash :: string
  ar_provider :: "string option"
  ar_model :: "string option"
  ar_latency :: "int option"
  ar_cost :: "int option"
  ar_started :: int

record token_row =
  ct_case :: string
  ct_obligation :: string
  ct_token :: CapabilityToken
  ct_minted :: int

record burn_row =
  tb_nonce :: string
  tb_case :: string
  tb_action :: string
  tb_at :: int

record budget_row =
  cb_customer :: string
  cb_channel :: string
  cb_window :: int
  cb_used :: int
  cb_cap :: int

record decision_row =
  dr_case :: string
  dr_action :: string
  dr_decision :: PolicyDecision
  dr_at :: int

datatype attempt_state = in_flight | succeeded | failed | reconciled

record attempt_row =
  at_case :: string
  at_obligation :: string
  at_action :: string
  at_attemptNo :: int
  at_idem :: string
  at_surface :: ActionSurface
  at_state :: attempt_state
  at_request :: params
  at_response :: "params option"
  at_sent :: int
  at_settled :: "int option"

datatype MatchStrategy = by_idem_key | by_virtual_account | by_reference | unmatched

record settlement_row =
  st_id :: string
  st_merchant :: string
  st_obligation :: "string option"
  st_amount :: int
  st_reference :: "string option"
  st_idem :: "string option"
  st_virtual_account :: "string option"
  st_source :: string
  st_matchedBy :: MatchStrategy
  st_received :: int

datatype incident_state = inc_open | inc_releasing | inc_closed

record incident_row =
  in_id :: string
  in_label :: string
  in_state :: incident_state
  in_detectedBy :: string
  in_rca :: "params option"
  in_stage :: int
  in_opened :: int
  in_closed :: "int option"

record member_row =
  im_incident :: string
  im_case :: string
  im_attached :: int
  im_released :: "int option"

datatype promise_state = promise_open | promise_kept | promise_broken

record promise_row =
  pm_id :: string
  pm_case :: string
  pm_obligation :: string
  pm_promised_at :: int
  pm_promised_for :: int
  pm_amount :: int
  pm_state :: promise_state
  pm_settled :: "int option"

record checkout_row =
  ck_id :: string
  ck_merchant :: string
  ck_customer :: string
  ck_ref :: string
  ck_amount :: int
  ck_stage :: string
  ck_last_active :: int
  ck_completed :: "int option"
  ck_case :: "string option"

record db =
  merchants :: "string list"
  customers :: "string list"
  obligations :: "obligation_row list"
  case_rows :: "case_row list"
  case_events :: "StoredCaseEvent list"
  case_revisions :: "CaseRevision list"
  scheduled_actions :: "sched_row list"
  next_sched_id :: nat
  obligation_locks :: "lock_row list"
  ledger :: "ledger_row list"
  evidence :: "evidence_row list"
  claims :: "claim_row list"
  agent_runs :: "run_row list"
  capability_tokens :: "token_row list"
  token_burns :: "burn_row list"
  contact_budgets :: "budget_row list"
  policy_decisions :: "decision_row list"
  action_attempts :: "attempt_row list"
  settlements :: "settlement_row list"
  incidents :: "incident_row list"
  incident_members :: "member_row list"
  promises_to_pay :: "promise_row list"
  checkout_sessions :: "checkout_row list"

type_synonym 'a dbm = "(db, err, 'a) sem"

definition empty_db :: db where
  "empty_db = \<lparr>merchants = [], customers = [], obligations = [], case_rows = [], case_events = [],
     case_revisions = [], scheduled_actions = [], next_sched_id = 1, obligation_locks = [],
     ledger = [], evidence = [], claims = [], agent_runs = [], capability_tokens = [],
     token_burns = [], contact_budgets = [], policy_decisions = [], action_attempts = [],
     settlements = [], incidents = [], incident_members = [], promises_to_pay = [],
     checkout_sessions = []\<rparr>"

section \<open>Statements\<close>

text \<open>\<open>UPDATE ... SET f WHERE P\<close> over a table, and foreign-key checks.\<close>

definition update_where :: "('r \<Rightarrow> bool) \<Rightarrow> ('r \<Rightarrow> 'r) \<Rightarrow> 'r list \<Rightarrow> 'r list" where
  "update_where P f rows = map (\<lambda>r. if P r then f r else r) rows"

definition has_case :: "string \<Rightarrow> db \<Rightarrow> bool" where
  "has_case c s \<longleftrightarrow> c \<in> cs_id ` set (case_rows s)"

definition has_obligation :: "string \<Rightarrow> db \<Rightarrow> bool" where
  "has_obligation ob s \<longleftrightarrow> ob \<in> ob_id ` set (obligations s)"

definition fk_case :: "string \<Rightarrow> unit dbm" where
  "fk_case c = guardM (has_case c) (ForeignKeyViolation ''cases'')"

definition fk_obligation :: "string \<Rightarrow> unit dbm" where
  "fk_obligation ob = guardM (has_obligation ob) (ForeignKeyViolation ''obligations'')"

text \<open>The first row that satisfies a condition: \<open>SELECT ... WHERE P LIMIT 1\<close>.\<close>

definition case_of :: "db \<Rightarrow> string \<Rightarrow> case_row option" where
  "case_of s c = find (\<lambda>r. cs_id r = c) (case_rows s)"

text \<open>An update of the tier and the labels of a case.\<close>

definition label_row :: "(nat \<times> case_labels \<Rightarrow> nat \<times> case_labels) \<Rightarrow> case_row \<Rightarrow> case_row" where
  "label_row g r = (case g (cs_tier r, cs_labels r) of (n, l) \<Rightarrow> r\<lparr>cs_tier := n, cs_labels := l\<rparr>)"

definition label_case :: "string \<Rightarrow> (nat \<times> case_labels \<Rightarrow> nat \<times> case_labels) \<Rightarrow> unit dbm" where
  "label_case c g = modifyM (\<lambda>s. s\<lparr>case_rows := update_where (\<lambda>r. cs_id r = c) (label_row g) (case_rows s)\<rparr>)"

definition is_open_case :: "db \<Rightarrow> string \<Rightarrow> bool" where
  "is_open_case s c \<longleftrightarrow> (\<exists>r \<in> set (case_rows s). cs_id r = c \<and> cs_closed_at r = None)"

lemma update_where_Nil [simp]: "update_where P f [] = []"
  by (simp add: update_where_def)

lemma update_where_Cons [simp]:
  "update_where P f (r # rs) = (if P r then f r else r) # update_where P f rs"
  by (simp add: update_where_def)

lemma update_where_append [simp]:
  "update_where P f (xs @ ys) = update_where P f xs @ update_where P f ys"
  by (simp add: update_where_def)

lemma length_update_where [simp]: "length (update_where P f rs) = length rs"
  by (simp add: update_where_def)

lemma map_update_where:
  "(\<And>r. g (f r) = g r) \<Longrightarrow> map g (update_where P f rs) = map g rs"
  by (simp add: update_where_def)

lemma set_update_where: "set (update_where P f rs) = (\<lambda>r. if P r then f r else r) ` set rs"
  by (simp add: update_where_def)

lemma in_update_where:
  "r \<in> set (update_where P f rs) \<Longrightarrow> \<exists>r0 \<in> set rs. r = (if P r0 then f r0 else r0)"
  by (auto simp: set_update_where)

lemma update_where_none: "(\<And>r. r \<in> set rs \<Longrightarrow> \<not> P r) \<Longrightarrow> update_where P f rs = rs"
  by (induction rs) auto

lemma fk_case_Inr: "fk_case c s = (Inr u, t) \<longleftrightarrow> has_case c s \<and> t = s"
  by (auto simp: fk_case_def monad_simps)

lemma fk_obligation_Inr: "fk_obligation c s = (Inr u, t) \<longleftrightarrow> has_obligation c s \<and> t = s"
  by (auto simp: fk_obligation_def monad_simps)

lemma fk_case_app [monad_simps]:
  "fk_case c s = (if has_case c s then Inr () else Inl (ForeignKeyViolation ''cases''), s)"
  by (simp add: fk_case_def monad_simps)

lemma fk_obligation_app [monad_simps]:
  "fk_obligation c s = (if has_obligation c s then Inr () else Inl (ForeignKeyViolation ''obligations''), s)"
  by (simp add: fk_obligation_def monad_simps)

lemma preserves_fk_case [preserves_intros]: "preserves I (fk_case c)"
  by (simp add: fk_case_def preserves_guardM)

lemma preserves_fk_obligation [preserves_intros]: "preserves I (fk_obligation c)"
  by (simp add: fk_obligation_def preserves_guardM)

section \<open>The ledger\<close>

definition ledger_append :: "int \<Rightarrow> string \<Rightarrow> string \<Rightarrow> string \<Rightarrow> params \<Rightarrow> unit dbm" where
  "ledger_append now caseId actor eventType payload =
     modifyM (\<lambda>s. s\<lparr>ledger := ledger s @
       [\<lparr>lg_case = caseId, lg_ts = now, lg_actor = actor, lg_type = eventType,
         lg_payload = payload, lg_policy = None\<rparr>]\<rparr>)"

definition ledger_read :: "string \<Rightarrow> ledger_row list dbm" where
  "ledger_read caseId = readM (\<lambda>s. filter (\<lambda>r. lg_case r = caseId) (ledger s))"

lemma ledger_append_app [monad_simps]:
  "ledger_append now c a ty p s = (Inr (), s\<lparr>ledger := ledger s @
     [\<lparr>lg_case = c, lg_ts = now, lg_actor = a, lg_type = ty, lg_payload = p, lg_policy = None\<rparr>]\<rparr>)"
  by (simp add: ledger_append_def monad_simps)

lemma preserves_ledger_append:
  "(\<And>s l. I s \<Longrightarrow> I (s\<lparr>ledger := l\<rparr>)) \<Longrightarrow> preserves I (ledger_append now c a ty p)"
  by (simp add: ledger_append_def preserves_modifyM)

section \<open>The data base beside an outside world\<close>

text \<open>
  Code that also talks to a provider runs on a pair of the data base and the provider's
  state. \<open>on_db\<close> and \<open>on_world\<close> run a statement on one half.
\<close>

type_synonym ('w, 'a) iom = "(db \<times> 'w, err, 'a) sem"

definition on_db :: "'a dbm \<Rightarrow> ('w, 'a) iom" where
  "on_db m = (\<lambda>(s, w). case m s of (r, s') \<Rightarrow> (r, (s', w)))"

definition on_world :: "('w, err, 'a) sem \<Rightarrow> ('w, 'a) iom" where
  "on_world m = (\<lambda>(s, w). case m w of (r, w') \<Rightarrow> (r, (s, w')))"

lemma on_db_app [monad_simps]: "on_db m (s, w) = (fst (m s), (snd (m s), w))"
  by (simp add: on_db_def split: prod.split)

lemma on_world_app [monad_simps]: "on_world m (s, w) = (fst (m w), (s, snd (m w)))"
  by (simp add: on_world_def split: prod.split)

lemma preserves_on_db:
  "(\<And>w. preserves (\<lambda>s. I (s, w)) m) \<Longrightarrow> preserves I (on_db m)"
  by (auto simp: preserves_def on_db_app)

end
