(* ===== verification/Blackboard.thy ===== *)
theory Blackboard
  imports Db
begin

text \<open>
  \<open>packages/engine/src/blackboard.ts\<close> and \<open>work-router.ts\<close>: append-only evidence,
  versioned claims with at most one live claim per role, and the routing of a revision to
  the roles whose declared evidence moved. The rounding of \<open>confidence\<close> to a
  4-byte column is not modelled.
\<close>

section \<open>The blackboard\<close>

record WriteClaim =
  wc_id :: string
  wc_caseId :: string
  wc_revision :: int
  wc_role :: RoleId
  wc_confidence :: "rat option"
  wc_payload :: params
  wc_evidenceRefs :: "string list option"
  wc_agentRunId :: "string option"

record WriteEvidence =
  we_id :: string
  we_caseId :: string
  we_kind :: EvidenceKind
  we_payload :: params
  we_source :: string

definition addEvidence :: "int \<Rightarrow> WriteEvidence \<Rightarrow> unit dbm" where
  "addEvidence now e =
     thenM (guardM (\<lambda>s. we_id e \<notin> er_id ` set (evidence s)) (UniqueViolation ''evidence''))
    (thenM (fk_case (we_caseId e))
           (modifyM (\<lambda>s. s\<lparr>evidence := evidence s @
              [\<lparr>er_id = we_id e, er_case = we_caseId e, er_kind = we_kind e, er_payload = we_payload e,
                er_source = we_source e, er_observed = now\<rparr>]\<rparr>)))"

definition evidence_le :: "env \<Rightarrow> evidence_row \<Rightarrow> evidence_row \<Rightarrow> bool" where
  "evidence_le E a b \<longleftrightarrow> er_observed a < er_observed b \<or> (er_observed a = er_observed b \<and> db_le E (er_id a) (er_id b))"

definition evidenceFor :: "env \<Rightarrow> string \<Rightarrow> EvidenceKind list option \<Rightarrow> evidence_row list dbm" where
  "evidenceFor E caseId kinds = readM (\<lambda>s. sort_by (evidence_le E)
     (filter (\<lambda>e. er_case e = caseId \<and>
        (case kinds of None \<Rightarrow> True | Some [] \<Rightarrow> True | Some ks \<Rightarrow> er_kind e \<in> set ks)) (evidence s)))"

definition live_claim :: "string \<Rightarrow> RoleId \<Rightarrow> claim_row \<Rightarrow> bool" where
  "live_claim c r x \<longleftrightarrow> cm_case x = c \<and> cm_role x = r \<and> cm_status x = valid"

definition invalidate_row :: "int \<Rightarrow> claim_row \<Rightarrow> claim_row" where
  "invalidate_row now x = x\<lparr>cm_status := invalidated, cm_invalidated := Some now\<rparr>"

definition new_claim :: "int \<Rightarrow> WriteClaim \<Rightarrow> claim_row" where
  "new_claim now c =
     \<lparr>cm_id = wc_id c, cm_case = wc_caseId c, cm_revision = wc_revision c, cm_run = wc_agentRunId c,
      cm_role = wc_role c, cm_status = valid, cm_confidence = wc_confidence c, cm_payload = wc_payload c,
      cm_refs = dflt (wc_evidenceRefs c) [], cm_created = now, cm_invalidated = None\<rparr>"

definition insert_claim :: "claim_row \<Rightarrow> unit dbm" where
  "insert_claim x =
     thenM (guardM (\<lambda>s. cm_id x \<notin> cm_id ` set (claims s)) (UniqueViolation ''claims''))
    (thenM (guardM (\<lambda>s. \<not> (\<exists>y \<in> set (claims s). live_claim (cm_case x) (cm_role x) y))
              (UniqueViolation ''claims_live_role_idx''))
    (thenM (fk_case (cm_case x))
    (thenM (guardM (\<lambda>s. case cm_run x of None \<Rightarrow> True | Some i \<Rightarrow> i \<in> ar_id ` set (agent_runs s))
              (ForeignKeyViolation ''agent_runs''))
           (modifyM (\<lambda>s. s\<lparr>claims := claims s @ [x]\<rparr>)))))"

definition writeClaim :: "int \<Rightarrow> WriteClaim \<Rightarrow> unit dbm" where
  "writeClaim now c = transactM (
     thenM (modifyM (\<lambda>s. s\<lparr>claims :=
              update_where (live_claim (wc_caseId c) (wc_role c)) (invalidate_row now) (claims s)\<rparr>))
           (insert_claim (new_claim now c)))"

definition claims_live :: "string \<Rightarrow> db \<Rightarrow> claim_row list" where
  "claims_live c s = filter (\<lambda>x. cm_case x = c \<and> cm_status x = valid) (claims s)"

definition liveClaims :: "env \<Rightarrow> string \<Rightarrow> claim_row list dbm" where
  "liveClaims E c = readM (\<lambda>s.
     sort_by (\<lambda>a b. db_le E (role_str (cm_role a)) (role_str (cm_role b))) (claims_live c s))"

definition live_among :: "string \<Rightarrow> RoleId list \<Rightarrow> claim_row \<Rightarrow> bool" where
  "live_among c roles x \<longleftrightarrow> cm_case x = c \<and> cm_role x \<in> set roles \<and> cm_status x = valid"

definition invalidateRoles :: "int \<Rightarrow> string \<Rightarrow> RoleId list \<Rightarrow> nat dbm" where
  "invalidateRoles now c roles =
     (if roles = [] then retM 0
      else bindM (readM (\<lambda>s. length (filter (live_among c roles) (claims s)))) (\<lambda>n.
           thenM (modifyM (\<lambda>s. s\<lparr>claims := update_where (live_among c roles) (invalidate_row now) (claims s)\<rparr>))
                 (retM n)))"

definition recordRun :: "run_row \<Rightarrow> unit dbm" where
  "recordRun run =
     thenM (guardM (\<lambda>s. ar_id run \<notin> ar_id ` set (agent_runs s)) (UniqueViolation ''agent_runs''))
    (thenM (fk_case (ar_case run))
           (modifyM (\<lambda>s. s\<lparr>agent_runs := agent_runs s @ [run]\<rparr>)))"

section \<open>At most one live claim per role\<close>

definition claim_inv :: "db \<Rightarrow> bool" where
  "claim_inv s \<longleftrightarrow> distinct (map cm_id (claims s))
     \<and> (\<forall>c r. length (filter (live_claim c r) (claims s)) \<le> 1)"

lemma invalidate_simps [simp]:
  "cm_id (invalidate_row now x) = cm_id x" "cm_case (invalidate_row now x) = cm_case x"
  "cm_role (invalidate_row now x) = cm_role x" "cm_status (invalidate_row now x) = invalidated"
  by (simp_all add: invalidate_row_def)

lemma not_live_invalidated [simp]: "\<not> live_claim c r (invalidate_row now x)"
  by (simp add: live_claim_def)

lemma filter_live_invalidated:
  "filter (live_claim c r) (update_where P (invalidate_row now) xs) = filter (\<lambda>x. live_claim c r x \<and> \<not> P x) xs"
  by (induction xs) auto

lemma claim_inv_invalidate:
  assumes "claim_inv s"
  shows "claim_inv (s\<lparr>claims := update_where P (invalidate_row now) (claims s)\<rparr>)"
proof -
  have "length (filter (\<lambda>x. live_claim c r x \<and> \<not> P x) (claims s)) \<le> 1" for c r
  proof -
    have "length (filter (\<lambda>x. live_claim c r x \<and> \<not> P x) (claims s)) \<le> length (filter (live_claim c r) (claims s))"
      using length_filter_le [of "\<lambda>x. \<not> P x" "filter (live_claim c r) (claims s)"] by (simp only: filter_filter)
    also have "\<dots> \<le> 1" using assms by (simp add: claim_inv_def)
    finally show ?thesis .
  qed
  then show ?thesis using assms
    by (simp add: claim_inv_def filter_live_invalidated map_update_where)
qed

lemma new_claim_simps [simp]:
  "cm_id (new_claim now c) = wc_id c" "cm_case (new_claim now c) = wc_caseId c"
  "cm_role (new_claim now c) = wc_role c" "cm_status (new_claim now c) = valid" "cm_run (new_claim now c) = wc_agentRunId c"
  by (simp_all add: new_claim_def)

lemma live_new_claim: "live_claim c r (new_claim now w) \<longleftrightarrow> c = wc_caseId w \<and> r = wc_role w"
  by (auto simp: live_claim_def)

lemma writeClaim_Inr:
  "writeClaim now c s = (Inr (), t) \<longleftrightarrow>
     wc_id c \<notin> cm_id ` set (claims s) \<and> has_case (wc_caseId c) s
     \<and> (case wc_agentRunId c of None \<Rightarrow> True | Some i \<Rightarrow> i \<in> ar_id ` set (agent_runs s))
     \<and> t = s\<lparr>claims := update_where (live_claim (wc_caseId c) (wc_role c)) (invalidate_row now) (claims s)
               @ [new_claim now c]\<rparr>"
proof -
  let ?u = "update_where (live_claim (wc_caseId c) (wc_role c)) (invalidate_row now) (claims s)"
  have ids: "cm_id ` set ?u = cm_id ` set (claims s)"
    using arg_cong [OF map_update_where [of cm_id "invalidate_row now" "live_claim (wc_caseId c) (wc_role c)" "claims s"], of set]
    by (simp only: set_map invalidate_simps)
  have "\<not> live_claim (wc_caseId c) (wc_role c) y" if "y \<in> set ?u" for y
    using that by (auto dest!: in_update_where split: if_splits)
  then show ?thesis
    unfolding writeClaim_def transactM_Inr
    by (auto simp: insert_claim_def monad_simps ids has_case_def split: if_splits option.splits)
qed

lemma writeClaim_inv [preserves_intros]: "preserves claim_inv (writeClaim now c)"
proof (rule preservesI)
  fix s assume inv: "claim_inv s"
  obtain r t where run: "writeClaim now c s = (r, t)" by (cases "writeClaim now c s")
  show "claim_inv (snd (writeClaim now c s))"
  proof (cases r)
    case (Inl e)
    with run have "t = s" unfolding writeClaim_def by (auto dest: transactM_Inl)
    with run inv show ?thesis by simp
  next
    case (Inr u)
    let ?P = "live_claim (wc_caseId c) (wc_role c)"
    from run Inr have t: "t = s\<lparr>claims := update_where ?P (invalidate_row now) (claims s) @ [new_claim now c]\<rparr>"
      and fresh: "wc_id c \<notin> cm_id ` set (claims s)"
      using writeClaim_Inr [of now c s t] by auto
    have pre: "claim_inv (s\<lparr>claims := update_where ?P (invalidate_row now) (claims s)\<rparr>)"
      using claim_inv_invalidate [OF inv] .
    have "filter ?P (update_where ?P (invalidate_row now) (claims s)) = []"
      by (simp add: filter_live_invalidated)
    with pre have "length (filter (live_claim c' r') (claims t)) \<le> 1" for c' r'
      by (cases "c' = wc_caseId c \<and> r' = wc_role c") (auto simp: t claim_inv_def live_new_claim)
    moreover have "distinct (map cm_id (claims t))"
      using inv fresh by (simp add: t claim_inv_def map_update_where)
    ultimately show ?thesis using run by (simp add: claim_inv_def)
  qed
qed

lemma invalidateRoles_inv [preserves_intros]: "preserves claim_inv (invalidateRoles now c roles)"
  unfolding invalidateRoles_def
  by (intro preserves_intros preserves_modifyM claim_inv_invalidate)

section \<open>The work router\<close>

record RoutingDecision =
  rd_rerun :: "RoleId list"
  rd_reused :: "RoleId list"
  rd_changedKinds :: "EvidenceKind list"

definition route_plan :: "EvidenceKind list \<Rightarrow> RoleId list \<Rightarrow> RoutingDecision" where
  "route_plan changedKinds rolesWithLiveClaims =
     (let affected = set (rolesDependingOn changedKinds); lv = set rolesWithLiveClaims in
      \<lparr>rd_rerun = filter (\<lambda>r. r \<in> affected \<or> r \<notin> lv) ROLE_IDS,
       rd_reused = filter (\<lambda>r. r \<in> lv \<and> r \<notin> affected) ROLE_IDS,
       rd_changedKinds = changedKinds\<rparr>)"

definition route :: "env \<Rightarrow> int \<Rightarrow> CaseRevision \<Rightarrow> RoutingDecision dbm" where
  "route E now revision =
     bindM (liveClaims E (rv_caseId revision)) (\<lambda>lv.
       let decision = route_plan (rv_changedKinds revision) (map cm_role lv);
           toInvalidate = filter (\<lambda>r. \<exists>c \<in> set lv. cm_role c = r) (rd_rerun decision)
       in thenM (bindM (invalidateRoles now (rv_caseId revision) toInvalidate) (\<lambda>_. retM ()))
                (retM decision))"

lemma route_plan_partition:
  "set (rd_rerun (route_plan ks lv)) \<union> set (rd_reused (route_plan ks lv)) = UNIV
   \<and> set (rd_rerun (route_plan ks lv)) \<inter> set (rd_reused (route_plan ks lv)) = {}
   \<and> distinct (rd_rerun (route_plan ks lv) @ rd_reused (route_plan ks lv))"
  by (auto simp: route_plan_def Let_def ROLE_IDS_all distinct_ROLE_IDS)

lemma route_plan_reused:
  "r \<in> set (rd_reused (route_plan ks lv)) \<longleftrightarrow>
     r \<in> set lv \<and> set (rc_dependsOn (ROLE_REGISTRY r)) \<inter> set ks = {}"
  by (auto simp: route_plan_def Let_def ROLE_IDS_all set_rolesDependingOn)

lemma invalidateRoles_app:
  "invalidateRoles now c roles s =
     (Inr (length (filter (live_among c roles) (claims s))),
      s\<lparr>claims := update_where (live_among c roles) (invalidate_row now) (claims s)\<rparr>)"
proof (cases "roles = []")
  case True
  then have "\<not> live_among c roles x" for x by (simp add: live_among_def)
  with True show ?thesis by (simp add: invalidateRoles_def monad_simps update_where_none)
qed (simp add: invalidateRoles_def monad_simps)

lemma route_eval:
  "route E now rvn s =
     (let ks = rv_changedKinds rvn; c = rv_caseId rvn; lv = map cm_role (claims_live c s) in
      (Inr (route_plan ks lv),
       s\<lparr>claims := update_where (live_among c (filter (\<lambda>r. r \<in> set lv) (rd_rerun (route_plan ks lv))))
                     (invalidate_row now) (claims s)\<rparr>))"
proof -
  let ?c = "rv_caseId rvn"
  let ?lv = "sort_by (\<lambda>a b. db_le E (role_str (cm_role a)) (role_str (cm_role b))) (claims_live ?c s)"
  have plan: "route_plan ks (map cm_role ?lv) = route_plan ks (map cm_role (claims_live ?c s))" for ks
    by (simp add: route_plan_def)
  have mem: "(\<lambda>r. \<exists>c \<in> set ?lv. cm_role c = r) = (\<lambda>r. r \<in> set (map cm_role (claims_live ?c s)))"
    by (auto simp: fun_eq_iff)
  show ?thesis
    unfolding route_def
    by (simp only: liveClaims_def bindM_app readM_app thenM_app retM_app Let_def plan mem invalidateRoles_app
        prod.case sum.case)
qed

text \<open>After routing, the live claims are exactly the reused roles' claims, untouched.\<close>

lemma route_live:
  "claims_live (rv_caseId rvn) (snd (route E now rvn s)) =
     filter (\<lambda>x. cm_role x \<in> set (rd_reused (route_plan (rv_changedKinds rvn) (map cm_role (claims_live (rv_caseId rvn) s)))))
       (claims_live (rv_caseId rvn) s)"
proof -
  let ?c = "rv_caseId rvn" and ?ks = "rv_changedKinds rvn"
  let ?lv = "map cm_role (claims_live ?c s)"
  have gen: "claims_live ?c (s\<lparr>claims := update_where P (invalidate_row now) (claims s)\<rparr>)
      = filter (\<lambda>x. (cm_case x = ?c \<and> cm_status x = valid) \<and> \<not> P x) (claims s)" for P
  proof -
    have "filter (\<lambda>x. cm_case x = ?c \<and> cm_status x = valid) (update_where P (invalidate_row now) xs)
        = filter (\<lambda>x. (cm_case x = ?c \<and> cm_status x = valid) \<and> \<not> P x) xs" for xs
      by (induction xs) auto
    then show ?thesis by (simp add: claims_live_def)
  qed
  have rhs: "filter Q (claims_live ?c s) = filter (\<lambda>x. (cm_case x = ?c \<and> cm_status x = valid) \<and> Q x) (claims s)" for Q
    by (simp add: claims_live_def filter_filter)
  have "\<not> live_among ?c (filter (\<lambda>r. r \<in> set ?lv) (rd_rerun (route_plan ?ks ?lv))) x
        \<longleftrightarrow> cm_role x \<in> set (rd_reused (route_plan ?ks ?lv))"
    if x: "x \<in> set (claims s)" "cm_case x = ?c" "cm_status x = valid" for x
  proof -
    have "cm_role x \<in> set ?lv" using x by (auto simp: claims_live_def)
    with x show ?thesis using route_plan_partition [of ?ks ?lv] by (auto simp: live_among_def)
  qed
  then show ?thesis
    unfolding route_eval Let_def snd_conv gen rhs by (intro filter_cong) auto
qed

end
