(* ===== verification/Taxonomy.thy ===== *)
theory Taxonomy
  imports Action_Library
begin

text \<open>
  \<open>packages/core/src/taxonomy.ts\<close>: the decline taxonomy, its classifier and the checks
  its loader makes; \<open>packages/core/src/playbooks.ts\<close>: the default plans per domain and
  cause. Both loaders start at the raw value of the third-party YAML parser.
\<close>

section \<open>Decline taxonomy\<close>

datatype Hardness = hard | soft

record DeclineEntry =
  de_rail :: Rail
  de_code :: string
  de_cause :: string
  de_hardness :: Hardness
  de_retryEligible :: bool
  de_retryCeiling :: int
  de_confidence :: rat
  de_ruleId :: string

record Classification =
  cl_cause :: string
  cl_confidence :: rat
  cl_ruleId :: string
  cl_hardness :: Hardness
  cl_retryEligible :: bool
  cl_retryCeiling :: int
  cl_retryPermitted :: bool

record DeclineTaxonomy =
  tx_version :: int
  tx_byRailCode :: "(string \<times> DeclineEntry) list"

definition newDeclineTaxonomy :: "int \<Rightarrow> DeclineEntry list \<Rightarrow> DeclineTaxonomy" where
  "newDeclineTaxonomy version entries =
     \<lparr>tx_version = version,
      tx_byRailCode = js_map_of (map (\<lambda>e. (pair_key (rail_str (de_rail e)) (de_code e), e)) entries)\<rparr>"

text \<open>The object \<open>classify\<close> returns for an entry.\<close>

definition classification_of :: "DeclineEntry \<Rightarrow> int \<Rightarrow> Classification" where
  "classification_of entry attemptNo =
     \<lparr>cl_cause = de_cause entry,
      cl_confidence = de_confidence entry,
      cl_ruleId = de_ruleId entry,
      cl_hardness = de_hardness entry,
      cl_retryEligible = de_retryEligible entry,
      cl_retryCeiling = de_retryCeiling entry,
      cl_retryPermitted = (de_retryEligible entry \<and> attemptNo < de_retryCeiling entry)\<rparr>"

definition classify :: "DeclineTaxonomy \<Rightarrow> Rail \<Rightarrow> string \<Rightarrow> int \<Rightarrow> Classification option" where
  "classify tx rail code attemptNo =
     (case map_of (tx_byRailCode tx) (pair_key (rail_str rail) code) of
        None \<Rightarrow> None
      | Some entry \<Rightarrow> Some (classification_of entry attemptNo))"

definition tx_entries :: "DeclineTaxonomy \<Rightarrow> DeclineEntry list" where
  "tx_entries tx = map snd (tx_byRailCode tx)"

definition codesFor :: "DeclineTaxonomy \<Rightarrow> Rail \<Rightarrow> string list" where
  "codesFor tx rail =
     sort_by code_le (map de_code (filter (\<lambda>e. de_rail e = rail) (tx_entries tx)))"

definition codesForCause :: "DeclineTaxonomy \<Rightarrow> Rail \<Rightarrow> string \<Rightarrow> string list" where
  "codesForCause tx rail cause =
     sort_by code_le
       (map de_code (filter (\<lambda>e. de_rail e = rail \<and> de_cause e = cause) (tx_entries tx)))"

text \<open>\<open>[...new Set(xs)]\<close> keeps the first of equal elements.\<close>

fun js_set_of :: "'a list \<Rightarrow> 'a list" where
  "js_set_of [] = []"
| "js_set_of (x # xs) = x # filter (\<lambda>y. y \<noteq> x) (js_set_of xs)"

definition causesFor :: "DeclineTaxonomy \<Rightarrow> Rail \<Rightarrow> string list" where
  "causesFor tx rail =
     sort_by code_le (js_set_of (map de_cause (filter (\<lambda>e. de_rail e = rail) (tx_entries tx))))"

text \<open>A raw code has the fields of an entry.\<close>

fun parse_codes :: "string list \<Rightarrow> DeclineEntry list \<Rightarrow> err + DeclineEntry list" where
  "parse_codes seen [] = Inr []"
| "parse_codes seen (c # cs) = (let key = pair_key (rail_str (de_rail c)) (de_code c) in
     if key \<in> set seen then Inl (Error (''duplicate taxonomy entry: '' @ key))
     else if de_hardness c = hard \<and> de_retryEligible c
     then Inl (Error (key @ '' is a hard decline but marked retry_eligible''))
     else bindE (parse_codes (seen @ [key]) cs) (\<lambda>es. Inr (c # es)))"

definition parseTaxonomy :: "int \<Rightarrow> DeclineEntry list \<Rightarrow> err + DeclineTaxonomy" where
  "parseTaxonomy version codes =
     bindE (parse_codes [] codes) (\<lambda>entries. Inr (newDeclineTaxonomy version entries))"

lemma set_js_set_of [simp]: "set (js_set_of xs) = set xs"
  by (induction xs) auto

lemma distinct_js_set_of [simp]: "distinct (js_set_of xs)"
  by (induction xs) auto

abbreviation entry_key :: "DeclineEntry \<Rightarrow> string" where
  "entry_key e \<equiv> pair_key (rail_str (de_rail e)) (de_code e)"

lemma parse_codes_sound:
  "parse_codes seen cs = Inr es \<Longrightarrow>
     es = cs \<and> distinct (map entry_key cs) \<and> set (map entry_key cs) \<inter> set seen = {}
     \<and> (\<forall>e \<in> set es. de_hardness e = hard \<longrightarrow> \<not> de_retryEligible e)"
proof (induction cs arbitrary: seen es)
  case (Cons c cs)
  from Cons.prems obtain es' where "parse_codes (seen @ [entry_key c]) cs = Inr es'"
    and "entry_key c \<notin> set seen" and "es = c # es'"
    and "de_hardness c = hard \<longrightarrow> \<not> de_retryEligible c"
    by (auto simp: bindE_eq_Inr Let_def split: if_splits)
  with Cons.IH show ?case by fastforce
qed simp

text \<open>Well-formed: entries sit under their own key, and a hard decline is never retryable.\<close>

definition taxonomy_wf :: "DeclineTaxonomy \<Rightarrow> bool" where
  "taxonomy_wf tx \<longleftrightarrow>
     (\<forall>(k, e) \<in> set (tx_byRailCode tx). k = entry_key e \<and>
        (de_hardness e = hard \<longrightarrow> \<not> de_retryEligible e))
     \<and> distinct (map fst (tx_byRailCode tx))"

lemma parseTaxonomy_wf:
  assumes "parseTaxonomy v codes = Inr tx"
  shows "taxonomy_wf tx \<and> tx_entries tx = codes"
proof -
  from assms obtain es where es: "parse_codes [] codes = Inr es"
    and tx: "tx = newDeclineTaxonomy v es"
    by (auto simp: parseTaxonomy_def bindE_eq_Inr)
  from parse_codes_sound [OF es] show ?thesis
    by (auto simp: tx taxonomy_wf_def newDeclineTaxonomy_def js_map_of_distinct comp_def tx_entries_def)
qed

lemma entry_key_iff:
  "entry_key e = pair_key (rail_str r) c \<longleftrightarrow> de_rail e = r \<and> de_code e = c"
  by (auto dest!: pair_key_inject [OF _ rail_str_no_colon rail_str_no_colon] rail_str_inject)

text \<open>The classifier finds exactly the entry of the rail and code, if there is one.\<close>

lemma classify_entry:
  assumes "taxonomy_wf tx"
  shows "classify tx r c n = Some k \<longleftrightarrow>
    (\<exists>e \<in> set (tx_entries tx). de_rail e = r \<and> de_code e = c \<and> k = classification_of e n)"
proof -
  have key: "k = entry_key e" if "(k, e) \<in> set (tx_byRailCode tx)" for k e
    using that assms by (auto simp: taxonomy_wf_def)
  have dist: "distinct (map fst (tx_byRailCode tx))" using assms by (simp add: taxonomy_wf_def)
  have "map_of (tx_byRailCode tx) (pair_key (rail_str r) c) = Some e \<longleftrightarrow>
      e \<in> set (tx_entries tx) \<and> de_rail e = r \<and> de_code e = c" for e
  proof
    assume "map_of (tx_byRailCode tx) (pair_key (rail_str r) c) = Some e"
    then have m: "(pair_key (rail_str r) c, e) \<in> set (tx_byRailCode tx)" by (rule map_of_SomeD)
    then have "entry_key e = pair_key (rail_str r) c" using key by simp
    with m show "e \<in> set (tx_entries tx) \<and> de_rail e = r \<and> de_code e = c"
      by (force simp: tx_entries_def entry_key_iff)
  next
    assume e: "e \<in> set (tx_entries tx) \<and> de_rail e = r \<and> de_code e = c"
    then obtain k where k: "(k, e) \<in> set (tx_byRailCode tx)" by (auto simp: tx_entries_def)
    with key [OF k] e have "k = pair_key (rail_str r) c" by simp
    with k dist show "map_of (tx_byRailCode tx) (pair_key (rail_str r) c) = Some e" by simp
  qed
  then show ?thesis unfolding classify_def by (auto split: option.split) (metis option.inject)+
qed

section \<open>Playbooks\<close>

record PlanStep =
  ps_actionId :: string
  ps_params :: params

record Playbook =
  pb_domain :: string
  pb_cause :: string
  pb_ruleId :: string
  pb_steps :: "PlanStep list"
  pb_stopConditions :: "string list"

text \<open>A plan carries the fields of its playbook; \<open>chosenBy\<close> is the constant \<open>tier0_playbook\<close>.\<close>

record Plan =
  pl_ruleId :: string
  pl_domain :: string
  pl_cause :: string
  pl_steps :: "PlanStep list"
  pl_stopConditions :: "string list"
  pl_chosenBy :: string

record PlaybookTable =
  pt_version :: int
  pt_byKey :: "(string \<times> Playbook) list"

definition newPlaybookTable :: "int \<Rightarrow> Playbook list \<Rightarrow> PlaybookTable" where
  "newPlaybookTable version playbooks =
     \<lparr>pt_version = version,
      pt_byKey = js_map_of (map (\<lambda>p. (pair_key (pb_domain p) (pb_cause p), p)) playbooks)\<rparr>"

definition pt_lookup :: "PlaybookTable \<Rightarrow> Domain \<Rightarrow> string \<Rightarrow> Playbook option" where
  "pt_lookup t domain cause =
     (case map_of (pt_byKey t) (pair_key (domain_str domain) cause) of
        Some pb \<Rightarrow> Some pb
      | None \<Rightarrow> map_of (pt_byKey t) (pair_key ''*'' cause))"

definition planFor :: "PlaybookTable \<Rightarrow> Domain \<Rightarrow> string \<Rightarrow> Plan option" where
  "planFor t domain cause =
     (case pt_lookup t domain cause of
        None \<Rightarrow> None
      | Some pb \<Rightarrow> Some
          \<lparr>pl_ruleId = pb_ruleId pb, pl_domain = pb_domain pb, pl_cause = pb_cause pb,
           pl_steps = pb_steps pb, pl_stopConditions = pb_stopConditions pb,
           pl_chosenBy = ''tier0_playbook''\<rparr>)"

definition pt_has :: "PlaybookTable \<Rightarrow> Domain \<Rightarrow> string \<Rightarrow> bool" where
  "pt_has t domain cause \<longleftrightarrow>
     map_of (pt_byKey t) (pair_key (domain_str domain) cause) \<noteq> None
     \<or> map_of (pt_byKey t) (pair_key ''*'' cause) \<noteq> None"

definition pt_all :: "PlaybookTable \<Rightarrow> Playbook list" where
  "pt_all t = map snd (pt_byKey t)"

record RawStep =
  rs_action :: string
  rs_params :: "params option"

record RawPlaybook =
  rp_domain :: string
  rp_cause :: string
  rp_rule_id :: string
  rp_steps :: "RawStep list"
  rp_stop_conditions :: "string list option"

definition parse_step :: "ActionLibrary \<Rightarrow> RawStep \<Rightarrow> err + PlanStep" where
  "parse_step library s =
     bindE (lib_get library (rs_action s))
       (\<lambda>_. Inr \<lparr>ps_actionId = rs_action s, ps_params = dflt (rs_params s) []\<rparr>)"

fun parse_playbooks :: "ActionLibrary \<Rightarrow> string list \<Rightarrow> RawPlaybook list \<Rightarrow> err + Playbook list" where
  "parse_playbooks library seen [] = Inr []"
| "parse_playbooks library seen (p # ps) = (let key = pair_key (rp_domain p) (rp_cause p) in
     if key \<in> set seen then Inl (Error (''duplicate playbook: '' @ key))
     else if rp_steps p = [] then Inl (Error (''playbook '' @ key @ '' has no steps''))
     else bindE (mapE (parse_step library) (rp_steps p))
            (\<lambda>steps. bindE (parse_playbooks library (seen @ [key]) ps)
              (\<lambda>pbs. Inr (\<lparr>pb_domain = rp_domain p, pb_cause = rp_cause p,
                  pb_ruleId = rp_rule_id p, pb_steps = steps,
                  pb_stopConditions = dflt (rp_stop_conditions p) []\<rparr> # pbs))))"

definition parsePlaybooks :: "int \<Rightarrow> RawPlaybook list \<Rightarrow> ActionLibrary \<Rightarrow> err + PlaybookTable" where
  "parsePlaybooks version raw library =
     bindE (parse_playbooks library [] raw) (\<lambda>pbs. Inr (newPlaybookTable version pbs))"

text \<open>A playbook can be run: it has a step, and each of its actions resolves in the library.\<close>

definition playbook_ok :: "ActionLibrary \<Rightarrow> Playbook \<Rightarrow> bool" where
  "playbook_ok library pb \<longleftrightarrow>
     pb_steps pb \<noteq> [] \<and> (\<forall>s \<in> set (pb_steps pb). \<exists>a. lib_get library (ps_actionId s) = Inr a)"

lemma parse_step_ok: "parse_step library s = Inr st \<Longrightarrow> \<exists>a. lib_get library (ps_actionId st) = Inr a"
  by (auto simp: parse_step_def bindE_eq_Inr)

lemma mapE_nonempty: "mapE f xs = Inr ys \<Longrightarrow> xs \<noteq> [] \<Longrightarrow> ys \<noteq> []"
  by (cases xs) (auto simp: bindE_eq_Inr)

lemma parse_playbooks_ok:
  "parse_playbooks library seen ps = Inr pbs \<Longrightarrow> \<forall>pb \<in> set pbs. playbook_ok library pb"
proof (induction ps arbitrary: seen pbs)
  case (Cons p ps)
  then show ?case
    by (fastforce simp: bindE_eq_Inr Let_def playbook_ok_def split: if_splits
        dest: mapE_nonempty mapE_Inr_set parse_step_ok)
qed simp

lemma parsePlaybooks_ok:
  assumes "parsePlaybooks v raw library = Inr t" and "pt_lookup t d c = Some pb"
  shows "playbook_ok library pb"
proof -
  from assms(1) obtain pbs where pbs: "parse_playbooks library [] raw = Inr pbs"
    and t: "t = newPlaybookTable v pbs"
    by (auto simp: parsePlaybooks_def bindE_eq_Inr)
  from assms(2) have "pb \<in> set pbs"
    by (auto simp: t pt_lookup_def newPlaybookTable_def split: option.splits
        dest!: map_of_js_map_of_Some)
  with parse_playbooks_ok [OF pbs] show ?thesis by blast
qed

lemma planFor_has: "planFor t d c \<noteq> None \<longleftrightarrow> pt_has t d c"
  by (auto simp: planFor_def pt_has_def pt_lookup_def split: option.splits)

end
