(* ===== verification/Tier0.thy ===== *)
theory Tier0
  imports Taxonomy
begin

text \<open>
  \<open>packages/engine/src/tier0.ts\<close>: the deterministic resolver. Every case is either
  resolved with a plan or missed for a named reason.
\<close>

datatype Tier0Miss = unmapped_code | no_playbook | retry_ceiling_reached | below_confidence

datatype Tier0Outcome = Resolved Classification Plan | Missed Tier0Miss "Classification option"

record Tier0Input =
  ti_domain :: Domain
  ti_rail :: Rail
  ti_code :: string
  ti_attemptNo :: int

definition resolve :: "DeclineTaxonomy \<Rightarrow> PlaybookTable \<Rightarrow> rat \<Rightarrow> Tier0Input \<Rightarrow> Tier0Outcome" where
  "resolve taxonomy playbooks minConfidence input =
     (case classify taxonomy (ti_rail input) (ti_code input) (ti_attemptNo input) of
        None \<Rightarrow> Missed unmapped_code None
      | Some k \<Rightarrow>
          if cl_confidence k < minConfidence then Missed below_confidence (Some k)
          else if cl_retryEligible k \<and> \<not> cl_retryPermitted k then Missed retry_ceiling_reached (Some k)
          else (case planFor playbooks (ti_domain input) (cl_cause k) of
                  None \<Rightarrow> Missed no_playbook (Some k)
                | Some plan \<Rightarrow> Resolved k plan))"

lemma resolve_Resolved:
  "resolve tx pt mc i = Resolved k p \<longleftrightarrow>
     classify tx (ti_rail i) (ti_code i) (ti_attemptNo i) = Some k \<and> mc \<le> cl_confidence k
     \<and> (cl_retryEligible k \<longrightarrow> cl_retryPermitted k) \<and> planFor pt (ti_domain i) (cl_cause k) = Some p"
  by (auto simp: resolve_def split: option.splits if_splits)

lemma resolve_Missed:
  "resolve tx pt mc i = Missed m z \<longleftrightarrow>
     (case classify tx (ti_rail i) (ti_code i) (ti_attemptNo i) of
        None \<Rightarrow> m = unmapped_code \<and> z = None
      | Some k \<Rightarrow> z = Some k \<and>
          (if cl_confidence k < mc then m = below_confidence
           else if cl_retryEligible k \<and> \<not> cl_retryPermitted k then m = retry_ceiling_reached
           else m = no_playbook \<and> planFor pt (ti_domain i) (cl_cause k) = None))"
  by (auto simp: resolve_def split: option.splits if_splits)

end
