(* ===== verification/Mandate_Sequencer.thy ===== *)
theory Mandate_Sequencer
  imports Taxonomy
begin

text \<open>
  \<open>packages/engine/src/mandate-sequencer.ts\<close>: the order of the steps around a mandate
  debit. The step that presents the debit is \<open>await_provider_retry\<close>.
\<close>

datatype MandateState = mandate_active | mandate_paused | mandate_revoked | mandate_unknown

record MandateFacts =
  mf_rail :: Rail
  mf_state :: MandateState
  mf_capPaise :: "int option"
  mf_amountPaise :: int
  mf_preDebitNotifiedAt :: "int option"
  mf_attemptNo :: nat
  mf_nextPresentationAt :: "int option"

record SequencedStep =
  sq_actionId :: string
  sq_params :: params
  sq_delayMs :: int
  sq_because :: string

record MandateSequence =
  ms_permitted :: bool
  ms_blockedBy :: "string option"
  ms_steps :: "SequencedStep list"

definition HOUR :: int where "HOUR = 3600000"
definition DAY :: int where "DAY = 24 * HOUR"
definition PRE_DEBIT_NOTICE_MS :: int where "PRE_DEBIT_NOTICE_MS = 24 * HOUR"

definition MANDATE_RAILS :: "Rail list" where
  "MANDATE_RAILS = [upi_autopay, enach]"

text \<open>\<open>Math.ceil(a / HOUR)\<close> and \<open>Math.floor(a / HOUR)\<close>; the quotients are exact enough below \<open>2 ^ 53\<close>.\<close>

definition ceil_hours :: "int \<Rightarrow> int" where
  "ceil_hours a = - ((- a) div HOUR)"

definition floor_hours :: "int \<Rightarrow> int" where
  "floor_hours a = a div HOUR"

definition update_method_step :: "string \<Rightarrow> string \<Rightarrow> SequencedStep" where
  "update_method_step reason because =
     \<lparr>sq_actionId = ''request_payment_method_update'',
      sq_params = [(''reason_code'', JStr reason), (''channel'', JStr ''whatsapp'')],
      sq_delayMs = 0, sq_because = because\<rparr>"

definition retry_step :: "int \<Rightarrow> int \<Rightarrow> string \<Rightarrow> SequencedStep" where
  "retry_step expectedHours delay because =
     \<lparr>sq_actionId = ''await_provider_retry'', sq_params = [(''expected_at_hours'', JInt expectedHours)],
      sq_delayMs = delay, sq_because = because\<rparr>"

definition notice_step :: SequencedStep where
  "notice_step =
     \<lparr>sq_actionId = ''await_mandate_prerequisite'',
      sq_params = [(''prerequisite'', JStr ''pre_debit_notified'')], sq_delayMs = 0,
      sq_because = ''RBI e-mandate requires notice before the debit; the provider sends it''\<rparr>"

definition refuse :: "string \<Rightarrow> SequencedStep list \<Rightarrow> MandateSequence" where
  "refuse why steps = \<lparr>ms_permitted = False, ms_blockedBy = Some why, ms_steps = steps\<rparr>"

definition ladder :: "int list" where
  "ladder = [6 * HOUR, 2 * DAY, 5 * DAY]"

definition backoffMs :: "nat \<Rightarrow> int" where
  "backoffMs attemptNo = ladder ! min attemptNo (length ladder - 1)"

definition debit_steps :: "int \<Rightarrow> MandateFacts \<Rightarrow> SequencedStep list" where
  "debit_steps now facts =
     (case mf_preDebitNotifiedAt facts of
        None \<Rightarrow>
          [notice_step,
           retry_step (PRE_DEBIT_NOTICE_MS div HOUR) PRE_DEBIT_NOTICE_MS
             ''debit may not be presented until the notice period has run'']
      | Some notifiedAt \<Rightarrow>
          (let noticeElapsed = now - notifiedAt in
           if noticeElapsed < PRE_DEBIT_NOTICE_MS
           then (let remaining = PRE_DEBIT_NOTICE_MS - noticeElapsed in
             [retry_step (ceil_hours remaining) remaining
                (''notice sent but only '' @ int_str (floor_hours noticeElapsed) @ ''h ago; ''
                  @ int_str (ceil_hours remaining) @ ''h still to run'')])
           else (let wait = (case mf_nextPresentationAt facts of
                               Some next \<Rightarrow> max 0 (next - now) | None \<Rightarrow> backoffMs (mf_attemptNo facts)) in
             [retry_step (ceil_hours wait) wait
                (case mf_nextPresentationAt facts of
                   Some _ \<Rightarrow> ''e-NACH presents on bank working days, so the cycle sets the date''
                 | None \<Rightarrow> ''attempt '' @ int_str (int (mf_attemptNo facts) + 1) @ '': reason-aware backoff'')])))"

text \<open>The reason texts hold an em dash in the source; here it is \<open>-\<close>, for ASCII.\<close>

definition sequence :: "int \<Rightarrow> MandateFacts \<Rightarrow> MandateSequence" where
  "sequence now facts =
     (if mf_rail facts \<notin> set MANDATE_RAILS
      then refuse (rail_str (mf_rail facts) @ '' carries no mandate'') []
      else if mf_state facts = mandate_revoked
      then refuse ''mandate revoked - no debit can succeed and retrying is customer harm''
             [update_method_step ''MANDATE_REVOKED'' ''the only path is a new mandate, so ask for one'']
      else if mf_state facts = mandate_paused
      then refuse ''mandate paused - the payer must resume it before any debit''
             [update_method_step ''MANDATE_PAUSED'' ''only the payer can lift a pause'']
      else (case mf_capPaise facts of
         Some cap \<Rightarrow>
           if mf_amountPaise facts > cap
           then refuse (''attempt '' @ int_str (mf_amountPaise facts) @ '' exceeds mandate cap '' @ int_str cap)
                  [update_method_step ''MANDATE_AMOUNT_EXCEEDED'' ''the cap is the binding constraint, not the balance'']
           else \<lparr>ms_permitted = True, ms_blockedBy = None, ms_steps = debit_steps now facts\<rparr>
       | None \<Rightarrow> \<lparr>ms_permitted = True, ms_blockedBy = None, ms_steps = debit_steps now facts\<rparr>))"

definition retryPermitted :: "DeclineTaxonomy \<Rightarrow> Rail \<Rightarrow> string \<Rightarrow> int \<Rightarrow> bool" where
  "retryPermitted taxonomy rail code attemptNo =
     (case classify taxonomy rail code attemptNo of None \<Rightarrow> False | Some k \<Rightarrow> cl_retryPermitted k)"

section \<open>The order of the steps\<close>

definition presents_debit :: "SequencedStep \<Rightarrow> bool" where
  "presents_debit st \<longleftrightarrow> sq_actionId st = ''await_provider_retry''"

definition can_debit :: "MandateFacts \<Rightarrow> bool" where
  "can_debit facts \<longleftrightarrow> mf_rail facts \<in> set MANDATE_RAILS
     \<and> mf_state facts \<notin> {mandate_revoked, mandate_paused}
     \<and> (\<forall>cap. mf_capPaise facts = Some cap \<longrightarrow> mf_amountPaise facts \<le> cap)"

lemma step_ids [simp]:
  "sq_actionId (update_method_step a b) = ''request_payment_method_update''"
  "sq_actionId (retry_step h d b) = ''await_provider_retry''"
  "sq_actionId notice_step = ''await_mandate_prerequisite''"
  "sq_delayMs (retry_step h d b) = d" "sq_delayMs notice_step = 0" "sq_delayMs (update_method_step a b) = 0"
  by (simp_all add: update_method_step_def retry_step_def notice_step_def)

lemma sequence_permitted: "ms_permitted (sequence now facts) \<longleftrightarrow> can_debit facts"
  by (auto simp: sequence_def can_debit_def refuse_def split: option.splits)

lemma sequence_steps:
  "ms_steps (sequence now facts) =
     (if can_debit facts then debit_steps now facts else ms_steps (sequence now facts))"
  by (auto simp: sequence_def can_debit_def refuse_def split: option.splits)

lemma sequence_refused_no_debit:
  "\<not> can_debit facts \<Longrightarrow> st \<in> set (ms_steps (sequence now facts)) \<Longrightarrow> \<not> presents_debit st"
  by (auto simp: sequence_def can_debit_def refuse_def presents_debit_def split: option.splits if_splits)

lemma backoff_nonneg: "0 < backoffMs n"
  by (auto simp: backoffMs_def ladder_def HOUR_def DAY_def min_def nth_Cons split: nat.split)

lemma backoff_mono: "n \<le> m \<Longrightarrow> backoffMs n \<le> backoffMs m"
  by (auto simp: backoffMs_def ladder_def HOUR_def DAY_def min_def nth_Cons split: nat.splits)

lemma debit_steps_delay:
  "st \<in> set (debit_steps now facts) \<Longrightarrow> 0 \<le> sq_delayMs st"
  using backoff_nonneg [of "mf_attemptNo facts"]
  by (auto simp: debit_steps_def Let_def PRE_DEBIT_NOTICE_MS_def HOUR_def split: option.splits if_splits)

lemma debit_steps_notice:
  assumes "st \<in> set (debit_steps now facts)" and "presents_debit st"
  shows "(case mf_preDebitNotifiedAt facts of
     None \<Rightarrow> notice_step \<in> set (debit_steps now facts) \<and> PRE_DEBIT_NOTICE_MS \<le> sq_delayMs st
   | Some n \<Rightarrow> n + PRE_DEBIT_NOTICE_MS \<le> now + sq_delayMs st)"
  using assms backoff_nonneg [of "mf_attemptNo facts"]
  by (auto simp: debit_steps_def Let_def presents_debit_def split: option.splits if_splits)

end
