(* ===== verification/Case_Store.thy ===== *)
theory Case_Store
  imports Db
begin

text \<open>
  \<open>packages/db/src/case-events.ts\<close>: appending an event and persisting the revision it
  leads to in one transaction, and replay from the log.
\<close>

definition readAll :: "string \<Rightarrow> db \<Rightarrow> StoredCaseEvent list" where
  "readAll caseId s = sort_key ev_seq (filter (\<lambda>e. ev_caseId e = caseId) (case_events s))"

definition insert_case_event :: "StoredCaseEvent \<Rightarrow> unit dbm" where
  "insert_case_event e =
     thenM (guardM (\<lambda>s. \<forall>r \<in> set (case_events s). \<not> (ev_caseId r = ev_caseId e \<and> ev_seq r = ev_seq e))
              (UniqueViolation ''case_events''))
           (modifyM (\<lambda>s. s\<lparr>case_events := case_events s @ [e]\<rparr>))"

definition insert_revision :: "CaseRevision \<Rightarrow> unit dbm" where
  "insert_revision rvn =
     thenM (guardM (\<lambda>s. \<forall>r \<in> set (case_revisions s).
                \<not> (rv_caseId r = rv_caseId rvn \<and> rv_revision r = rv_revision rvn))
              (UniqueViolation ''case_revisions''))
           (modifyM (\<lambda>s. s\<lparr>case_revisions := case_revisions s @ [rvn]\<rparr>))"

text \<open>The row the final \<open>UPDATE cases\<close> writes.\<close>

definition write_revision :: "CaseRevision \<Rightarrow> int \<Rightarrow> case_row \<Rightarrow> case_row" where
  "write_revision rvn occurredAt r =
     r\<lparr>cs_state := rv_state rvn, cs_tier := rv_tier rvn, cs_incident := rv_incidentId rvn,
       cs_terminal_reason := rv_terminalReason rvn,
       cs_closed_at := (if rv_terminalReason rvn = None then cs_closed_at r else Some occurredAt)\<rparr>"

text \<open>\<open>UPDATE scheduled_actions SET state = 'cancelled' ... AND state IN ('pending','leased')\<close>.\<close>

definition outstanding :: "string \<Rightarrow> sched_row \<Rightarrow> bool" where
  "outstanding caseId a \<longleftrightarrow> sa_case a = caseId \<and> sa_state a \<in> {pending, leased}"

definition cancel_row :: "int \<Rightarrow> sched_row \<Rightarrow> sched_row" where
  "cancel_row now a =
     a\<lparr>sa_state := cancelled, sa_settled := Some now, sa_owner := None, sa_expiry := None\<rparr>"

definition cancel_outstanding :: "string \<Rightarrow> int \<Rightarrow> unit dbm" where
  "cancel_outstanding caseId now = modifyM (\<lambda>s. s\<lparr>scheduled_actions :=
     update_where (outstanding caseId) (cancel_row now) (scheduled_actions s)\<rparr>)"

definition new_event :: "int \<Rightarrow> string \<Rightarrow> int \<Rightarrow> CaseEvent \<Rightarrow> string \<Rightarrow> StoredCaseEvent" where
  "new_event now caseId seq event source =
     \<lparr>ev_caseId = caseId, ev_seq = seq, ev_event = event, ev_source = source, ev_occurredAt = now\<rparr>"

lemma new_event_simps [simp]:
  "ev_caseId (new_event now c n ev src) = c" "ev_seq (new_event now c n ev src) = n"
  "ev_event (new_event now c n ev src) = ev" "ev_occurredAt (new_event now c n ev src) = now"
  by (simp_all add: new_event_def)

definition event_append ::
  "int \<Rightarrow> string \<Rightarrow> CaseEvent \<Rightarrow> string \<Rightarrow> (StoredCaseEvent \<times> CaseRevision) dbm" where
  "event_append now caseId event source = transactM (
     bindM (readM (\<lambda>s. case_of s caseId)) (\<lambda>row.
       case row of None \<Rightarrow> throwM (Error (''case '' @ caseId @ '' does not exist''))
       | Some r \<Rightarrow>
          (let stored = new_event now caseId (cs_next_seq r) event source in
           thenM (insert_case_event stored)
          (thenM (modifyM (\<lambda>s. s\<lparr>case_rows :=
                    update_where (\<lambda>r. cs_id r = caseId) (\<lambda>r. r\<lparr>cs_next_seq := cs_next_seq r + 1\<rparr>) (case_rows s)\<rparr>))
          (bindM (readM (readAll caseId)) (\<lambda>log.
           bindM (liftE (reduceAll caseId log)) (\<lambda>revision.
           thenM (insert_revision revision)
          (thenM (modifyM (\<lambda>s. s\<lparr>case_rows :=
                    update_where (\<lambda>r. cs_id r = caseId) (write_revision revision now) (case_rows s)\<rparr>))
          (thenM (whenM (isTerminal (rv_state revision)) (cancel_outstanding caseId now))
                 (retM (stored, revision)))))))))))"

definition replay :: "string \<Rightarrow> CaseRevision dbm" where
  "replay caseId = bindM (readM (readAll caseId)) (\<lambda>log. liftE (reduceAll caseId log))"

section \<open>The store invariant\<close>

text \<open>
  A log is stored in order: the events of a case are numbered from 0 without gaps and
  appear in that order, and \<open>next_seq\<close> is the next number. The case row agrees with
  the fold of the log, and so does the last stored revision; \<open>closed_at\<close> is set exactly
  when a terminal reason is.
\<close>

definition log_of :: "string \<Rightarrow> db \<Rightarrow> StoredCaseEvent list" where
  "log_of c s = filter (\<lambda>e. ev_caseId e = c) (case_events s)"

definition revisions_of :: "string \<Rightarrow> db \<Rightarrow> CaseRevision list" where
  "revisions_of c s = filter (\<lambda>r. rv_caseId r = c) (case_revisions s)"

definition row_agrees :: "case_row \<Rightarrow> CaseRevision \<Rightarrow> bool" where
  "row_agrees r rvn \<longleftrightarrow> cs_state r = rv_state rvn \<and> cs_incident r = rv_incidentId rvn
     \<and> cs_terminal_reason r = rv_terminalReason rvn"

definition case_ok :: "db \<Rightarrow> case_row \<Rightarrow> bool" where
  "case_ok s r \<longleftrightarrow>
     cs_next_seq r = int (length (log_of (cs_id r) s)) \<and>
     map ev_seq (log_of (cs_id r) s) = map int [0..<length (log_of (cs_id r) s)] \<and>
     (\<exists>rvn. reduceAll (cs_id r) (log_of (cs_id r) s) = Inr rvn \<and> row_agrees r rvn \<and>
        (log_of (cs_id r) s \<noteq> [] \<longrightarrow> revisions_of (cs_id r) s \<noteq> [] \<and> last (revisions_of (cs_id r) s) = rvn)) \<and>
     (\<forall>rv \<in> set (revisions_of (cs_id r) s). rv_revision rv \<le> int (length (log_of (cs_id r) s))) \<and>
     (cs_closed_at r = None \<longleftrightarrow> cs_terminal_reason r = None)"

definition store_inv :: "db \<Rightarrow> bool" where
  "store_inv s \<longleftrightarrow> distinct (map cs_id (case_rows s)) \<and> (\<forall>r \<in> set (case_rows s). case_ok s r)
     \<and> (\<forall>e \<in> set (case_events s). has_case (ev_caseId e) s)
     \<and> (\<forall>rv \<in> set (case_revisions s). has_case (rv_caseId rv) s)"

lemma sorted_int_upt: "sorted (map int [0..<n])"
  by (simp add: sorted_iff_nth_mono)

lemma case_ok_readAll: "case_ok s r \<Longrightarrow> readAll (cs_id r) s = log_of (cs_id r) s"
  unfolding readAll_def log_of_def case_ok_def
  by (simp add: sort_key_id_if_sorted sorted_int_upt)

lemma case_of_Some: "case_of s c = Some r \<Longrightarrow> r \<in> set (case_rows s) \<and> cs_id r = c"
  by (auto simp: case_of_def dest: find_SomeD)

lemma case_of_distinct:
  "distinct (map cs_id (case_rows s)) \<Longrightarrow> r \<in> set (case_rows s) \<Longrightarrow> case_of s (cs_id r) = Some r"
proof -
  assume d: "distinct (map cs_id (case_rows s))" and r: "r \<in> set (case_rows s)"
  have "\<exists>r'. case_of s (cs_id r) = Some r'"
    using r find_NoneD unfolding case_of_def by (cases "find (\<lambda>ra. cs_id ra = cs_id r) (case_rows s)") force+
  then obtain r' where r': "case_of s (cs_id r) = Some r'" ..
  then have "r' \<in> set (case_rows s)" and "cs_id r' = cs_id r" using case_of_Some by auto
  with d r have "r' = r" by (auto simp: distinct_map dest: inj_onD)
  with r' show ?thesis by simp
qed

text \<open>
  What a successful append does, as one state transformation: the reads and the
  constraint checks are discharged by the invariant.
\<close>

definition appended :: "int \<Rightarrow> string \<Rightarrow> StoredCaseEvent \<Rightarrow> CaseRevision \<Rightarrow> db \<Rightarrow> db" where
  "appended now c stored rvn s =
     s\<lparr>case_events := case_events s @ [stored],
       case_revisions := case_revisions s @ [rvn],
       case_rows := update_where (\<lambda>r. cs_id r = c)
                   (\<lambda>r. write_revision rvn now (r\<lparr>cs_next_seq := cs_next_seq r + 1\<rparr>)) (case_rows s),
       scheduled_actions :=
         (if isTerminal (rv_state rvn)
          then update_where (outstanding c) (cancel_row now) (scheduled_actions s)
          else scheduled_actions s)\<rparr>"

lemma update_where_compose:
  "(\<And>r. P (f r) = P r) \<Longrightarrow>
     update_where P g (update_where P f rs) = update_where P (\<lambda>r. g (f r)) rs"
  by (induction rs) auto

lemma write_revision_id [simp]: "cs_id (write_revision rvn now r) = cs_id r"
  by (simp add: write_revision_def)

lemma log_of_update [simp]:
  "log_of c (s\<lparr>case_rows := x\<rparr>) = log_of c s"
  "log_of c (s\<lparr>case_revisions := y\<rparr>) = log_of c s"
  "log_of c (s\<lparr>scheduled_actions := z\<rparr>) = log_of c s"
  by (simp_all add: log_of_def)

lemma case_ok_nums:
  "case_ok s r \<Longrightarrow> map ev_seq (log_of (cs_id r) s) = map int [0..<length (log_of (cs_id r) s)]"
  by (simp add: case_ok_def)

lemma case_ok_next: "case_ok s r \<Longrightarrow> cs_next_seq r = int (length (log_of (cs_id r) s))"
  by (simp add: case_ok_def)

lemma case_ok_fresh_seq:
  assumes "case_ok s r" and "e \<in> set (case_events s)" and "ev_caseId e = cs_id r"
  shows "ev_seq e \<noteq> cs_next_seq r"
proof -
  let ?log = "log_of (cs_id r) s"
  have "ev_seq e \<in> ev_seq ` set ?log" using assms(2,3) by (auto simp: log_of_def)
  also have "\<dots> = int ` {0..<length ?log}"
    using arg_cong [OF case_ok_nums [OF assms(1)], of set] by (simp only: set_map set_upt)
  finally show ?thesis using case_ok_next [OF assms(1)] by auto
qed

lemma readAll_after_insert:
  assumes "case_ok s r" and "ev_caseId e = cs_id r" and "ev_seq e = cs_next_seq r"
  shows "readAll (cs_id r) (s\<lparr>case_events := case_events s @ [e], case_rows := x\<rparr>) = log_of (cs_id r) s @ [e]"
proof -
  let ?log = "log_of (cs_id r) s"
  have "map ev_seq (?log @ [e]) = map int [0..<Suc (length ?log)]"
    using case_ok_nums [OF assms(1)] case_ok_next [OF assms(1)] assms(3) by simp
  then have "sorted (map ev_seq (?log @ [e]))" by (simp only: sorted_int_upt)
  then show ?thesis
    using assms(2) by (simp add: readAll_def log_of_def sort_key_id_if_sorted)
qed

text \<open>
  Under the invariant, the whole transaction computes: the appended log is folded, a
  failing fold leaves the data base alone, and a fold that succeeds is stored.
\<close>

lemma event_append_eval:
  assumes inv: "store_inv s" and row: "case_of s c = Some r"
    and stored: "stored = new_event now c (cs_next_seq r) ev src"
  shows "event_append now c ev src s =
    (case reduceAll c (log_of c s @ [stored]) of
       Inl e \<Rightarrow> (Inl e, s)
     | Inr rvn \<Rightarrow> (Inr (stored, rvn), appended now c stored rvn s))"
proof -
  from row have r: "r \<in> set (case_rows s)" and c: "cs_id r = c" by (auto dest: case_of_Some)
  with inv have ok: "case_ok s r" by (simp add: store_inv_def)
  have fresh: "\<forall>e \<in> set (case_events s). \<not> (ev_caseId e = c \<and> ev_seq e = cs_next_seq r)"
    using case_ok_fresh_seq [OF ok, unfolded c] by auto
  have log: "readAll c (s\<lparr>case_events := case_events s @ [stored], case_rows := x\<rparr>) = log_of c s @ [stored]" for x
    using readAll_after_insert [OF ok, of stored] c stored by simp
  show ?thesis
  proof (cases "reduceAll c (log_of c s @ [stored])")
    case (Inl e)
    then show ?thesis
      using fresh unfolding stored by (simp add: event_append_def monad_simps row Let_def insert_case_event_def log [unfolded stored])
  next
    case (Inr rvn)
    have "rv_caseId rvn = c" and "rv_revision rvn = int (length (log_of c s)) + 1"
      using reduceAll_caseId [OF Inr] reduceAll_revision [OF Inr] by auto
    moreover have "\<forall>rv \<in> set (case_revisions s). rv_caseId rv = c \<longrightarrow> rv_revision rv \<le> int (length (log_of c s))"
      using ok c by (auto simp: case_ok_def revisions_of_def)
    ultimately have "\<forall>rv \<in> set (case_revisions s). \<not> (rv_caseId rv = rv_caseId rvn \<and> rv_revision rv = rv_revision rvn)"
      by auto
    with Inr fresh show ?thesis unfolding stored
      by (simp add: event_append_def monad_simps row Let_def insert_case_event_def insert_revision_def
          log [unfolded stored] update_where_compose appended_def cancel_outstanding_def)
  qed
qed

lemma event_append_missing:
  "case_of s c = None \<Longrightarrow>
     event_append now c ev src s = (Inl (Error (''case '' @ c @ '' does not exist'')), s)"
  by (simp add: event_append_def monad_simps)

text \<open>A failed append leaves the data base as it was.\<close>

lemma event_append_rollback: "event_append now c ev src s = (Inl e, t) \<Longrightarrow> t = s"
  unfolding event_append_def by (rule transactM_Inl)


section \<open>Appending keeps the invariant\<close>

lemma appended_simps [simp]:
  "case_events (appended now c e rvn s) = case_events s @ [e]"
  "case_revisions (appended now c e rvn s) = case_revisions s @ [rvn]"
  "case_rows (appended now c e rvn s) = update_where (\<lambda>r. cs_id r = c)
     (\<lambda>r. write_revision rvn now (r\<lparr>cs_next_seq := cs_next_seq r + 1\<rparr>)) (case_rows s)"
  "obligations (appended now c e rvn s) = obligations s"
  "ledger (appended now c e rvn s) = ledger s"
  "settlements (appended now c e rvn s) = settlements s"
  "promises_to_pay (appended now c e rvn s) = promises_to_pay s"
  "incidents (appended now c e rvn s) = incidents s"
  "incident_members (appended now c e rvn s) = incident_members s"
  "action_attempts (appended now c e rvn s) = action_attempts s"
  "evidence (appended now c e rvn s) = evidence s"
  "claims (appended now c e rvn s) = claims s"
  "checkout_sessions (appended now c e rvn s) = checkout_sessions s"
  by (simp_all add: appended_def)

lemma appended_actions:
  "scheduled_actions (appended now c e rvn s) =
     (if isTerminal (rv_state rvn) then update_where (outstanding c) (cancel_row now) (scheduled_actions s)
      else scheduled_actions s)"
  by (simp add: appended_def)

lemma has_case_appended [simp]: "has_case c' (appended now c e rvn s) = has_case c' s"
proof -
  have "map cs_id (case_rows (appended now c e rvn s)) = map cs_id (case_rows s)"
    by (simp add: map_update_where)
  from arg_cong [OF this, of set] show ?thesis by (simp only: has_case_def set_map)
qed

lemma case_of_find_map:
  assumes "\<And>r. cs_id (f r) = cs_id r"
  shows "find (\<lambda>r. cs_id r = c') (update_where P f rs) =
           map_option (\<lambda>r. if P r then f r else r) (find (\<lambda>r. cs_id r = c') rs)"
  by (induction rs) (auto simp: assms)

lemma case_of_appended:
  "case_of (appended now c e rvn s) c' =
     map_option (\<lambda>r. if cs_id r = c then write_revision rvn now (r\<lparr>cs_next_seq := cs_next_seq r + 1\<rparr>) else r)
       (case_of s c')"
  by (simp add: case_of_def case_of_find_map)

lemma log_of_appended:
  "log_of c' (appended now c e rvn s) = log_of c' s @ (if ev_caseId e = c' then [e] else [])"
  by (simp add: log_of_def)

lemma revisions_of_appended:
  "revisions_of c' (appended now c e rvn s) = revisions_of c' s @ (if rv_caseId rvn = c' then [rvn] else [])"
  by (simp add: revisions_of_def)

lemma case_ok_appended_other:
  assumes "case_ok s r" and "cs_id r \<noteq> c" and "ev_caseId e = c" and "rv_caseId rvn = c"
  shows "case_ok (appended now c e rvn s) r"
  using assms unfolding case_ok_def by (auto simp: log_of_appended revisions_of_appended)

lemma reduceAll_terminalReason_mono:
  assumes "reduceAll c (es @ [e]) = Inr rvn" and "reduceAll c es = Inr r0"
  shows "rvn = next_revision r0 e"
  using assms by (auto simp: reduceAll_snoc reduce_Inr)

lemma terminalReason_keeps: "rv_terminalReason (next_revision r e) = None \<Longrightarrow> rv_terminalReason r = None"
  by (cases "ev_event e") (auto simp: next_revision_def Let_def)

lemma case_ok_appended_same:
  assumes ok: "case_ok s r" and c: "cs_id r = c"
    and e: "ev_caseId e = c" "ev_seq e = cs_next_seq r"
    and rvn: "reduceAll c (log_of c s @ [e]) = Inr rvn"
  shows "case_ok (appended now c e rvn s)
           (write_revision rvn now (r\<lparr>cs_next_seq := cs_next_seq r + 1\<rparr>))"
proof -
  let ?log = "log_of c s"
  have id: "rv_caseId rvn = c" and n: "rv_revision rvn = int (length ?log) + 1"
    using reduceAll_caseId [OF rvn] reduceAll_revision [OF rvn] by auto
  have "map ev_seq (?log @ [e]) = map int [0..<length (?log @ [e])]"
    using case_ok_nums [OF ok] case_ok_next [OF ok] c e by simp
  moreover have "\<forall>rv \<in> set (revisions_of c s). rv_revision rv \<le> int (length ?log)"
    using ok c by (simp add: case_ok_def)
  moreover have "rv_terminalReason rvn = None \<Longrightarrow> cs_closed_at r = None"
  proof -
    assume none: "rv_terminalReason rvn = None"
    from ok c obtain r0 where "reduceAll c ?log = Inr r0" and "row_agrees r r0"
      by (auto simp: case_ok_def)
    with rvn none terminalReason_keeps [of r0 e] have "cs_terminal_reason r = None"
      by (auto simp: reduceAll_snoc reduce_Inr row_agrees_def)
    with ok show ?thesis by (simp add: case_ok_def)
  qed
  ultimately show ?thesis
    using case_ok_next [OF ok] c e rvn id n
    by (auto simp: case_ok_def log_of_appended revisions_of_appended row_agrees_def write_revision_def)
qed

lemma store_inv_appended:
  assumes inv: "store_inv s" and r: "r \<in> set (case_rows s)" and c: "cs_id r = c"
    and e: "ev_caseId e = c" "ev_seq e = cs_next_seq r"
    and rvn: "reduceAll c (log_of c s @ [e]) = Inr rvn"
  shows "store_inv (appended now c e rvn s)"
proof -
  let ?s = "appended now c e rvn s"
  have id: "rv_caseId rvn = c" using reduceAll_caseId [OF rvn] .
  have has: "has_case c s" using r c by (auto simp: has_case_def)
  have d: "distinct (map cs_id (case_rows s))" using inv by (simp add: store_inv_def)
  have "case_ok ?s q" if q: "q \<in> set (case_rows ?s)" for q
  proof -
    from q obtain q0 where q0: "q0 \<in> set (case_rows s)"
      and qq: "q = (if cs_id q0 = c then write_revision rvn now (q0\<lparr>cs_next_seq := cs_next_seq q0 + 1\<rparr>) else q0)"
      by (auto dest!: in_update_where)
    from inv q0 have ok: "case_ok s q0" by (simp add: store_inv_def)
    show ?thesis
    proof (cases "cs_id q0 = c")
      case True
      with d q0 r c have "q0 = r" by (auto simp: distinct_map dest: inj_onD)
      with True qq ok e rvn show ?thesis by (simp add: case_ok_appended_same)
    next
      case False
      with qq ok e id show ?thesis by (simp add: case_ok_appended_other)
    qed
  qed
  with inv d has e id show ?thesis
    by (simp add: store_inv_def map_update_where)
qed

lemma event_append_Inr:
  assumes "store_inv s" and "event_append now c ev src s = (Inr (stored, rvn), t)"
  shows "\<exists>r. case_of s c = Some r \<and> stored = new_event now c (cs_next_seq r) ev src
     \<and> reduceAll c (log_of c s @ [stored]) = Inr rvn \<and> t = appended now c stored rvn s"
proof (cases "case_of s c")
  case None
  with assms(2) show ?thesis by (simp add: event_append_missing)
next
  case (Some r)
  from assms(2) event_append_eval [OF assms(1) Some refl, of now ev src] show ?thesis
    using Some by (auto split: sum.splits)
qed

lemma event_append_store_inv: "store_inv s \<Longrightarrow> store_inv (snd (event_append now c ev src s))"
proof -
  assume inv: "store_inv s"
  obtain x t where run: "event_append now c ev src s = (x, t)" by (cases "event_append now c ev src s")
  show ?thesis
  proof (cases x)
    case (Inl e)
    with run inv show ?thesis by (auto dest: event_append_rollback)
  next
    case (Inr p)
    obtain stored rvn where p: "p = (stored, rvn)" by (cases p)
    from event_append_Inr [OF inv] run Inr p obtain r where
      "case_of s c = Some r" "stored = new_event now c (cs_next_seq r) ev src"
      "reduceAll c (log_of c s @ [stored]) = Inr rvn" "t = appended now c stored rvn s"
      by blast
    then show ?thesis using inv run
      by (auto dest!: case_of_Some intro!: store_inv_appended)
  qed
qed

lemma preserves_event_append [preserves_intros]: "preserves store_inv (event_append now c ev src)"
  by (rule preservesI) (rule event_append_store_inv)

text \<open>Under the invariant, replay folds the stored log and finds the last stored revision.\<close>

lemma replay_eval:
  assumes "store_inv s" and "case_of s c = Some r"
  shows "\<exists>rvn. replay c s = (Inr rvn, s) \<and> reduceAll c (log_of c s) = Inr rvn \<and> row_agrees r rvn
     \<and> (log_of c s \<noteq> [] \<longrightarrow> last (revisions_of c s) = rvn)"
proof -
  from assms have "case_ok s r" and c: "cs_id r = c"
    by (auto dest!: case_of_Some simp: store_inv_def)
  then show ?thesis
    using case_ok_readAll [of s r] by (auto simp: replay_def monad_simps case_ok_def)
qed

lemma append_legal:
  assumes "store_inv s" and "event_append now c ev src s = (Inr (stored, rvn), t)" and "case_of s c = Some r"
  shows "canTransition (cs_state r) (rv_state rvn) \<and> rv_state rvn = targetState ev (cs_state r)"
proof -
  from event_append_Inr [OF assms(1,2)] assms(3)
  have rvn: "reduceAll c (log_of c s @ [stored]) = Inr rvn" and "ev_event stored = ev" by auto
  from replay_eval [OF assms(1,3)] obtain r0 where
    "reduceAll c (log_of c s) = Inr r0" and "row_agrees r r0" by blast
  with rvn \<open>ev_event stored = ev\<close> show ?thesis
    by (auto simp: reduceAll_snoc reduce_Inr row_agrees_def)
qed

text \<open>An event the state machine admits is appended.\<close>

lemma event_append_ok:
  assumes "store_inv s" and "case_of s c = Some r" and "canTransition (cs_state r) (targetState ev (cs_state r))"
  shows "\<exists>stored rvn. event_append now c ev src s = (Inr (stored, rvn), appended now c stored rvn s)
    \<and> stored = new_event now c (cs_next_seq r) ev src
    \<and> rv_state rvn = targetState ev (cs_state r)"
proof -
  from assms(1,2) have ok: "case_ok s r" and c: "cs_id r = c" by (auto dest!: case_of_Some simp: store_inv_def)
  from replay_eval [OF assms(1,2)] obtain r0 where
    r0: "reduceAll c (log_of c s) = Inr r0" and "row_agrees r r0" by blast
  let ?e = "new_event now c (cs_next_seq r) ev src"
  have "rv_reducedThroughSeq r0 = -1 + int (length (log_of c s))"
    using case_log.fold_pos [OF r0 [unfolded reduceAll_def]] by simp
  then have "reduceAll c (log_of c s @ [?e]) = Inr (next_revision r0 ?e)"
    using r0 case_ok_next [OF ok] c assms(3) \<open>row_agrees r r0\<close>
    by (simp add: reduceAll_snoc reduce_Inr row_agrees_def)
  with event_append_eval [OF assms(1,2) refl] \<open>row_agrees r r0\<close> show ?thesis
    by (simp add: row_agrees_def)
qed

text \<open>After an event that closes the case no action of the case is outstanding.\<close>

lemma cancel_row_state [simp]: "sa_state (cancel_row now a) = cancelled" "sa_case (cancel_row now a) = sa_case a"
  by (simp_all add: cancel_row_def)

lemma appended_terminal_none_outstanding:
  "isTerminal (rv_state rvn) \<Longrightarrow> a \<in> set (scheduled_actions (appended now c e rvn s)) \<Longrightarrow> \<not> outstanding c a"
  by (auto simp: appended_actions outstanding_def dest!: in_update_where split: if_splits)

section \<open>The other tables do not matter\<close>

lemma has_case_cong: "case_rows s = case_rows t \<Longrightarrow> has_case c s = has_case c t"
  by (simp add: has_case_def)

lemma store_inv_cong:
  assumes "case_rows t = case_rows s" and "case_events t = case_events s" and "case_revisions t = case_revisions s"
  shows "store_inv t = store_inv s"
  using assms by (simp add: store_inv_def case_ok_def log_of_def revisions_of_def has_case_def)

lemma store_inv_frame [simp]:
  "store_inv (s\<lparr>scheduled_actions := x1\<rparr>) = store_inv s"
  "store_inv (s\<lparr>next_sched_id := x2\<rparr>) = store_inv s"
  "store_inv (s\<lparr>obligation_locks := x3\<rparr>) = store_inv s"
  "store_inv (s\<lparr>ledger := x4\<rparr>) = store_inv s"
  "store_inv (s\<lparr>evidence := x5\<rparr>) = store_inv s"
  "store_inv (s\<lparr>claims := x6\<rparr>) = store_inv s"
  "store_inv (s\<lparr>agent_runs := x7\<rparr>) = store_inv s"
  "store_inv (s\<lparr>capability_tokens := x8\<rparr>) = store_inv s"
  "store_inv (s\<lparr>token_burns := x9\<rparr>) = store_inv s"
  "store_inv (s\<lparr>contact_budgets := x10\<rparr>) = store_inv s"
  "store_inv (s\<lparr>policy_decisions := x11\<rparr>) = store_inv s"
  "store_inv (s\<lparr>action_attempts := x12\<rparr>) = store_inv s"
  "store_inv (s\<lparr>settlements := x13\<rparr>) = store_inv s"
  "store_inv (s\<lparr>incidents := x14\<rparr>) = store_inv s"
  "store_inv (s\<lparr>incident_members := x15\<rparr>) = store_inv s"
  "store_inv (s\<lparr>promises_to_pay := x16\<rparr>) = store_inv s"
  "store_inv (s\<lparr>checkout_sessions := x17\<rparr>) = store_inv s"
  "store_inv (s\<lparr>obligations := x18\<rparr>) = store_inv s"
  by (rule store_inv_cong; simp)+

end
