(* ===== verification/Case_Manager.thy ===== *)
theory Case_Manager
  imports Case_Store
begin

text \<open>
  \<open>packages/engine/src/case-manager.ts\<close>: opening a case with deduplication on the
  obligation, whose key is \<open>(merchant_id, external_ref)\<close>.
\<close>

record OpenCaseRequest =
  oq_caseId :: string
  oq_merchantId :: string
  oq_customerId :: string
  oq_obligationId :: string
  oq_externalRef :: string
  oq_domain :: Domain
  oq_amountPaise :: int
  oq_dueAt :: int
  oq_holdout :: bool

record OpenCaseResult =
  or_caseId :: string
  or_attached :: bool

definition obligation_by_ref :: "db \<Rightarrow> string \<Rightarrow> string \<Rightarrow> obligation_row option" where
  "obligation_by_ref s m ref = find (\<lambda>r. ob_merchant r = m \<and> ob_ref r = ref) (obligations s)"

text \<open>The upsert: a conflict on \<open>(merchant_id, external_ref)\<close> returns the existing id.\<close>

definition upsert_obligation :: "OpenCaseRequest \<Rightarrow> string dbm" where
  "upsert_obligation req =
     thenM (guardM (\<lambda>_. 0 \<le> oq_amountPaise req) (CheckViolation ''amount_paise''))
    (bindM (readM (\<lambda>s. obligation_by_ref s (oq_merchantId req) (oq_externalRef req))) (\<lambda>row.
       case row of
         Some r \<Rightarrow> retM (ob_id r)
       | None \<Rightarrow>
          thenM (guardM (\<lambda>s. \<not> has_obligation (oq_obligationId req) s) (UniqueViolation ''obligations''))
         (thenM (guardM (\<lambda>s. oq_merchantId req \<in> set (merchants s)) (ForeignKeyViolation ''merchants''))
         (thenM (guardM (\<lambda>s. oq_customerId req \<in> set (customers s)) (ForeignKeyViolation ''customers''))
         (thenM (modifyM (\<lambda>s. s\<lparr>obligations := obligations s @
             [\<lparr>ob_id = oq_obligationId req, ob_merchant = oq_merchantId req,
               ob_customer = oq_customerId req, ob_type = oq_domain req, ob_amount = oq_amountPaise req,
               ob_due = oq_dueAt req, ob_ref = oq_externalRef req, ob_state = ''due'',
               ob_virtual_account = None\<rparr>]\<rparr>))
           (retM (oq_obligationId req)))))))"

text \<open>\<open>SELECT id FROM cases WHERE obligation_id = $1 AND closed_at IS NULL ORDER BY opened_at LIMIT 1\<close>.\<close>

definition live_on :: "string \<Rightarrow> case_row \<Rightarrow> bool" where
  "live_on ob r \<longleftrightarrow> cs_obligation r = ob \<and> cs_closed_at r = None"

definition open_case_for :: "db \<Rightarrow> string \<Rightarrow> case_row option" where
  "open_case_for s ob =
     (case sort_key cs_opened_at (filter (live_on ob) (case_rows s)) of [] \<Rightarrow> None | r # _ \<Rightarrow> Some r)"

definition new_case_row :: "int \<Rightarrow> OpenCaseRequest \<Rightarrow> string \<Rightarrow> case_row" where
  "new_case_row now req ob =
     \<lparr>cs_id = oq_caseId req, cs_obligation = ob, cs_incident = None, cs_domain = oq_domain req,
      cs_state = DETECTED, cs_tier = 0, cs_holdout = oq_holdout req, cs_next_seq = 0,
      cs_opened_at = now, cs_closed_at = None, cs_terminal_reason = None,
      cs_labels = \<lparr>lb_stratum = None, lb_cause = None, lb_rail = None, lb_gateway = None, lb_issuer = None\<rparr>\<rparr>"

definition insert_case :: "case_row \<Rightarrow> unit dbm" where
  "insert_case r =
     thenM (guardM (\<lambda>s. \<not> has_case (cs_id r) s) (UniqueViolation ''cases''))
           (modifyM (\<lambda>s. s\<lparr>case_rows := case_rows s @ [r]\<rparr>))"

definition attach_or_insert :: "int \<Rightarrow> OpenCaseRequest \<Rightarrow> OpenCaseResult dbm" where
  "attach_or_insert now req = transactM (
     bindM (upsert_obligation req) (\<lambda>ob.
     bindM (readM (\<lambda>s. open_case_for s ob)) (\<lambda>row.
       case row of
         Some r \<Rightarrow> retM \<lparr>or_caseId = cs_id r, or_attached = True\<rparr>
       | None \<Rightarrow> thenM (insert_case (new_case_row now req ob))
                      (retM \<lparr>or_caseId = oq_caseId req, or_attached = False\<rparr>))))"

definition openOrAttach :: "int \<Rightarrow> OpenCaseRequest \<Rightarrow> OpenCaseResult dbm" where
  "openOrAttach now req =
     bindM (attach_or_insert now req) (\<lambda>existing.
     thenM (whenM (\<not> or_attached existing)
              (thenM (event_append now (or_caseId existing)
                        (case_opened (oq_domain req) (oq_holdout req)) ''case_manager'') (retM ())))
           (retM existing))"

definition obligationIdFor :: "string \<Rightarrow> string dbm" where
  "obligationIdFor caseId =
     bindM (readM (\<lambda>s. case_of s caseId)) (\<lambda>row.
       case row of None \<Rightarrow> throwM (Error (''case '' @ caseId @ '' does not exist''))
                 | Some r \<Rightarrow> retM (cs_obligation r))"

section \<open>One live case per obligation\<close>

definition one_live :: "db \<Rightarrow> bool" where
  "one_live s \<longleftrightarrow> (\<forall>ob. length (filter (live_on ob) (case_rows s)) \<le> 1)"

definition obligation_keys :: "db \<Rightarrow> bool" where
  "obligation_keys s \<longleftrightarrow> distinct (map ob_id (obligations s))
     \<and> distinct (map (\<lambda>r. (ob_merchant r, ob_ref r)) (obligations s))"

definition case_inv :: "db \<Rightarrow> bool" where
  "case_inv s \<longleftrightarrow> store_inv s \<and> one_live s \<and> obligation_keys s"

lemma open_case_for_None: "open_case_for s ob = None \<longleftrightarrow> filter (live_on ob) (case_rows s) = []"
  by (auto simp: open_case_for_def split: list.splits dest: arg_cong [where f = set])

lemma open_case_for_Some:
  assumes "open_case_for s ob = Some r"
  shows "r \<in> set (case_rows s) \<and> live_on ob r"
proof -
  from assms obtain rs where "sort_key cs_opened_at (filter (live_on ob) (case_rows s)) = r # rs"
    by (auto simp: open_case_for_def split: list.splits)
  then have "r \<in> set (sort_key cs_opened_at (filter (live_on ob) (case_rows s)))" by simp
  then show ?thesis by simp
qed

lemma one_live_open_case_for:
  assumes "one_live s" and "r \<in> set (case_rows s)" and "live_on ob r"
  shows "open_case_for s ob = Some r"
proof -
  have "length (filter (live_on ob) (case_rows s)) \<le> 1" using assms(1) by (simp add: one_live_def)
  moreover have "r \<in> set (filter (live_on ob) (case_rows s))" using assms(2,3) by simp
  ultimately have "filter (live_on ob) (case_rows s) = [r]"
    by (cases "filter (live_on ob) (case_rows s)") auto
  then show ?thesis by (simp add: open_case_for_def)
qed

lemma obligation_by_ref_Some:
  "obligation_by_ref s m ref = Some r \<Longrightarrow> r \<in> set (obligations s) \<and> ob_merchant r = m \<and> ob_ref r = ref"
  by (auto simp: obligation_by_ref_def dest: find_SomeD)

lemma one_live_update:
  assumes "one_live s"
    and "\<And>r. cs_obligation (f r) = cs_obligation r" and "\<And>r. cs_closed_at r \<noteq> None \<Longrightarrow> cs_closed_at (f r) \<noteq> None"
  shows "one_live (s\<lparr>case_rows := update_where P f (case_rows s)\<rparr>)"
proof -
  have "live_on ob r" if "live_on ob (f r)" for ob r
    using that assms(2) [of r] assms(3) [of r] by (cases "cs_closed_at r") (auto simp: live_on_def)
  then have "length (filter (live_on ob) (update_where P f rs)) \<le> length (filter (live_on ob) rs)" for ob rs
    by (induction rs) (auto intro: le_SucI)
  then show ?thesis using assms(1) unfolding one_live_def by (auto intro: order_trans)
qed

lemma one_live_appended: "one_live s \<Longrightarrow> one_live (appended now c e rvn s)"
proof -
  assume "one_live s"
  then have "one_live (s\<lparr>case_rows := update_where (\<lambda>r. cs_id r = c)
      (\<lambda>r. write_revision rvn now (r\<lparr>cs_next_seq := cs_next_seq r + 1\<rparr>)) (case_rows s)\<rparr>)"
    by (rule one_live_update) (auto simp: write_revision_def)
  then show ?thesis by (simp add: one_live_def appended_def)
qed

lemma case_inv_appended:
  assumes "case_inv s" and "event_append now c ev src s = (Inr (stored, rvn), t)"
  shows "case_inv t"
proof -
  from assms have inv: "store_inv s" by (simp add: case_inv_def)
  from event_append_Inr [OF inv assms(2)] have t: "t = appended now c stored rvn s" by blast
  have "store_inv t" using event_append_store_inv [OF inv, of now c ev src] assms(2) by simp
  with assms(1) t show ?thesis
    by (simp add: case_inv_def one_live_appended obligation_keys_def)
qed

lemma preserves_case_inv_append [preserves_intros]: "preserves case_inv (event_append now c ev src)"
proof (rule preservesI)
  fix s assume inv: "case_inv s"
  obtain x t where run: "event_append now c ev src s = (x, t)" by (cases "event_append now c ev src s")
  show "case_inv (snd (event_append now c ev src s))"
    using inv run event_append_rollback case_inv_appended
    by (cases x) (auto, metis)
qed

lemma upsert_case_inv: "preserves case_inv (upsert_obligation req)"
proof (rule preservesI)
  fix s assume inv: "case_inv s"
  then have keys: "obligation_keys s" and frame: "\<And>l. case_inv (s\<lparr>obligations := l\<rparr>) \<longleftrightarrow>
      obligation_keys (s\<lparr>obligations := l\<rparr>)"
    by (simp_all add: case_inv_def one_live_def)
  show "case_inv (snd (upsert_obligation req s))"
  proof (cases "obligation_by_ref s (oq_merchantId req) (oq_externalRef req)")
    case None
    then have "(oq_merchantId req, oq_externalRef req) \<notin> (\<lambda>r. (ob_merchant r, ob_ref r)) ` set (obligations s)"
      by (auto simp: obligation_by_ref_def find_None_iff)
    with None keys inv show ?thesis
      by (auto simp: upsert_obligation_def monad_simps frame obligation_keys_def has_obligation_def)
  next
    case (Some r)
    with inv show ?thesis by (simp add: upsert_obligation_def monad_simps)
  qed
qed

lemma insert_case_store_inv:
  assumes inv: "store_inv s" and new: "\<not> has_case (cs_id r) s"
    and shape: "cs_next_seq r = 0" "cs_state r = DETECTED" "cs_incident r = None" "cs_terminal_reason r = None"
    "cs_closed_at r = None"
  shows "store_inv (s\<lparr>case_rows := case_rows s @ [r]\<rparr>)"
proof -
  let ?s = "s\<lparr>case_rows := case_rows s @ [r]\<rparr>"
  have "log_of (cs_id r) s = []" "revisions_of (cs_id r) s = []"
    using inv new by (auto simp: store_inv_def log_of_def revisions_of_def filter_empty_conv)
  then have "case_ok ?s r" using shape by (simp add: case_ok_def revisions_of_def row_agrees_def log_of_def)
  moreover have "case_ok ?s q" if "case_ok s q" for q
    using that by (simp add: case_ok_def revisions_of_def log_of_def)
  ultimately show ?thesis using inv new by (auto simp: store_inv_def has_case_def)
qed

lemma new_case_row_simps [simp]:
  "cs_id (new_case_row now req ob) = oq_caseId req" "cs_obligation (new_case_row now req ob) = ob"
  "cs_closed_at (new_case_row now req ob) = None" "cs_next_seq (new_case_row now req ob) = 0"
  "cs_state (new_case_row now req ob) = DETECTED" "cs_incident (new_case_row now req ob) = None"
  "cs_terminal_reason (new_case_row now req ob) = None" "cs_holdout (new_case_row now req ob) = oq_holdout req"
  by (simp_all add: new_case_row_def)

lemma insert_case_case_inv:
  assumes inv: "case_inv s" and none: "open_case_for s ob = None" and new: "\<not> has_case (oq_caseId req) s"
  shows "case_inv (s\<lparr>case_rows := case_rows s @ [new_case_row now req ob]\<rparr>)"
proof -
  have "store_inv (s\<lparr>case_rows := case_rows s @ [new_case_row now req ob]\<rparr>)"
    using inv new by (intro insert_case_store_inv) (simp_all add: case_inv_def)
  moreover have "length (filter (live_on ob') (case_rows s @ [new_case_row now req ob])) \<le> 1" for ob'
    using inv none [unfolded open_case_for_None]
    by (cases "ob' = ob") (auto simp: case_inv_def one_live_def live_on_def)
  ultimately show ?thesis using inv by (simp add: case_inv_def one_live_def obligation_keys_def)
qed

lemma attach_or_insert_case_inv: "preserves case_inv (attach_or_insert now req)"
  unfolding attach_or_insert_def
proof (rule preserves_transactM, rule preservesI)
  fix s assume inv: "case_inv s"
  let ?u = "upsert_obligation req s"
  have inv1: "case_inv (snd ?u)" using preservesD [OF upsert_case_inv inv] .
  show "case_inv (snd (bindM (upsert_obligation req) (\<lambda>ob.
     bindM (readM (\<lambda>s. open_case_for s ob)) (\<lambda>row.
       case row of
         Some r \<Rightarrow> retM \<lparr>or_caseId = cs_id r, or_attached = True\<rparr>
       | None \<Rightarrow> thenM (insert_case (new_case_row now req ob))
                      (retM \<lparr>or_caseId = oq_caseId req, or_attached = False\<rparr>))) s))"
    using inv1 insert_case_case_inv
    by (auto simp: monad_simps insert_case_def split: prod.splits sum.splits option.splits)
qed

lemma openOrAttach_case_inv [preserves_intros]: "preserves case_inv (openOrAttach now req)"
  unfolding openOrAttach_def by (intro preserves_intros attach_or_insert_case_inv)

section \<open>What opening a case does\<close>

lemma upsert_existing:
  assumes "obligation_by_ref s (oq_merchantId req) (oq_externalRef req) = Some r" and "0 \<le> oq_amountPaise req"
  shows "upsert_obligation req s = (Inr (ob_id r), s)"
  using assms by (simp add: upsert_obligation_def monad_simps)

text \<open>A trigger for an obligation with a live case attaches to it and changes nothing.\<close>

lemma openOrAttach_attaches:
  assumes "one_live s" and "0 \<le> oq_amountPaise req"
    and "obligation_by_ref s (oq_merchantId req) (oq_externalRef req) = Some o'"
    and "r \<in> set (case_rows s)" and "live_on (ob_id o') r"
  shows "openOrAttach now req s = (Inr \<lparr>or_caseId = cs_id r, or_attached = True\<rparr>, s)"
  using upsert_existing [OF assms(3,2)] one_live_open_case_for [OF assms(1,4,5)]
  by (simp add: openOrAttach_def attach_or_insert_def monad_simps)

lemma find_snoc_new: "find P xs = None \<Longrightarrow> P x \<Longrightarrow> find P (xs @ [x]) = Some x"
  by (simp add: find_append)

lemma upsert_Inr_ref:
  assumes "upsert_obligation req s = (Inr ob, t)"
  shows "\<exists>o'. obligation_by_ref t (oq_merchantId req) (oq_externalRef req) = Some o' \<and> ob_id o' = ob
     \<and> case_rows t = case_rows s \<and> case_events t = case_events s \<and> case_revisions t = case_revisions s
     \<and> 0 \<le> oq_amountPaise req"
  using assms
  by (auto simp: upsert_obligation_def monad_simps obligation_by_ref_def find_append split: option.splits if_splits)

lemma case_of_None: "case_of s c = None \<longleftrightarrow> \<not> has_case c s"
  by (auto simp: case_of_def has_case_def find_None_iff)

lemma openOrAttach_new:
  assumes inv: "case_inv s" and up: "upsert_obligation req s = (Inr ob, s1)"
    and none: "open_case_for s1 ob = None" and new: "\<not> has_case (oq_caseId req) s1"
  shows "\<exists>stored rvn. openOrAttach now req s =
     (Inr \<lparr>or_caseId = oq_caseId req, or_attached = False\<rparr>,
      appended now (oq_caseId req) stored rvn (s1\<lparr>case_rows := case_rows s1 @ [new_case_row now req ob]\<rparr>))
     \<and> rv_state rvn = DETECTED \<and> rv_terminalReason rvn = None"
proof -
  let ?s2 = "s1\<lparr>case_rows := case_rows s1 @ [new_case_row now req ob]\<rparr>"
  let ?c = "oq_caseId req" and ?ev = "case_opened (oq_domain req) (oq_holdout req)"
  have "case_inv s1" using preserves_run [OF upsert_case_inv up inv] .
  then have inv2: "store_inv ?s2" using insert_case_case_inv [OF _ none new] by (simp add: case_inv_def)
  have row: "case_of ?s2 ?c = Some (new_case_row now req ob)"
    using new [folded case_of_None] by (simp add: case_of_def find_append)
  from event_append_ok [OF inv2 row, of ?ev now "''case_manager''"] obtain stored rvn where
    ap: "event_append now ?c ?ev ''case_manager'' ?s2 = (Inr (stored, rvn), appended now ?c stored rvn ?s2)"
    and st: "rv_state rvn = DETECTED"
    by (auto simp: canTransition_def)
  have "rv_terminalReason rvn = None"
  proof -
    from event_append_Inr [OF inv2 ap] have red: "reduceAll ?c (log_of ?c ?s2 @ [stored]) = Inr rvn"
      and ev: "ev_event stored = ?ev" by auto
    from replay_eval [OF inv2 row] obtain r0 where "reduceAll ?c (log_of ?c ?s2) = Inr r0"
      and "row_agrees (new_case_row now req ob) r0" by blast
    with red ev show ?thesis
      by (auto simp: reduceAll_snoc reduce_Inr next_revision_def Let_def row_agrees_def)
  qed
  with up none new ap st show ?thesis
    by (auto simp: openOrAttach_def attach_or_insert_def insert_case_def monad_simps)
qed

end
