(* ===== verification/Checkout_Watcher.thy ===== *)
theory Checkout_Watcher
  imports Case_Manager
begin

text \<open>\<open>packages/engine/src/checkout-watcher.ts\<close>: quiet checkout sessions and their conversion.\<close>

record CheckoutEvent =
  ce_sessionId :: string
  ce_merchantId :: string
  ce_customerId :: string
  ce_externalRef :: string
  ce_amountPaise :: int
  ce_stage :: string

record AbandonedSession =
  as_sessionId :: string
  as_merchantId :: string
  as_customerId :: string
  as_externalRef :: string
  as_amountPaise :: int
  as_lastStage :: string
  as_idleMs :: int

definition same_checkout :: "string \<Rightarrow> string \<Rightarrow> checkout_row \<Rightarrow> bool" where
  "same_checkout m ref r \<longleftrightarrow> ck_merchant r = m \<and> ck_ref r = ref"

definition touch :: "int \<Rightarrow> CheckoutEvent \<Rightarrow> unit dbm" where
  "touch now e =
     bindM (readM (\<lambda>s. \<exists>r \<in> set (checkout_sessions s). same_checkout (ce_merchantId e) (ce_externalRef e) r)) (\<lambda>known.
       if known
       then modifyM (\<lambda>s. s\<lparr>checkout_sessions := update_where (same_checkout (ce_merchantId e) (ce_externalRef e))
              (\<lambda>r. r\<lparr>ck_stage := ce_stage e, ck_last_active := now\<rparr>) (checkout_sessions s)\<rparr>)
       else thenM (guardM (\<lambda>s. ce_sessionId e \<notin> ck_id ` set (checkout_sessions s)) (UniqueViolation ''checkout_sessions''))
           (thenM (guardM (\<lambda>s. ce_merchantId e \<in> set (merchants s)) (ForeignKeyViolation ''merchants''))
           (thenM (guardM (\<lambda>s. ce_customerId e \<in> set (customers s)) (ForeignKeyViolation ''customers''))
                  (modifyM (\<lambda>s. s\<lparr>checkout_sessions := checkout_sessions s @
                     [\<lparr>ck_id = ce_sessionId e, ck_merchant = ce_merchantId e, ck_customer = ce_customerId e,
                       ck_ref = ce_externalRef e, ck_amount = ce_amountPaise e, ck_stage = ce_stage e,
                       ck_last_active = now, ck_completed = None, ck_case = None\<rparr>]\<rparr>)))))"

definition checkout_complete :: "int \<Rightarrow> string \<Rightarrow> string \<Rightarrow> unit dbm" where
  "checkout_complete now m ref = modifyM (\<lambda>s. s\<lparr>checkout_sessions :=
     update_where (same_checkout m ref) (\<lambda>r. r\<lparr>ck_completed := Some now\<rparr>) (checkout_sessions s)\<rparr>)"

definition is_abandoned :: "int \<Rightarrow> db \<Rightarrow> checkout_row \<Rightarrow> bool" where
  "is_abandoned cutoff s r \<longleftrightarrow> ck_completed r = None \<and> ck_case r = None \<and> ck_last_active r \<le> cutoff
     \<and> \<not> (\<exists>b \<in> set (obligations s). ob_merchant b = ck_merchant r \<and> ob_ref b = ck_ref r)"

definition abandoned_of :: "int \<Rightarrow> checkout_row \<Rightarrow> AbandonedSession" where
  "abandoned_of now r =
     \<lparr>as_sessionId = ck_id r, as_merchantId = ck_merchant r, as_customerId = ck_customer r,
      as_externalRef = ck_ref r, as_amountPaise = ck_amount r, as_lastStage = ck_stage r,
      as_idleMs = now - ck_last_active r\<rparr>"

definition abandoned :: "int \<Rightarrow> int \<Rightarrow> AbandonedSession list dbm" where
  "abandoned thresholdMs now = readM (\<lambda>s. map (abandoned_of now)
     (sort_key ck_last_active (filter (is_abandoned (now - thresholdMs) s) (checkout_sessions s))))"

definition markConverted :: "env \<Rightarrow> int \<Rightarrow> int \<Rightarrow> string \<Rightarrow> string \<Rightarrow> unit dbm" where
  "markConverted E thresholdMs now sessionId caseId =
     thenM (whenM True (bindM (readM (\<lambda>s. sessionId \<in> ck_id ` set (checkout_sessions s))) (\<lambda>present.
              if present then fk_case caseId else retM ())))
    (thenM (modifyM (\<lambda>s. s\<lparr>checkout_sessions :=
              update_where (\<lambda>r. ck_id r = sessionId) (\<lambda>r. r\<lparr>ck_case := Some caseId\<rparr>) (checkout_sessions s)\<rparr>))
           (ledger_append now caseId ''checkout_watcher'' ''abandonment_detected''
              [(''sessionId'', JStr sessionId), (''thresholdMinutes'', JNum (fdiv E (of_int thresholdMs) 60000))]))"

definition abandoned_ids :: "int \<Rightarrow> int \<Rightarrow> db \<Rightarrow> string set" where
  "abandoned_ids thresholdMs now s =
     ck_id ` {r \<in> set (checkout_sessions s). is_abandoned (now - thresholdMs) s r}"

lemma abandoned_app:
  "abandoned th now s = (Inr (map (abandoned_of now)
     (sort_key ck_last_active (filter (is_abandoned (now - th) s) (checkout_sessions s)))), s)"
  by (simp add: abandoned_def monad_simps)

lemma abandoned_sound:
  assumes "abandoned th now s = (Inr xs, t)" and "x \<in> set xs"
  shows "as_sessionId x \<in> abandoned_ids th now s \<and> th \<le> as_idleMs x"
proof -
  from assms obtain r where r: "r \<in> set (checkout_sessions s)" "is_abandoned (now - th) s r"
    and x: "x = abandoned_of now r"
    by (auto simp: abandoned_app)
  have "ck_last_active r \<le> now - th" using r(2) by (simp add: is_abandoned_def)
  with r x show ?thesis by (simp add: abandoned_ids_def abandoned_of_def)
qed

lemma abandoned_complete:
  assumes "abandoned th now s = (Inr xs, t)" and "i \<in> abandoned_ids th now s"
  shows "i \<in> as_sessionId ` set xs"
  using assms by (auto simp: abandoned_app abandoned_ids_def abandoned_of_def image_iff)

text \<open>Activity restarts the clock of the session.\<close>

lemma touch_active:
  assumes "touch now e s = (Inr (), t)" and "r \<in> set (checkout_sessions t)"
    and "same_checkout (ce_merchantId e) (ce_externalRef e) r"
  shows "ck_last_active r = now"
proof (cases "\<exists>r \<in> set (checkout_sessions s). same_checkout (ce_merchantId e) (ce_externalRef e) r")
  case True
  then have t: "t = s\<lparr>checkout_sessions := update_where (same_checkout (ce_merchantId e) (ce_externalRef e))
              (\<lambda>r. r\<lparr>ck_stage := ce_stage e, ck_last_active := now\<rparr>) (checkout_sessions s)\<rparr>"
    using assms(1) by (simp add: touch_def monad_simps)
  then obtain r0 where "r = (if same_checkout (ce_merchantId e) (ce_externalRef e) r0
      then r0\<lparr>ck_stage := ce_stage e, ck_last_active := now\<rparr> else r0)"
    using assms(2) by (auto dest: in_update_where)
  with assms(3) show ?thesis by (auto split: if_splits)
next
  case False
  with assms show ?thesis by (auto simp: touch_def monad_simps split: if_splits)
qed

lemma touch_not_abandoned:
  assumes "touch now e s = (Inr (), t)" and "now' < now + th"
    and "r \<in> set (checkout_sessions t)" and "same_checkout (ce_merchantId e) (ce_externalRef e) r"
  shows "\<not> is_abandoned (now' - th) t r"
  using touch_active [OF assms(1,3,4)] assms(2) by (simp add: is_abandoned_def)

lemma markConverted_not_abandoned:
  assumes "markConverted E th now i c s = (Inr (), t)"
  shows "i \<notin> abandoned_ids th' now' t"
proof -
  have t: "checkout_sessions t = update_where (\<lambda>r. ck_id r = i) (\<lambda>r. r\<lparr>ck_case := Some c\<rparr>) (checkout_sessions s)"
    using assms by (auto simp: markConverted_def monad_simps split: if_splits)
  have "ck_case r = Some c" if "r \<in> set (checkout_sessions t)" "ck_id r = i" for r
  proof -
    from that(1) obtain r0 where "r = (if ck_id r0 = i then r0\<lparr>ck_case := Some c\<rparr> else r0)"
      unfolding t by (auto dest: in_update_where)
    with that(2) show ?thesis by (auto split: if_splits)
  qed
  then show ?thesis by (auto simp: abandoned_ids_def is_abandoned_def)
qed

text \<open>
  Once the session's order has an obligation, a failed payment opened its own case:
  the session is not abandoned.
\<close>

lemma obligation_not_abandoned:
  assumes "obligation_by_ref s (ck_merchant r) (ck_ref r) = Some b"
  shows "\<not> is_abandoned cutoff s r"
  using obligation_by_ref_Some [OF assms] by (auto simp: is_abandoned_def)

end
