(* ===== verification/Adapter.thy ===== *)
theory Adapter
  imports Db
begin

text \<open>
  \<open>packages/connectors/src/adapter.ts\<close>: the capabilities of the outside world, the
  adapter interface as a record of functions on the adapter's own state \<open>'w\<close>, and
  \<open>invoke\<close>. A call returns a result or throws, and may change the provider either way.
\<close>

datatype CapabilityName = createPaymentLink | resumeCheckout | requestPaymentMethodUpdate
  | sendApprovedTemplate | createOpsEscalation | fetchPaymentStatus

fun capability_str :: "CapabilityName \<Rightarrow> string" where
  "capability_str createPaymentLink = ''createPaymentLink''"
| "capability_str resumeCheckout = ''resumeCheckout''"
| "capability_str requestPaymentMethodUpdate = ''requestPaymentMethodUpdate''"
| "capability_str sendApprovedTemplate = ''sendApprovedTemplate''"
| "capability_str createOpsEscalation = ''createOpsEscalation''"
| "capability_str fetchPaymentStatus = ''fetchPaymentStatus''"

record CallResult =
  cr_ok :: bool
  cr_reference :: "string option"
  cr_detail :: params

record PaymentStatus =
  ps_found :: bool
  ps_captured :: bool
  ps_amountPaise :: "rat option"
  ps_reference :: "string option"

record AdapterCall =
  ac_caseId :: string
  ac_obligationId :: string
  ac_customerId :: string
  ac_params :: params
  ac_idemKey :: string

type_synonym ('w, 'a) psp = "('w, err, 'a) sem"

record 'w PSPAdapter =
  pa_name :: string
  pa_surface :: ActionSurface
  pa_capabilities :: "CapabilityName list"
  pa_createPaymentLink :: "AdapterCall \<Rightarrow> CapabilityToken \<Rightarrow> ('w, CallResult) psp"
  pa_resumeCheckout :: "AdapterCall \<Rightarrow> CapabilityToken \<Rightarrow> ('w, CallResult) psp"
  pa_requestPaymentMethodUpdate :: "AdapterCall \<Rightarrow> CapabilityToken \<Rightarrow> ('w, CallResult) psp"
  pa_sendApprovedTemplate :: "AdapterCall \<Rightarrow> CapabilityToken \<Rightarrow> ('w, CallResult) psp"
  pa_createOpsEscalation :: "AdapterCall \<Rightarrow> CapabilityToken \<Rightarrow> ('w, CallResult) psp"
  pa_fetchPaymentStatus :: "string \<Rightarrow> ('w, PaymentStatus) psp"

definition invoke ::
  "'w PSPAdapter \<Rightarrow> CapabilityName \<Rightarrow> AdapterCall \<Rightarrow> CapabilityToken \<Rightarrow> ('w, CallResult) psp" where
  "invoke adapter cap call token =
     (if cap \<notin> set (pa_capabilities adapter)
      then throwM (UnsupportedCapabilityError (pa_name adapter) (capability_str cap))
      else (case cap of
          createPaymentLink \<Rightarrow> pa_createPaymentLink adapter call token
        | resumeCheckout \<Rightarrow> pa_resumeCheckout adapter call token
        | requestPaymentMethodUpdate \<Rightarrow> pa_requestPaymentMethodUpdate adapter call token
        | sendApprovedTemplate \<Rightarrow> pa_sendApprovedTemplate adapter call token
        | createOpsEscalation \<Rightarrow> pa_createOpsEscalation adapter call token
        | fetchPaymentStatus \<Rightarrow>
            throwM (Error ''fetchPaymentStatus is a reconciliation probe, not an executable action'')))"

text \<open>The capability a library entry names, when it names one of the six.\<close>

definition capability_named :: "string option \<Rightarrow> CapabilityName option" where
  "capability_named z = (case z of None \<Rightarrow> None
     | Some x \<Rightarrow> find (\<lambda>c. capability_str c = x)
         [createPaymentLink, resumeCheckout, requestPaymentMethodUpdate, sendApprovedTemplate,
          createOpsEscalation, fetchPaymentStatus])"

lemma capability_named_str: "capability_named (Some (capability_str c)) = Some c"
  by (cases c) (simp_all add: capability_named_def)

text \<open>
  An adapter that also writes down the idempotency key of every call it is given: the
  calls that reached the provider, in order.
\<close>

definition log_call :: "(AdapterCall \<Rightarrow> CapabilityToken \<Rightarrow> ('w, CallResult) psp) \<Rightarrow>
    AdapterCall \<Rightarrow> CapabilityToken \<Rightarrow> ('w \<times> string list, CallResult) psp" where
  "log_call f call token = (\<lambda>(w, calls). case f call token w of (r, w') \<Rightarrow> (r, (w', calls @ [ac_idemKey call])))"

definition logged :: "'w PSPAdapter \<Rightarrow> ('w \<times> string list) PSPAdapter" where
  "logged a =
     \<lparr>pa_name = pa_name a, pa_surface = pa_surface a, pa_capabilities = pa_capabilities a,
      pa_createPaymentLink = log_call (pa_createPaymentLink a),
      pa_resumeCheckout = log_call (pa_resumeCheckout a),
      pa_requestPaymentMethodUpdate = log_call (pa_requestPaymentMethodUpdate a),
      pa_sendApprovedTemplate = log_call (pa_sendApprovedTemplate a),
      pa_createOpsEscalation = log_call (pa_createOpsEscalation a),
      pa_fetchPaymentStatus = (\<lambda>k (w, calls). case pa_fetchPaymentStatus a k w of (r, w') \<Rightarrow> (r, (w', calls)))\<rparr>"

lemma log_call_snd: "snd (snd (log_call f call token (w, calls))) = calls @ [ac_idemKey call]"
  by (simp add: log_call_def split: prod.split)

text \<open>An invocation reaches the provider at most once, under the call's own key.\<close>

lemma invoke_logged:
  "snd (snd (invoke (logged a) cap call token (w, calls))) = calls
   \<or> snd (snd (invoke (logged a) cap call token (w, calls))) = calls @ [ac_idemKey call]"
  by (cases cap) (auto simp: invoke_def logged_def log_call_snd throwM_def)

lemma fetch_logged:
  "snd (snd (pa_fetchPaymentStatus (logged a) k (w, calls))) = calls"
  by (simp add: logged_def split: prod.split)

end
