(* ===== verification/Obligation_Lease.thy ===== *)
theory Obligation_Lease
  imports Db
begin

text \<open>
  \<open>packages/engine/src/obligation-lease.ts\<close>: the lease on an obligation, one row of
  \<open>obligation_locks\<close> per obligation, taken over by an upsert whose condition is the whole
  of the mutual exclusion.
\<close>

definition lock_of :: "db \<Rightarrow> string \<Rightarrow> lock_row option" where
  "lock_of s ob = find (\<lambda>l. lk_obligation l = ob) (obligation_locks s)"

definition tryAcquire :: "int \<Rightarrow> int \<Rightarrow> string \<Rightarrow> string \<Rightarrow> bool dbm" where
  "tryAcquire ttlMs now ob holder =
     bindM (readM (\<lambda>s. lock_of s ob)) (\<lambda>row.
       case row of
         None \<Rightarrow> thenM (fk_obligation ob)
                (thenM (modifyM (\<lambda>s. s\<lparr>obligation_locks := obligation_locks s @
                          [\<lparr>lk_obligation = ob, lk_holder = holder, lk_acquired = now, lk_expiry = now + ttlMs\<rparr>]\<rparr>))
                       (retM True))
       | Some l \<Rightarrow>
           if lk_expiry l \<le> now \<or> lk_holder l = holder
           then thenM (modifyM (\<lambda>s. s\<lparr>obligation_locks := update_where (\<lambda>l. lk_obligation l = ob)
                         (\<lambda>l. l\<lparr>lk_holder := holder, lk_acquired := now, lk_expiry := now + ttlMs\<rparr>)
                         (obligation_locks s)\<rparr>))
                      (retM True)
           else retM False)"

definition acquire :: "int \<Rightarrow> int \<Rightarrow> string \<Rightarrow> string \<Rightarrow> unit dbm" where
  "acquire ttlMs now ob holder =
     bindM (tryAcquire ttlMs now ob holder) (\<lambda>ok.
       if ok then retM ()
       else bindM (readM (\<lambda>s. lock_of s ob)) (\<lambda>row.
              throwM (LeaseUnavailableError ob
                (case row of None \<Rightarrow> ''unknown'' | Some l \<Rightarrow> lk_holder l))))"

definition release :: "string \<Rightarrow> string \<Rightarrow> unit dbm" where
  "release ob holder = modifyM (\<lambda>s. s\<lparr>obligation_locks :=
     filter (\<lambda>l. \<not> (lk_obligation l = ob \<and> lk_holder l = holder)) (obligation_locks s)\<rparr>)"

definition withLease :: "int \<Rightarrow> int \<Rightarrow> string \<Rightarrow> string \<Rightarrow> ('w, 'a) iom \<Rightarrow> ('w, 'a) iom" where
  "withLease ttlMs now ob holder fn =
     thenM (on_db (acquire ttlMs now ob holder)) (finallyM fn (on_db (release ob holder)))"

section \<open>Leases as an interface\<close>

text \<open>
  What a client of a lease relies on: from a free or stale lease an acquisition succeeds,
  while another holder's lease is live it fails and changes nothing, and nobody else's
  operation ends a live lease. \<open>held s k h t\<close>: \<open>h\<close> holds \<open>k\<close> until \<open>t\<close>.
\<close>

datatype 'k lease_op = Acquire 'k string int | Release 'k string

fun op_holder :: "'k lease_op \<Rightarrow> string" where
  "op_holder (Acquire k h t) = h"
| "op_holder (Release k h) = h"

fun op_before :: "int \<Rightarrow> 'k lease_op \<Rightarrow> bool" where
  "op_before x (Acquire k h t) = (t < x)"
| "op_before x (Release k h) = True"

locale lease =
  fixes run :: "'k lease_op \<Rightarrow> 's \<Rightarrow> 's" and held :: "'s \<Rightarrow> 'k \<Rightarrow> string \<Rightarrow> int \<Rightarrow> bool"
  assumes unique: "held s k h t \<Longrightarrow> held s k h' t' \<Longrightarrow> h' = h \<and> t' = t"
    and others: "held s k h x \<Longrightarrow> op_holder a \<noteq> h \<Longrightarrow> op_before x a \<Longrightarrow> held (run a s) k h x"
begin

text \<open>Whatever the others do before the lease runs out, the holder keeps it.\<close>

lemma held_interleaving:
  "held s k h x \<Longrightarrow> \<forall>a \<in> set as. op_holder a \<noteq> h \<and> op_before x a \<Longrightarrow> held (fold run as s) k h x"
  by (induction as arbitrary: s) (auto intro: others)

lemma held_excludes:
  assumes "held s k h x" and "\<forall>a \<in> set as. op_holder a \<noteq> h \<and> op_before x a" and "h' \<noteq> h"
  shows "\<not> held (fold run as s) k h' x'"
  using held_interleaving [OF assms(1,2)] unique assms(3) by blast

end

definition held :: "db \<Rightarrow> string \<Rightarrow> string \<Rightarrow> int \<Rightarrow> bool" where
  "held s ob h x \<longleftrightarrow> (\<exists>l. lock_of s ob = Some l \<and> lk_holder l = h \<and> lk_expiry l = x)"

fun run_lease :: "int \<Rightarrow> string lease_op \<Rightarrow> db \<Rightarrow> db" where
  "run_lease ttl (Acquire ob h t) s = snd (tryAcquire ttl t ob h s)"
| "run_lease ttl (Release ob h) s = snd (release ob h s)"

lemma lock_of_Some: "lock_of s ob = Some l \<Longrightarrow> l \<in> set (obligation_locks s) \<and> lk_obligation l = ob"
  by (auto simp: lock_of_def dest: find_SomeD)

lemma lock_of_append:
  "lock_of (s\<lparr>obligation_locks := obligation_locks s @ [l]\<rparr>) ob =
     (case lock_of s ob of Some l' \<Rightarrow> Some l' | None \<Rightarrow> if lk_obligation l = ob then Some l else None)"
  by (auto simp: lock_of_def find_append split: option.splits)

lemma lock_of_update:
  assumes "\<And>l. lk_obligation (f l) = lk_obligation l"
  shows "lock_of (s\<lparr>obligation_locks := update_where (\<lambda>l. lk_obligation l = ob) f (obligation_locks s)\<rparr>) ob' =
     (if ob' = ob then map_option f (lock_of s ob) else lock_of s ob')"
proof -
  have "find (\<lambda>l. lk_obligation l = ob') (update_where (\<lambda>l. lk_obligation l = ob) f ls) =
     (if ob' = ob then map_option f (find (\<lambda>l. lk_obligation l = ob) ls)
      else find (\<lambda>l. lk_obligation l = ob') ls)" for ls
    by (induction ls) (auto simp: assms)
  then show ?thesis by (simp add: lock_of_def)
qed

lemma find_filter_keep: "find P xs = Some x \<Longrightarrow> Q x \<Longrightarrow> find P (filter Q xs) = Some x"
  by (induction xs) (auto split: if_splits)

lemma lock_of_release:
  "lock_of s ob' = Some l \<Longrightarrow> \<not> (lk_obligation l = ob \<and> lk_holder l = h) \<Longrightarrow>
     lock_of (snd (release ob h s)) ob' = Some l"
  by (auto simp: lock_of_def release_def monad_simps intro: find_filter_keep)

text \<open>The outcome of an acquisition, in the three cases.\<close>

lemma tryAcquire_free:
  "lock_of s ob = None \<Longrightarrow> has_obligation ob s \<Longrightarrow>
     tryAcquire ttl now ob h s = (Inr True, s\<lparr>obligation_locks := obligation_locks s @
        [\<lparr>lk_obligation = ob, lk_holder = h, lk_acquired = now, lk_expiry = now + ttl\<rparr>]\<rparr>)"
  by (simp add: tryAcquire_def monad_simps)

lemma tryAcquire_stale:
  "lock_of s ob = Some l \<Longrightarrow> lk_expiry l \<le> now \<or> lk_holder l = h \<Longrightarrow>
     tryAcquire ttl now ob h s = (Inr True, s\<lparr>obligation_locks := update_where (\<lambda>l. lk_obligation l = ob)
        (\<lambda>l. l\<lparr>lk_holder := h, lk_acquired := now, lk_expiry := now + ttl\<rparr>) (obligation_locks s)\<rparr>)"
  by (auto simp: tryAcquire_def monad_simps)

lemma tryAcquire_live:
  "lock_of s ob = Some l \<Longrightarrow> now < lk_expiry l \<Longrightarrow> lk_holder l \<noteq> h \<Longrightarrow>
     tryAcquire ttl now ob h s = (Inr False, s)"
  by (simp add: tryAcquire_def monad_simps)

lemma tryAcquire_other:
  assumes "lock_of s ob' = Some l" and "ob' \<noteq> ob"
  shows "lock_of (snd (tryAcquire ttl now ob h s)) ob' = Some l"
proof (cases "lock_of s ob")
  case None
  then show ?thesis using assms by (auto simp: tryAcquire_def monad_simps lock_of_append)
next
  case (Some l')
  then show ?thesis using assms
    by (auto simp: tryAcquire_def monad_simps lock_of_update)
qed

interpretation obligation_lease: lease "run_lease ttl" held for ttl
proof unfold_locales
  fix s k h t h' t'
  assume "held s k h t" and "held s k h' t'"
  then show "h' = h \<and> t' = t" by (auto simp: held_def)
next
  fix s k h x and a :: "string lease_op"
  assume k: "held s k h x" and a: "op_holder a \<noteq> h" "op_before x a"
  from k obtain l where l: "lock_of s k = Some l" "lk_holder l = h" "lk_expiry l = x"
    by (auto simp: held_def)
  show "held (run_lease ttl a s) k h x"
  proof (cases a)
    case (Acquire ob h2 t)
    then show ?thesis
      using l a tryAcquire_live [of s k l t h2 ttl] tryAcquire_other [of s k l ob ttl t h2]
      by (cases "k = ob") (auto simp: held_def)
  next
    case (Release ob h2)
    then show ?thesis using l a lock_of_release [of s k l ob h2] by (auto simp: held_def)
  qed
qed

lemma tryAcquire_True_held:
  assumes "tryAcquire ttl now ob h s = (Inr True, t)"
  shows "held t ob h (now + ttl)"
proof (cases "lock_of s ob")
  case None
  with assms show ?thesis
    by (auto simp: tryAcquire_def monad_simps held_def lock_of_append split: if_splits)
next
  case (Some l)
  with assms show ?thesis
    by (auto simp: tryAcquire_def monad_simps held_def lock_of_update split: if_splits)
qed

section \<open>Running under the lease\<close>

definition on_state :: "(db \<Rightarrow> db) \<Rightarrow> db \<times> 'w \<Rightarrow> db \<times> 'w" where
  "on_state f sw = (f (fst sw), snd sw)"

lemma acquire_app [monad_simps]:
  "acquire ttl now ob h s =
     (case tryAcquire ttl now ob h s of
        (Inl e, t) \<Rightarrow> (Inl e, t)
      | (Inr ok, t) \<Rightarrow> if ok then (Inr (), t)
          else (Inl (LeaseUnavailableError ob (case lock_of t ob of None \<Rightarrow> ''unknown'' | Some l \<Rightarrow> lk_holder l)), t))"
  by (auto simp: acquire_def monad_simps split: prod.splits sum.splits)

lemma withLease_refused:
  assumes "held s ob h' x" and "now < x" and "h' \<noteq> h"
  shows "withLease ttl now ob h fn (s, w) = (Inl (LeaseUnavailableError ob h'), (s, w))"
proof -
  from assms obtain l where l: "lock_of s ob = Some l" "lk_holder l = h'" "now < lk_expiry l"
    by (auto simp: held_def)
  then show ?thesis using assms(3) tryAcquire_live [OF l(1,3), of h ttl]
    by (simp add: withLease_def monad_simps)
qed

lemma withLease_run:
  assumes "tryAcquire ttl now ob h s = (Inr True, s1)"
  shows "withLease ttl now ob h fn (s, w) =
    (fst (fn (s1, w)), on_state (\<lambda>s. snd (release ob h s)) (snd (fn (s1, w))))"
  using assms
  by (auto simp: withLease_def monad_simps release_def on_state_def split: prod.splits)

lemma withLease_no_obligation:
  assumes "tryAcquire ttl now ob h s = (Inl e, s1)"
  shows "withLease ttl now ob h fn (s, w) = (Inl e, (s1, w))"
  using assms by (simp add: withLease_def monad_simps)

text \<open>After \<open>withLease\<close> the holder's lease is gone, whether \<open>fn\<close> returned or threw.\<close>

lemma release_not_held: "\<not> held (snd (release ob h s)) ob h x"
proof
  assume "held (snd (release ob h s)) ob h x"
  then obtain l where l: "lock_of (snd (release ob h s)) ob = Some l" and h: "lk_holder l = h"
    by (auto simp: held_def)
  from lock_of_Some [OF l] h show False by (auto simp: release_def monad_simps)
qed

lemma withLease_released:
  "tryAcquire ttl now ob h s = (Inr True, s1) \<Longrightarrow>
     \<not> held (fst (snd (withLease ttl now ob h fn (s, w)))) ob h x"
  by (simp add: withLease_run release_not_held on_state_def split: prod.split)

lemma preserves_tryAcquire:
  assumes "\<And>s l. I s \<Longrightarrow> I (s\<lparr>obligation_locks := l\<rparr>)"
  shows "preserves I (tryAcquire ttl now ob h)"
  unfolding tryAcquire_def
  by (intro preserves_intros preserves_modifyM assms)

lemma preserves_withLease:
  assumes "\<And>s w l. I (s, w) \<Longrightarrow> I (s\<lparr>obligation_locks := l\<rparr>, w)" and "preserves I fn"
  shows "preserves I (withLease ttl now ob h fn)"
  unfolding withLease_def acquire_def release_def
  by (intro preserves_intros preserves_on_db preserves_tryAcquire preserves_modifyM assms)

end
