(* ===== verification/Token_Burn.thy ===== *)
theory Token_Burn
  imports Db
begin

text \<open>
  \<open>packages/engine/src/token-burn.ts\<close>: a token is spent by inserting its nonce into
  \<open>token_burns\<close>, whose primary key is the replay detection.
\<close>

definition burned :: "string \<Rightarrow> db \<Rightarrow> bool" where
  "burned nonce s \<longleftrightarrow> nonce \<in> tb_nonce ` set (token_burns s)"

definition insert_burn :: "burn_row \<Rightarrow> unit dbm" where
  "insert_burn b =
     thenM (guardM (\<lambda>s. \<not> burned (tb_nonce b) s) (UniqueViolation ''token_burns''))
           (modifyM (\<lambda>s. s\<lparr>token_burns := token_burns s @ [b]\<rparr>))"

definition burn :: "int \<Rightarrow> CapabilityToken \<Rightarrow> unit dbm" where
  "burn now token = catchM
     (insert_burn \<lparr>tb_nonce = tk_nonce token, tb_case = tk_caseId token,
                   tb_action = tk_actionId token, tb_at = now\<rparr>)
     (\<lambda>err. case err of UniqueViolation _ \<Rightarrow> throwM (TokenReplayError (tk_nonce token)) | _ \<Rightarrow> throwM err)"

definition isBurned :: "string \<Rightarrow> bool dbm" where
  "isBurned nonce = readM (burned nonce)"

lemma burn_app [monad_simps]:
  "burn now tok s =
     (if burned (tk_nonce tok) s then (Inl (TokenReplayError (tk_nonce tok)), s)
      else (Inr (), s\<lparr>token_burns := token_burns s @
        [\<lparr>tb_nonce = tk_nonce tok, tb_case = tk_caseId tok, tb_action = tk_actionId tok, tb_at = now\<rparr>]\<rparr>))"
  by (simp add: burn_def insert_burn_def monad_simps)

lemma burned_after: "burn now tok s = (Inr (), t) \<Longrightarrow> burned (tk_nonce tok) t"
  by (auto simp: burn_app burned_def split: if_splits)

lemma burn_keeps: "burned n s \<Longrightarrow> burned n (snd (burn now tok s))"
  by (auto simp: burn_app burned_def)

section \<open>Keys that are spent once\<close>

text \<open>
  The interface of an operation that spends a key: it succeeds only on a key nobody
  spent, success marks the key, and no operation takes a mark away. Then in any sequence
  of operations at most one succeeds per key. With a store that refuses nothing else, an
  unspent key is also accepted.
\<close>

locale at_most_once =
  fixes spend :: "'o \<Rightarrow> 's \<Rightarrow> bool \<times> 's" and key :: "'o \<Rightarrow> 'k" and spent :: "'k \<Rightarrow> 's \<Rightarrow> bool"
  assumes won_fresh: "fst (spend a s) \<Longrightarrow> \<not> spent (key a) s"
    and won_marks: "fst (spend a s) \<Longrightarrow> spent (key a) (snd (spend a s))"
    and keeps: "spent k s \<Longrightarrow> spent k (snd (spend a s))"
begin

fun wins :: "'o list \<Rightarrow> 's \<Rightarrow> 'k list" where
  "wins [] s = []"
| "wins (a # as) s = (if fst (spend a s) then [key a] else []) @ wins as (snd (spend a s))"

lemma spent_not_won: "spent k s \<Longrightarrow> k \<notin> set (wins as s)"
  by (induction as arbitrary: s) (auto dest: won_fresh keeps)

lemma wins_distinct: "distinct (wins as s)"
  by (induction as arbitrary: s) (auto dest: won_marks spent_not_won)

end

locale spend_once = at_most_once +
  assumes fresh_wins: "\<not> spent (key a) s \<Longrightarrow> fst (spend a s)"
    and only_own: "\<not> spent k s \<Longrightarrow> k \<noteq> key a \<Longrightarrow> \<not> spent k (snd (spend a s))"
begin

text \<open>Every key that is tried and was not spent before is won by exactly one operation.\<close>

lemma set_wins: "set (wins as s) = {k \<in> key ` set as. \<not> spent k s}"
proof (induction as arbitrary: s)
  case (Cons a as)
  have "fst (spend a s) = (\<not> spent (key a) s)" using fresh_wins won_fresh by blast
  moreover have "spent k (snd (spend a s)) \<longleftrightarrow> spent k s \<or> (k = key a)" for k
    using keeps [of k s a] won_marks [of a s] only_own [of k s a] fresh_wins [of a s] by blast
  ultimately show ?case using Cons.IH [of "snd (spend a s)"] by auto
qed simp

lemma count_list_distinct: "distinct xs \<Longrightarrow> x \<in> set xs \<Longrightarrow> count_list xs x = 1"
  by (induction xs) (auto simp: count_list_0_iff)

lemma wins_unspent: "\<not> spent k s \<Longrightarrow> k \<in> key ` set as \<Longrightarrow> count_list (wins as s) k = 1"
  by (rule count_list_distinct) (simp_all add: wins_distinct set_wins)

end

definition try_burn :: "int \<Rightarrow> CapabilityToken \<Rightarrow> db \<Rightarrow> bool \<times> db" where
  "try_burn now tok s = (case burn now tok s of (Inl _, t) \<Rightarrow> (False, t) | (Inr _, t) \<Rightarrow> (True, t))"

interpretation nonces: spend_once "try_burn now" tk_nonce burned for now
  by unfold_locales (auto simp: try_burn_def burn_app burned_def)

end
