(* ===== verification/Executor.thy ===== *)
theory Executor
  imports Adapter Obligation_Lease Token_Burn
begin

text \<open>
  \<open>packages/engine/src/executor.ts\<close>: one action is executed under the obligation's lease,
  its token is verified and burned, the attempt row is written before the call and settled
  after it. The state is the data base beside the adapter's state.
\<close>

definition idempotencyKey :: "env \<Rightarrow> string \<Rightarrow> string \<Rightarrow> int \<Rightarrow> params \<Rightarrow> string" where
  "idempotencyKey E caseId actionId attemptNo ps =
     hex_encode (sha256 E (join ''|'' [caseId, actionId, int_str attemptNo, hashParams E ps]))"

record ExecuteRequest =
  xr_caseId :: string
  xr_obligationId :: string
  xr_customerId :: string
  xr_actionId :: string
  xr_attemptNo :: int
  xr_params :: params
  xr_token :: CapabilityToken
  xr_amountPaise :: "int option"

record ExecuteResult =
  xs_idemKey :: string
  xs_surface :: ActionSurface
  xs_result :: CallResult

text \<open>\<open>JSON.stringify\<close> of a \<open>CallResult\<close> and of a \<open>PaymentStatus\<close>.\<close>

definition opt_prop :: "string \<Rightarrow> json option \<Rightarrow> params" where
  "opt_prop k v = (case v of None \<Rightarrow> [] | Some x \<Rightarrow> [(k, x)])"

definition result_json :: "CallResult \<Rightarrow> params" where
  "result_json r = [(''ok'', JBool (cr_ok r))] @ opt_prop ''reference'' (map_option JStr (cr_reference r))
     @ [(''detail'', JObj (cr_detail r))]"

definition status_json :: "PaymentStatus \<Rightarrow> params" where
  "status_json p = [(''found'', JBool (ps_found p)), (''captured'', JBool (ps_captured p))]
     @ opt_prop ''amountPaise'' (map_option JNum (ps_amountPaise p))
     @ opt_prop ''reference'' (map_option JStr (ps_reference p))"

definition new_attempt :: "int \<Rightarrow> string \<Rightarrow> ActionSurface \<Rightarrow> ExecuteRequest \<Rightarrow> attempt_row" where
  "new_attempt now k surf req =
     \<lparr>at_case = xr_caseId req, at_obligation = xr_obligationId req, at_action = xr_actionId req,
      at_attemptNo = xr_attemptNo req, at_idem = k, at_surface = surf, at_state = in_flight,
      at_request = xr_params req, at_response = None, at_sent = now, at_settled = None\<rparr>"

definition insert_attempt :: "attempt_row \<Rightarrow> unit dbm" where
  "insert_attempt a =
     thenM (guardM (\<lambda>s. at_idem a \<notin> at_idem ` set (action_attempts s)) (UniqueViolation ''action_attempts''))
    (thenM (fk_case (at_case a))
    (thenM (fk_obligation (at_obligation a))
           (modifyM (\<lambda>s. s\<lparr>action_attempts := action_attempts s @ [a]\<rparr>))))"

definition record_attempt :: "attempt_row \<Rightarrow> unit dbm" where
  "record_attempt a = catchM (insert_attempt a)
     (\<lambda>err. case err of UniqueViolation _ \<Rightarrow> throwM (DuplicateAttemptError (at_idem a)) | _ \<Rightarrow> throwM err)"

definition settle :: "int \<Rightarrow> string \<Rightarrow> attempt_state \<Rightarrow> params \<Rightarrow> unit dbm" where
  "settle now k st resp = modifyM (\<lambda>s. s\<lparr>action_attempts :=
     update_where (\<lambda>a. at_idem a = k)
       (\<lambda>a. a\<lparr>at_state := st, at_response := Some resp, at_settled := Some now\<rparr>) (action_attempts s)\<rparr>)"

definition adapter_call :: "string \<Rightarrow> ExecuteRequest \<Rightarrow> AdapterCall" where
  "adapter_call k req =
     \<lparr>ac_caseId = xr_caseId req, ac_obligationId = xr_obligationId req,
      ac_customerId = xr_customerId req, ac_params = xr_params req, ac_idemKey = k\<rparr>"

definition token_call :: "ExecuteRequest \<Rightarrow> TokenCall" where
  "token_call req =
     \<lparr>tc_actionId = xr_actionId req, tc_params = xr_params req, tc_amountPaise = xr_amountPaise req\<rparr>"

text \<open>What runs under the lease.\<close>

definition admitted ::
  "'w PSPAdapter \<Rightarrow> int \<Rightarrow> CapabilityName \<Rightarrow> string \<Rightarrow> ExecuteRequest \<Rightarrow> ('w, ExecuteResult) iom" where
  "admitted adapter now cap k req =
     thenM (on_db (burn now (xr_token req)))
    (thenM (on_db (record_attempt (new_attempt now k (pa_surface adapter) req)))
    (bindM (on_world (invoke adapter cap (adapter_call k req) (xr_token req))) (\<lambda>result.
     thenM (on_db (settle now k (if cr_ok result then succeeded else failed) (result_json result)))
           (retM \<lparr>xs_idemKey = k, xs_surface = pa_surface adapter, xs_result = result\<rparr>))))"

definition execute ::
  "env \<Rightarrow> 'w PSPAdapter \<Rightarrow> ActionLibrary \<Rightarrow> CapabilityMinter \<Rightarrow> int \<Rightarrow> int \<Rightarrow> ExecuteRequest \<Rightarrow> ('w, ExecuteResult) iom" where
  "execute E adapter lib minter ttlMs now req =
     bindM (liftE (lib_get lib (xr_actionId req))) (\<lambda>action.
       if ad_kind action = schedule
       then throwM (ScheduleActionNotExecutableError (xr_actionId req))
       else (case capability_named (ad_capability action) of
          None \<Rightarrow> throwM (UnsupportedCapabilityError (pa_name adapter) (dflt (ad_capability action) ''undefined''))
        | Some cap \<Rightarrow>
           if cap \<notin> set (pa_capabilities adapter)
           then throwM (UnsupportedCapabilityError (pa_name adapter) (capability_str cap))
           else thenM (liftE (token_verify E minter now (xr_token req) (token_call req)))
             (withLease ttlMs now (xr_obligationId req) (''executor:'' @ xr_caseId req)
               (admitted adapter now cap
                 (idempotencyKey E (xr_caseId req) (xr_actionId req) (xr_attemptNo req) (xr_params req)) req))))"

text \<open>Reconciliation asks the provider about every attempt still in flight, in order of sending.\<close>

definition in_flight_rows :: "db \<Rightarrow> attempt_row list" where
  "in_flight_rows s = sort_key at_sent (filter (\<lambda>a. at_state a = in_flight) (action_attempts s))"

definition reconcile_row :: "'w PSPAdapter \<Rightarrow> int \<Rightarrow> nat \<times> nat \<Rightarrow> string \<Rightarrow> ('w, nat \<times> nat) iom" where
  "reconcile_row adapter now counts k =
     bindM (on_world (pa_fetchPaymentStatus adapter k)) (\<lambda>status.
       if \<not> ps_found status then retM (fst counts, snd counts + 1)
       else thenM (on_db (settle now k reconciled (status_json status)))
                  (retM (fst counts + 1, snd counts)))"

definition reconcile :: "'w PSPAdapter \<Rightarrow> int \<Rightarrow> ('w, nat \<times> nat) iom" where
  "reconcile adapter now =
     bindM (on_db (readM (\<lambda>s. map at_idem (in_flight_rows s)))) (\<lambda>keys.
       foldM (reconcile_row adapter now) (0, 0) keys)"

definition attemptsFor :: "string \<Rightarrow> (string \<times> string \<times> attempt_state \<times> ActionSurface) list dbm" where
  "attemptsFor caseId = readM (\<lambda>s. map (\<lambda>a. (at_idem a, at_action a, at_state a, at_surface a))
     (sort_key at_sent (filter (\<lambda>a. at_case a = caseId) (action_attempts s))))"

section \<open>Steps of an execution\<close>

lemma record_attempt_app [monad_simps]:
  "record_attempt a s =
     (if at_idem a \<in> at_idem ` set (action_attempts s) then (Inl (DuplicateAttemptError (at_idem a)), s)
      else if \<not> has_case (at_case a) s then (Inl (ForeignKeyViolation ''cases''), s)
      else if \<not> has_obligation (at_obligation a) s then (Inl (ForeignKeyViolation ''obligations''), s)
      else (Inr (), s\<lparr>action_attempts := action_attempts s @ [a]\<rparr>))"
  by (simp add: record_attempt_def insert_attempt_def monad_simps)

lemma settle_app [monad_simps]:
  "settle now k st resp s = (Inr (), s\<lparr>action_attempts :=
     update_where (\<lambda>a. at_idem a = k)
       (\<lambda>a. a\<lparr>at_state := st, at_response := Some resp, at_settled := Some now\<rparr>) (action_attempts s)\<rparr>)"
  by (simp add: settle_def monad_simps)

lemma new_attempt_simps [simp]:
  "at_idem (new_attempt now k surf req) = k" "at_state (new_attempt now k surf req) = in_flight"
  "at_case (new_attempt now k surf req) = xr_caseId req"
  "at_obligation (new_attempt now k surf req) = xr_obligationId req"
  by (simp_all add: new_attempt_def)

lemma adapter_call_key [simp]: "ac_idemKey (adapter_call k req) = k"
  by (simp add: adapter_call_def)

lemma settle_idems [simp]:
  "map at_idem (update_where P (\<lambda>a. a\<lparr>at_state := st, at_response := r, at_settled := x\<rparr>) as) = map at_idem as"
  by (simp add: map_update_where)

lemma settle_idem_set [simp]:
  "at_idem ` set (update_where P (\<lambda>a. a\<lparr>at_state := st, at_response := r, at_settled := x\<rparr>) as) = at_idem ` set as"
  using arg_cong [OF settle_idems, of set] by (simp only: set_map)

section \<open>A key reaches the provider at most once\<close>

text \<open>
  \<open>calls_recorded\<close>: the calls written down by the logged adapter are all different and
  each has an attempt row. Executions and reconciliations keep it, whatever they return
  and whatever the provider does.
\<close>

definition calls_recorded :: "db \<times> ('w \<times> string list) \<Rightarrow> bool" where
  "calls_recorded x \<longleftrightarrow> distinct (snd (snd x)) \<and> set (snd (snd x)) \<subseteq> at_idem ` set (action_attempts (fst x))"

lemma calls_recorded_frame:
  "action_attempts t = action_attempts s \<Longrightarrow> calls_recorded (t, w) = calls_recorded (s, w)"
  by (simp add: calls_recorded_def)

lemma preserves_settle: "preserves calls_recorded (on_db (settle now k st resp))"
  by (rule preserves_on_db, rule preservesI) (simp add: monad_simps calls_recorded_def)

lemma admitted_calls_recorded: "preserves calls_recorded (admitted (logged a) now cap k req)"
proof (rule preservesI)
  fix x :: "db \<times> ('a \<times> string list)"
  assume inv: "calls_recorded x"
  obtain s w calls where x: "x = (s, (w, calls))" by (cases x) auto
  let ?row = "new_attempt now k (pa_surface (logged a)) req"
  show "calls_recorded (snd (admitted (logged a) now cap k req x))"
  proof (cases "burned (tk_nonce (xr_token req)) s \<or> k \<in> at_idem ` set (action_attempts s)
      \<or> \<not> has_case (xr_caseId req) s \<or> \<not> has_obligation (xr_obligationId req) s")
    case True
    then show ?thesis using inv x
      by (auto simp: admitted_def monad_simps calls_recorded_def has_case_def has_obligation_def)
  next
    case False
    let ?s1 = "s\<lparr>token_burns := token_burns s @
        [\<lparr>tb_nonce = tk_nonce (xr_token req), tb_case = tk_caseId (xr_token req),
          tb_action = tk_actionId (xr_token req), tb_at = now\<rparr>],
        action_attempts := action_attempts s @ [?row]\<rparr>"
    have pre: "calls_recorded (?s1, (w, calls))" "k \<notin> set calls"
      using inv x False by (auto simp: calls_recorded_def)
    obtain r w' calls' where run: "invoke (logged a) cap (adapter_call k req) (xr_token req) (w, calls) = (r, (w', calls'))"
      by (cases "invoke (logged a) cap (adapter_call k req) (xr_token req) (w, calls)") auto
    have "calls' = calls \<or> calls' = calls @ [k]"
      using invoke_logged [of a cap "adapter_call k req" "xr_token req" w calls] run by simp
    then have post: "calls_recorded (?s1, (w', calls'))"
      using pre by (auto simp: calls_recorded_def)
    have unfold: "admitted (logged a) now cap k req (s, (w, calls)) =
      (case r of Inl e \<Rightarrow> (Inl e, (?s1, (w', calls')))
       | Inr result \<Rightarrow> thenM (on_db (settle now k (if cr_ok result then succeeded else failed) (result_json result)))
           (retM \<lparr>xs_idemKey = k, xs_surface = pa_surface (logged a), xs_result = result\<rparr>) (?s1, (w', calls')))"
      using False run
      by (simp add: admitted_def monad_simps has_case_def has_obligation_def)
    have "preserves calls_recorded (thenM (on_db (settle now k st resp)) (retM y))"
      for st resp and y :: ExecuteResult
      by (intro preserves_intros preserves_settle)
    note tail = preservesD [OF this post]
    show ?thesis
      unfolding x unfold by (cases r) (simp_all only: sum.case snd_conv post tail)
  qed
qed

lemma execute_calls_recorded [preserves_intros]:
  "preserves calls_recorded (execute E (logged a) lib m ttl now req)"
proof -
  have lease: "preserves calls_recorded (withLease ttl now ob h (admitted (logged a) now cap k req))" for ob h cap k
    by (rule preserves_withLease [OF _ admitted_calls_recorded]) (simp add: calls_recorded_def)
  show ?thesis
    unfolding execute_def
    by (intro preserves_intros lease)
qed

lemma reconcile_calls_recorded [preserves_intros]: "preserves calls_recorded (reconcile (logged a) now)"
proof -
  have "preserves calls_recorded (on_world (pa_fetchPaymentStatus (logged a) k))" for k
    using fetch_logged [of a k] by (auto simp: preserves_def on_world_app calls_recorded_def)
  then show ?thesis
    unfolding reconcile_def reconcile_row_def
    by (intro preserves_intros preserves_settle preserves_on_db)
qed

text \<open>Any sequence of executions and reconciliations, at any times and after any failures.\<close>

datatype 'r exec_op = Execute int 'r | Reconcile int

definition run_exec ::
  "env \<Rightarrow> 'w PSPAdapter \<Rightarrow> ActionLibrary \<Rightarrow> CapabilityMinter \<Rightarrow> int \<Rightarrow> ExecuteRequest exec_op \<Rightarrow> db \<times> 'w \<Rightarrow> db \<times> 'w" where
  "run_exec E a lib m ttl x sw =
     (case x of Execute now req \<Rightarrow> snd (execute E a lib m ttl now req sw)
              | Reconcile now \<Rightarrow> snd (reconcile a now sw))"

lemma run_exec_calls_recorded:
  "calls_recorded sw \<Longrightarrow> calls_recorded (fold (run_exec E (logged a) lib m ttl) xs sw)"
proof (induction xs arbitrary: sw)
  case (Cons x xs)
  have "calls_recorded (run_exec E (logged a) lib m ttl x sw)"
    using preservesD [OF execute_calls_recorded Cons.prems] preservesD [OF reconcile_calls_recorded Cons.prems]
    by (cases x) (simp_all add: run_exec_def)
  with Cons.IH show ?case by simp
qed simp

section \<open>What one execution does\<close>

text \<open>Refusals change nothing and reach nobody.\<close>

lemma execute_bad_token:
  assumes "lib_get lib (xr_actionId req) = Inr a" and "ad_kind a = capability"
    and "capability_named (ad_capability a) = Some cap" and "cap \<in> set (pa_capabilities ad)"
    and "token_verify E m now (xr_token req) (token_call req) = Inl e"
  shows "execute E ad lib m ttl now req sw = (Inl e, sw)"
  using assms by (simp add: execute_def monad_simps)

lemma execute_enters:
  assumes "execute E ad lib m ttl now req (s, w) = (r, (t, w'))" and "w' \<noteq> w \<or> r = Inr x"
  shows "\<exists>a cap. lib_get lib (xr_actionId req) = Inr a \<and> ad_kind a = capability
    \<and> capability_named (ad_capability a) = Some cap \<and> cap \<in> set (pa_capabilities ad)
    \<and> token_verify E m now (xr_token req) (token_call req) = Inr ()"
  using assms
  by (cases "lib_get lib (xr_actionId req)")
     (auto simp: execute_def monad_simps split: if_splits option.splits sum.splits intro: ActionKind.exhaust)

text \<open>The data base at the moment of the call: the nonce is burned, the row is in flight.\<close>

definition before_call :: "int \<Rightarrow> ActionSurface \<Rightarrow> string \<Rightarrow> ExecuteRequest \<Rightarrow> db \<Rightarrow> db" where
  "before_call now surf k req s =
     s\<lparr>token_burns := token_burns s @
         [\<lparr>tb_nonce = tk_nonce (xr_token req), tb_case = tk_caseId (xr_token req),
           tb_action = tk_actionId (xr_token req), tb_at = now\<rparr>],
       action_attempts := action_attempts s @ [new_attempt now k surf req]\<rparr>"

lemma admitted_eval:
  assumes "\<not> burned (tk_nonce (xr_token req)) s" and "k \<notin> at_idem ` set (action_attempts s)"
    and "has_case (xr_caseId req) s" and "has_obligation (xr_obligationId req) s"
  shows "admitted ad now cap k req (s, w) =
    (case invoke ad cap (adapter_call k req) (xr_token req) w of
       (Inl e, w') \<Rightarrow> (Inl e, (before_call now (pa_surface ad) k req s, w'))
     | (Inr result, w') \<Rightarrow>
         (Inr \<lparr>xs_idemKey = k, xs_surface = pa_surface ad, xs_result = result\<rparr>,
          (snd (settle now k (if cr_ok result then succeeded else failed) (result_json result)
                  (before_call now (pa_surface ad) k req s)), w')))"
  using assms
  by (auto simp: admitted_def monad_simps before_call_def has_case_def has_obligation_def
      split: prod.split sum.split)

lemma admitted_replay:
  "burned (tk_nonce (xr_token req)) s \<Longrightarrow>
     admitted ad now cap k req (s, w) = (Inl (TokenReplayError (tk_nonce (xr_token req))), (s, w))"
  by (simp add: admitted_def monad_simps)

lemma admitted_duplicate:
  "\<not> burned (tk_nonce (xr_token req)) s \<Longrightarrow> k \<in> at_idem ` set (action_attempts s) \<Longrightarrow>
     fst (admitted ad now cap k req (s, w)) = Inl (DuplicateAttemptError k)
     \<and> snd (snd (admitted ad now cap k req (s, w))) = w
     \<and> action_attempts (fst (snd (admitted ad now cap k req (s, w)))) = action_attempts s"
  by (simp add: admitted_def monad_simps)

section \<open>What reconciliation does\<close>

definition reconciled_row :: "int \<Rightarrow> (string \<Rightarrow> PaymentStatus) \<Rightarrow> attempt_row \<Rightarrow> attempt_row" where
  "reconciled_row now st a =
     (if at_state a = in_flight \<and> ps_found (st (at_idem a))
      then a\<lparr>at_state := reconciled, at_response := Some (status_json (st (at_idem a))), at_settled := Some now\<rparr>
      else a)"

text \<open>The same restricted to the keys already handled.\<close>

definition reconciled_upto :: "int \<Rightarrow> (string \<Rightarrow> PaymentStatus) \<Rightarrow> string set \<Rightarrow> attempt_row \<Rightarrow> attempt_row" where
  "reconciled_upto now st ks a = (if at_idem a \<in> ks then reconciled_row now st a else a)"

lemma reconciled_upto_simps [simp]:
  "at_idem (reconciled_row now st a) = at_idem a" "at_idem (reconciled_upto now st ks a) = at_idem a"
  by (simp_all add: reconciled_row_def reconciled_upto_def)

lemma reconcile_row_eval:
  assumes "\<And>k. pa_fetchPaymentStatus ad k w = (Inr (st k), w)"
  shows "reconcile_row ad now counts k (s, w) =
    (if ps_found (st k)
     then (Inr (fst counts + 1, snd counts), (snd (settle now k reconciled (status_json (st k)) s), w))
     else (Inr (fst counts, snd counts + 1), (s, w)))"
  by (simp add: reconcile_row_def monad_simps assms)

lemma reconcile_fold:
  assumes fetch: "\<And>k. pa_fetchPaymentStatus ad k w = (Inr (st k), w)"
    and rows: "\<forall>a \<in> set rows. at_idem a \<in> set ks \<longrightarrow> at_state a = in_flight"
    and "distinct ks" and "set ks \<inter> ds = {}"
    and "action_attempts s = map (reconciled_upto now st ds) rows"
  shows "\<exists>t. foldM (reconcile_row ad now) counts ks (s, w) =
     (Inr (fst counts + length (filter (\<lambda>k. ps_found (st k)) ks),
           snd counts + length (filter (\<lambda>k. \<not> ps_found (st k)) ks)), (t, w))
     \<and> action_attempts t = map (reconciled_upto now st (ds \<union> set ks)) rows"
  using assms(2-)
proof (induction ks arbitrary: counts s ds)
  case Nil
  then show ?case by (simp add: monad_simps)
next
  case (Cons k ks)
  note row = reconcile_row_eval [OF fetch, of now counts k s]
  have disj: "set ks \<inter> insert k ds = {}" and d: "distinct ks" using Cons.prems(2,3) by auto
  have rows: "\<forall>a \<in> set rows. at_idem a \<in> set ks \<longrightarrow> at_state a = in_flight"
    using Cons.prems(1) by simp
  have un: "insert k ds \<union> set ks = ds \<union> set (k # ks)" by simp
  show ?case
  proof (cases "ps_found (st k)")
    case False
    have "map (reconciled_upto now st ds) rows = map (reconciled_upto now st (insert k ds)) rows"
      using False by (auto simp: reconciled_upto_def reconciled_row_def)
    with Cons.prems(4) have "action_attempts s = map (reconciled_upto now st (insert k ds)) rows" by simp
    from Cons.IH [where counts = "(fst counts, snd counts + 1)", OF rows d disj this] obtain t where
      "foldM (reconcile_row ad now) (fst counts, snd counts + 1) ks (s, w) =
         (Inr (fst counts + length (filter (\<lambda>k. ps_found (st k)) ks),
           snd counts + 1 + length (filter (\<lambda>k. \<not> ps_found (st k)) ks)), (t, w))"
      "action_attempts t = map (reconciled_upto now st (insert k ds \<union> set ks)) rows"
      by auto
    then show ?thesis using False row un by (intro exI [of _ t]) (simp add: bindM_app)
  next
    case True
    let ?s = "snd (settle now k reconciled (status_json (st k)) s)"
    have "action_attempts ?s = map (reconciled_upto now st (insert k ds)) rows"
      unfolding settle_app using True Cons.prems(1,3,4)
      by (auto simp: update_where_def reconciled_upto_def reconciled_row_def)
    from Cons.IH [where counts = "(fst counts + 1, snd counts)", OF rows d disj this] obtain t where
      "foldM (reconcile_row ad now) (fst counts + 1, snd counts) ks (?s, w) =
         (Inr (fst counts + 1 + length (filter (\<lambda>k. ps_found (st k)) ks),
           snd counts + length (filter (\<lambda>k. \<not> ps_found (st k)) ks)), (t, w))"
      "action_attempts t = map (reconciled_upto now st (insert k ds \<union> set ks)) rows"
      by auto
    then show ?thesis using True row un by (intro exI [of _ t]) (simp add: bindM_app)
  qed
qed

lemma reconcile_eval:
  assumes fetch: "\<And>k. pa_fetchPaymentStatus ad k w = (Inr (st k), w)"
    and keys: "distinct (map at_idem (action_attempts s))"
  shows "\<exists>t. reconcile ad now (s, w) =
     (Inr (length (filter (\<lambda>a. ps_found (st (at_idem a))) (in_flight_rows s)),
           length (filter (\<lambda>a. \<not> ps_found (st (at_idem a))) (in_flight_rows s))), (t, w))
     \<and> action_attempts t = map (reconciled_row now st) (action_attempts s)"
proof -
  let ?ks = "map at_idem (in_flight_rows s)" and ?rows = "action_attempts s"
  have inj: "inj_on at_idem (set ?rows)" using keys by (simp add: distinct_map)
  have fl: "set (in_flight_rows s) = {a \<in> set ?rows. at_state a = in_flight}"
    by (auto simp: in_flight_rows_def)
  have d: "distinct ?ks"
    using keys by (auto simp: in_flight_rows_def distinct_map intro: inj_on_subset)
  have only: "\<forall>a \<in> set ?rows. at_idem a \<in> set ?ks \<longrightarrow> at_state a = in_flight"
    using fl inj by (auto dest: inj_onD)
  have disj: "set ?ks \<inter> {} = {}" by simp
  have start: "?rows = map (reconciled_upto now st {}) ?rows"
    by (simp add: reconciled_upto_def map_idI)
  obtain t where t: "foldM (reconcile_row ad now) (0, 0) ?ks (s, w) =
     (Inr (length (filter (\<lambda>k. ps_found (st k)) ?ks), length (filter (\<lambda>k. \<not> ps_found (st k)) ?ks)), (t, w))"
    and rows: "action_attempts t = map (reconciled_upto now st (set ?ks)) ?rows"
    using reconcile_fold [where counts = "(0, 0)", OF fetch only d disj start] by auto
  have "reconciled_upto now st (set ?ks) a = reconciled_row now st a" if "a \<in> set ?rows" for a
    using that fl by (auto simp: reconciled_upto_def reconciled_row_def)
  with rows have "action_attempts t = map (reconciled_row now st) ?rows" by simp
  with t show ?thesis
    by (simp add: reconcile_def monad_simps filter_map o_def)
qed

end
