(* ===== verification/Reconciler.thy ===== *)
theory Reconciler
  imports Case_Manager Executor
begin

text \<open>
  \<open>packages/engine/src/reconciler.ts\<close>: matching money received to the obligation it
  settles, by idempotency key, then virtual account, then reference.
\<close>

record InboundSettlement =
  ib_id :: string
  ib_merchantId :: string
  ib_amountPaise :: int
  ib_source :: string
  ib_reference :: "string option"
  ib_idemKey :: "string option"
  ib_virtualAccount :: "string option"

record MatchResult =
  mr_settlementId :: string
  mr_obligationId :: "string option"
  mr_matchedBy :: MatchStrategy

text \<open>The three queries of \<open>#match\<close>, each only asked for a non-empty text.\<close>

definition by_key :: "db \<Rightarrow> string option \<Rightarrow> string option" where
  "by_key s k = (if truthy k
     then map_option at_obligation (find (\<lambda>a. Some (at_idem a) = k) (action_attempts s)) else None)"

definition by_account :: "db \<Rightarrow> string \<Rightarrow> string option \<Rightarrow> string option" where
  "by_account s m v = (if truthy v
     then (case sort_key ob_due (filter (\<lambda>r. ob_virtual_account r = v \<and> ob_merchant r = m
                  \<and> ob_state r \<noteq> ''settled'') (obligations s)) of [] \<Rightarrow> None | r # _ \<Rightarrow> Some (ob_id r))
     else None)"

definition by_ref :: "db \<Rightarrow> string \<Rightarrow> string option \<Rightarrow> string option" where
  "by_ref s m ref = (if truthy ref
     then map_option ob_id (find (\<lambda>r. Some (ob_ref r) = ref \<and> ob_merchant r = m) (obligations s)) else None)"

definition match_settlement :: "InboundSettlement \<Rightarrow> db \<Rightarrow> MatchResult" where
  "match_settlement x s =
     (case by_key s (ib_idemKey x) of
        Some ob \<Rightarrow> \<lparr>mr_settlementId = ib_id x, mr_obligationId = Some ob, mr_matchedBy = by_idem_key\<rparr>
      | None \<Rightarrow>
     (case by_account s (ib_merchantId x) (ib_virtualAccount x) of
        Some ob \<Rightarrow> \<lparr>mr_settlementId = ib_id x, mr_obligationId = Some ob, mr_matchedBy = by_virtual_account\<rparr>
      | None \<Rightarrow>
     (case by_ref s (ib_merchantId x) (ib_reference x) of
        Some ob \<Rightarrow> \<lparr>mr_settlementId = ib_id x, mr_obligationId = Some ob, mr_matchedBy = by_reference\<rparr>
      | None \<Rightarrow> \<lparr>mr_settlementId = ib_id x, mr_obligationId = None, mr_matchedBy = unmatched\<rparr>)))"

definition settlement_of :: "int \<Rightarrow> InboundSettlement \<Rightarrow> MatchResult \<Rightarrow> settlement_row" where
  "settlement_of now x m =
     \<lparr>st_id = ib_id x, st_merchant = ib_merchantId x, st_obligation = mr_obligationId m,
      st_amount = ib_amountPaise x, st_reference = ib_reference x, st_idem = ib_idemKey x,
      st_virtual_account = ib_virtualAccount x, st_source = ib_source x,
      st_matchedBy = mr_matchedBy m, st_received = now\<rparr>"

text \<open>\<open>INSERT ... ON CONFLICT (id) DO NOTHING\<close>; the partial unique index on \<open>idem_key\<close> still throws.\<close>

definition insert_settlement :: "settlement_row \<Rightarrow> unit dbm" where
  "insert_settlement r =
     thenM (guardM (\<lambda>_. 0 < st_amount r) (CheckViolation ''amount_paise''))
    (bindM (readM (\<lambda>s. st_id r \<in> st_id ` set (settlements s))) (\<lambda>dup.
       if dup then retM ()
       else thenM (guardM (\<lambda>s. st_idem r = None \<or> st_idem r \<notin> st_idem ` set (settlements s))
                     (UniqueViolation ''settlements_idem_idx''))
           (thenM (guardM (\<lambda>s. st_merchant r \<in> set (merchants s)) (ForeignKeyViolation ''merchants''))
           (thenM (case st_obligation r of None \<Rightarrow> retM () | Some ob \<Rightarrow> fk_obligation ob)
                  (modifyM (\<lambda>s. s\<lparr>settlements := settlements s @ [r]\<rparr>))))))"

definition rc_record :: "int \<Rightarrow> InboundSettlement \<Rightarrow> MatchResult dbm" where
  "rc_record now x =
     bindM (readM (match_settlement x)) (\<lambda>m.
     thenM (insert_settlement (settlement_of now x m)) (retM m))"

definition settled_total :: "db \<Rightarrow> string \<Rightarrow> int" where
  "settled_total s ob = sum_list (map st_amount (filter (\<lambda>r. st_obligation r = Some ob) (settlements s)))"

definition settledAmount :: "string \<Rightarrow> int dbm" where
  "settledAmount ob = readM (\<lambda>s. settled_total s ob)"

definition rc_unmatched :: "(string \<times> int \<times> string) list dbm" where
  "rc_unmatched = readM (\<lambda>s. map (\<lambda>r. (st_id r, st_amount r, st_source r))
     (sort_key st_received (filter (\<lambda>r. st_obligation r = None) (settlements s))))"

section \<open>Matching\<close>

text \<open>The priority of the strategies, and that only an existing obligation is matched.\<close>

lemma match_priority:
  "mr_obligationId (match_settlement x s) =
     (case by_key s (ib_idemKey x) of Some ob \<Rightarrow> Some ob
      | None \<Rightarrow> (case by_account s (ib_merchantId x) (ib_virtualAccount x) of Some ob \<Rightarrow> Some ob
      | None \<Rightarrow> by_ref s (ib_merchantId x) (ib_reference x)))"
  by (auto simp: match_settlement_def split: option.splits)

lemma by_account_Some:
  assumes "by_account s m v = Some ob"
  shows "\<exists>r \<in> set (obligations s). ob_id r = ob \<and> ob_merchant r = m \<and> ob_virtual_account r = v \<and> ob_state r \<noteq> ''settled''"
proof -
  from assms obtain r rs where
    "sort_key ob_due (filter (\<lambda>r. ob_virtual_account r = v \<and> ob_merchant r = m \<and> ob_state r \<noteq> ''settled'') (obligations s)) = r # rs"
    and ob: "ob_id r = ob" by (auto simp: by_account_def split: if_splits list.splits)
  then have "r \<in> set (sort_key ob_due (filter (\<lambda>r. ob_virtual_account r = v \<and> ob_merchant r = m \<and> ob_state r \<noteq> ''settled'') (obligations s)))"
    by simp
  with ob show ?thesis by auto
qed

lemma by_ref_Some:
  "by_ref s m ref = Some ob \<Longrightarrow> \<exists>r \<in> set (obligations s). ob_id r = ob \<and> ob_merchant r = m \<and> Some (ob_ref r) = ref"
  by (auto simp: by_ref_def dest!: find_SomeD split: if_splits)

lemma by_key_Some:
  "by_key s k = Some ob \<Longrightarrow> \<exists>a \<in> set (action_attempts s). Some (at_idem a) = k \<and> at_obligation a = ob"
  by (auto simp: by_key_def dest!: find_SomeD split: if_splits)

lemma match_unmatched: "mr_obligationId (match_settlement x s) = None \<longleftrightarrow> mr_matchedBy (match_settlement x s) = unmatched"
  by (auto simp: match_settlement_def split: option.splits)

section \<open>Recording\<close>

definition settlement_keys :: "db \<Rightarrow> bool" where
  "settlement_keys s \<longleftrightarrow> distinct (map st_id (settlements s)) \<and> (\<forall>r \<in> set (settlements s). 0 < st_amount r)"

lemma settled_total_nonneg: "settlement_keys s \<Longrightarrow> 0 \<le> settled_total s ob"
  unfolding settled_total_def settlement_keys_def
  by (rule sum_list_nonneg) (auto simp: less_imp_le)

lemma rc_record_Inr:
  assumes "rc_record now x s = (Inr m, t)"
  shows "m = match_settlement x s \<and> 0 < ib_amountPaise x \<and>
    (if ib_id x \<in> st_id ` set (settlements s) then t = s
     else t = s\<lparr>settlements := settlements s @ [settlement_of now x m]\<rparr>)"
  using assms
  by (auto simp: rc_record_def insert_settlement_def monad_simps settlement_of_def split: if_splits option.splits sum.splits)

lemma rc_record_keys: "preserves settlement_keys (rc_record now x)"
proof (rule preservesI)
  fix s assume "settlement_keys s"
  then show "settlement_keys (snd (rc_record now x s))"
    by (auto simp: rc_record_def insert_settlement_def monad_simps settlement_keys_def settlement_of_def
        split: option.splits sum.splits)
qed

text \<open>A settlement delivered again is recorded once.\<close>

lemma rc_record_redelivered:
  assumes "ib_id x \<in> st_id ` set (settlements s)" and "0 < ib_amountPaise x"
  shows "rc_record now x s = (Inr (match_settlement x s), s)"
  using assms by (simp add: rc_record_def insert_settlement_def monad_simps settlement_of_def)

lemma settled_total_append:
  "settled_total (s\<lparr>settlements := settlements s @ [r]\<rparr>) ob =
     settled_total s ob + (if st_obligation r = Some ob then st_amount r else 0)"
  by (simp add: settled_total_def)

lemma settlement_of_simps [simp]:
  "st_id (settlement_of now x m) = ib_id x" "st_amount (settlement_of now x m) = ib_amountPaise x"
  "st_obligation (settlement_of now x m) = mr_obligationId m"
  by (simp_all add: settlement_of_def)

lemma rc_record_total:
  assumes "rc_record now x s = (Inr m, t)"
  shows "settled_total t ob = settled_total s ob +
    (if ib_id x \<notin> st_id ` set (settlements s) \<and> mr_obligationId m = Some ob then ib_amountPaise x else 0)"
  using rc_record_Inr [OF assms] by (auto simp: settled_total_append split: if_splits)

lemma rc_record_frame:
  assumes "rc_record now x s = (r, t)"
  shows "case_rows t = case_rows s \<and> obligations t = obligations s \<and> case_events t = case_events s
    \<and> case_revisions t = case_revisions s \<and> scheduled_actions t = scheduled_actions s
    \<and> (\<forall>ob. settled_total s ob \<le> settled_total t ob)"
  using assms
  by (auto simp: rc_record_def insert_settlement_def monad_simps settled_total_append settlement_of_def
      split: if_splits option.splits sum.splits)

end
