(* ===== verification/Verifier.thy ===== *)
theory Verifier
  imports Reconciler
begin

text \<open>
  \<open>packages/engine/src/verifier.ts\<close>: whether money arrived, and what that does to the
  case. The statements of \<open>onSettlement\<close> are not in one transaction, so what was written
  before a throw stays.
\<close>

datatype VerificationOutcome = recovered int | partial int int | unmatched_outcome | no_open_case

datatype OutcomeResult = result_succeeded | result_failed | opted_out | disputed

fun result_str :: "OutcomeResult \<Rightarrow> string" where
  "result_str result_succeeded = ''succeeded''"
| "result_str result_failed = ''failed''"
| "result_str opted_out = ''opted_out''"
| "result_str disputed = ''disputed''"

fun strategy_str :: "MatchStrategy \<Rightarrow> string" where
  "strategy_str by_idem_key = ''idem_key''"
| "strategy_str by_virtual_account = ''virtual_account''"
| "strategy_str by_reference = ''reference''"
| "strategy_str unmatched = ''unmatched''"

record OutcomeSignal =
  os_caseId :: string
  os_result :: OutcomeResult
  os_detail :: "params option"

text \<open>The join of the case with its obligation: the oldest live case and what is owed.\<close>

definition live_case_owing :: "db \<Rightarrow> string \<Rightarrow> (string \<times> int) option" where
  "live_case_owing s ob =
     (case open_case_for s ob of None \<Rightarrow> None
      | Some r \<Rightarrow> map_option (\<lambda>b. (cs_id r, ob_amount b)) (find (\<lambda>b. ob_id b = ob) (obligations s)))"

definition settle_obligation :: "string \<Rightarrow> unit dbm" where
  "settle_obligation ob = modifyM (\<lambda>s. s\<lparr>obligations :=
     update_where (\<lambda>b. ob_id b = ob) (\<lambda>b. b\<lparr>ob_state := ''settled''\<rparr>) (obligations s)\<rparr>)"

definition settlement_payload :: "int \<Rightarrow> int \<Rightarrow> MatchResult \<Rightarrow> params" where
  "settlement_payload settled owed m =
     [(''settled'', JInt settled), (''owed'', JInt owed), (''matchedBy'', JStr (strategy_str (mr_matchedBy m)))]"

definition close_recovered :: "int \<Rightarrow> InboundSettlement \<Rightarrow> MatchResult \<Rightarrow> string \<Rightarrow> string \<Rightarrow> int \<Rightarrow> int \<Rightarrow> VerificationOutcome dbm" where
  "close_recovered now x m ob c settled owed =
     thenM (settle_obligation ob)
    (thenM (event_append now c
              (terminal_reached RECOVERED (''settled_via_'' @ strategy_str (mr_matchedBy m))) ''verifier'')
    (thenM (ledger_append now c ''verifier'' ''recovered''
              (settlement_payload settled owed m @ [(''settlementId'', JStr (ib_id x))]))
           (retM (recovered settled))))"

definition onSettlement :: "int \<Rightarrow> InboundSettlement \<Rightarrow> VerificationOutcome dbm" where
  "onSettlement now x =
     bindM (rc_record now x) (\<lambda>m.
       case mr_obligationId m of
         None \<Rightarrow> retM unmatched_outcome
       | Some ob \<Rightarrow>
           if ob = [] then retM unmatched_outcome
           else bindM (readM (\<lambda>s. live_case_owing s ob)) (\<lambda>row.
             case row of
               None \<Rightarrow> retM no_open_case
             | Some (c, owed) \<Rightarrow>
                 bindM (settledAmount ob) (\<lambda>settled.
                   if settled < owed
                   then thenM (ledger_append now c ''verifier'' ''partial_settlement'' (settlement_payload settled owed m))
                              (retM (partial settled owed))
                   else close_recovered now x m ob c settled owed)))"

fun outcome_event :: "OutcomeResult \<Rightarrow> CaseEvent" where
  "outcome_event opted_out = terminal_reached OPTED_OUT ''opted_out''"
| "outcome_event disputed = terminal_reached DISPUTED ''disputed''"
| "outcome_event r = outcome_observed (result_str r)"

definition onOutcome :: "int \<Rightarrow> OutcomeSignal \<Rightarrow> unit dbm" where
  "onOutcome now sig =
     thenM (event_append now (os_caseId sig) (outcome_event (os_result sig)) ''verifier'')
           (ledger_append now (os_caseId sig) ''verifier'' (''outcome_'' @ result_str (os_result sig))
              (dflt (os_detail sig) []))"

definition exhaust :: "int \<Rightarrow> string \<Rightarrow> string \<Rightarrow> unit dbm" where
  "exhaust now c reason =
     thenM (event_append now c (terminal_reached UNRECOVERABLE reason) ''verifier'')
           (ledger_append now c ''verifier'' ''unrecoverable'' [(''reason'', JStr reason)])"

section \<open>Recovered means paid\<close>

text \<open>
  \<open>paid_inv\<close>: every case in RECOVERED has an obligation whose matched settlements cover
  the amount owed.
\<close>

definition covered :: "db \<Rightarrow> string \<Rightarrow> bool" where
  "covered s ob \<longleftrightarrow> (\<exists>b \<in> set (obligations s). ob_id b = ob \<and> ob_amount b \<le> settled_total s ob)"

definition paid_inv :: "db \<Rightarrow> bool" where
  "paid_inv s \<longleftrightarrow> case_inv s \<and> (\<forall>r \<in> set (case_rows s). cs_state r = RECOVERED \<longrightarrow> covered s (cs_obligation r))"

lemma case_inv_frame:
  "case_inv s \<Longrightarrow> case_rows t = case_rows s \<Longrightarrow> case_events t = case_events s \<Longrightarrow>
     case_revisions t = case_revisions s \<Longrightarrow> obligations t = obligations s \<Longrightarrow> case_inv t"
  using store_inv_cong [of t s] by (simp add: case_inv_def one_live_def obligation_keys_def)

lemma paid_inv_frame:
  assumes "paid_inv s" and "case_rows t = case_rows s" "case_events t = case_events s"
    "case_revisions t = case_revisions s" "obligations t = obligations s"
    and "\<And>ob. settled_total s ob \<le> settled_total t ob"
  shows "paid_inv t"
proof -
  have "covered t ob" if "covered s ob" for ob
    using that assms(5) assms(6) [of ob] by (auto simp: covered_def intro: order_trans)
  then show ?thesis using assms case_inv_frame [of s t] by (auto simp: paid_inv_def)
qed

lemma preserves_paid_ledger [preserves_intros]: "preserves paid_inv (ledger_append now c a ty p)"
proof (rule preserves_ledger_append)
  fix s l assume "paid_inv s"
  then show "paid_inv (s\<lparr>ledger := l\<rparr>)" by (rule paid_inv_frame) (simp_all add: settled_total_def)
qed

lemma rc_record_paid [preserves_intros]: "preserves paid_inv (rc_record now x)"
proof (rule preservesI)
  fix s assume inv: "paid_inv s"
  obtain r t where run: "rc_record now x s = (r, t)" by (cases "rc_record now x s")
  from rc_record_frame [OF run] have "paid_inv t" using paid_inv_frame [OF inv, of t] by simp
  with run show "paid_inv (snd (rc_record now x s))" by simp
qed

lemma settle_obligation_paid [preserves_intros]: "preserves paid_inv (settle_obligation ob)"
  unfolding settle_obligation_def
proof (rule preserves_modifyM)
  fix s assume inv: "paid_inv s"
  let ?t = "s\<lparr>obligations := update_where (\<lambda>b. ob_id b = ob) (\<lambda>b. b\<lparr>ob_state := ''settled''\<rparr>) (obligations s)\<rparr>"
  have keys: "map ob_id (obligations ?t) = map ob_id (obligations s)"
    "map (\<lambda>r. (ob_merchant r, ob_ref r)) (obligations ?t) = map (\<lambda>r. (ob_merchant r, ob_ref r)) (obligations s)"
    by (simp_all add: map_update_where)
  have "case_inv ?t" using inv keys by (simp add: paid_inv_def case_inv_def one_live_def obligation_keys_def)
  moreover have "covered ?t o'" if c: "covered s o'" for o'
  proof -
    from c obtain b where b: "b \<in> set (obligations s)" "ob_id b = o'" "ob_amount b \<le> settled_total s o'"
      by (auto simp: covered_def)
    let ?b = "if ob_id b = ob then b\<lparr>ob_state := ''settled''\<rparr> else b"
    have "?b \<in> set (obligations ?t)" using b(1) by (auto simp: set_update_where)
    with b(2,3) show ?thesis unfolding covered_def
      by (intro bexI [of _ ?b]) (auto simp: settled_total_def)
  qed
  ultimately show "paid_inv ?t" using inv by (auto simp: paid_inv_def)
qed

text \<open>Appending keeps the invariant when the event does not recover the case, or the case is covered.\<close>

lemma append_row:
  assumes "store_inv s" and "event_append now c ev src s = (Inr (stored, rvn), t)"
    and "q \<in> set (case_rows t)"
  shows "\<exists>r \<in> set (case_rows s). cs_id q = cs_id r \<and> cs_obligation q = cs_obligation r \<and>
    (if cs_id r = c then cs_state q = targetState ev (cs_state r) else q = r)"
proof -
  from event_append_Inr [OF assms(1,2)] obtain r0 where r0: "case_of s c = Some r0"
    and t: "t = appended now c stored rvn s" by blast
  from assms(3) t obtain r where r: "r \<in> set (case_rows s)"
    and q: "q = (if cs_id r = c then write_revision rvn now (r\<lparr>cs_next_seq := cs_next_seq r + 1\<rparr>) else r)"
    by (auto dest!: in_update_where)
  have "cs_state q = targetState ev (cs_state r)" if "cs_id r = c"
  proof -
    have "case_of s c = Some r" using case_of_distinct [of s r] r that assms(1) by (simp add: store_inv_def)
    from append_legal [OF assms(1,2) this] q that show ?thesis by (simp add: write_revision_def)
  qed
  with r q show ?thesis by (auto simp: write_revision_def)
qed

lemma targetState_RECOVERED:
  "targetState ev st = RECOVERED \<Longrightarrow> (\<exists>why. ev = terminal_reached RECOVERED why) \<or> st = RECOVERED"
  by (cases ev) (auto split: if_splits)

lemma event_append_paid:
  assumes inv: "paid_inv s"
    and ok: "(\<exists>why. ev = terminal_reached RECOVERED why) \<Longrightarrow> \<exists>r. case_of s c = Some r \<and> covered s (cs_obligation r)"
  shows "paid_inv (snd (event_append now c ev src s))"
proof (cases "event_append now c ev src s")
  case (Pair x t)
  have ci: "case_inv s" and si: "store_inv s" using inv by (auto simp: paid_inv_def case_inv_def)
  show ?thesis
  proof (cases x)
    case (Inl e)
    with Pair inv show ?thesis by (auto dest: event_append_rollback)
  next
    case (Inr p)
    obtain stored rvn where run: "event_append now c ev src s = (Inr (stored, rvn), t)"
      using Pair Inr by (cases p) auto
    from event_append_Inr [OF si run] have t: "t = appended now c stored rvn s" by blast
    have cov: "covered t ob = covered s ob" for ob by (simp add: t covered_def settled_total_def)
    have "covered s (cs_obligation q)" if q: "q \<in> set (case_rows t)" "cs_state q = RECOVERED" for q
    proof -
      from append_row [OF si run q(1)] obtain r where r: "r \<in> set (case_rows s)" "cs_obligation q = cs_obligation r"
        "if cs_id r = c then cs_state q = targetState ev (cs_state r) else q = r" by blast
      show ?thesis
      proof (cases "cs_id r = c \<and> cs_state r \<noteq> RECOVERED")
        case True
        with r(3) q(2) targetState_RECOVERED have "\<exists>why. ev = terminal_reached RECOVERED why" by metis
        from ok [OF this] obtain r' where r': "case_of s c = Some r'" "covered s (cs_obligation r')" by blast
        moreover have "case_of s c = Some r" using case_of_distinct [of s r] r(1) True si by (simp add: store_inv_def)
        ultimately show ?thesis using r(2) by simp
      next
        case False
        then have "cs_state r = RECOVERED" using r(3) q(2) by (auto split: if_splits)
        with inv r show ?thesis by (simp add: paid_inv_def)
      qed
    qed
    with cov case_inv_appended [OF ci run] run show ?thesis by (simp add: paid_inv_def)
  qed
qed

lemma event_append_paid_other:
  "(\<And>why. ev \<noteq> terminal_reached RECOVERED why) \<Longrightarrow> preserves paid_inv (event_append now c ev src)"
  by (rule preservesI, rule event_append_paid) auto

lemma onOutcome_paid [preserves_intros]: "preserves paid_inv (onOutcome now sig)"
  unfolding onOutcome_def
  by (intro preserves_intros event_append_paid_other) (cases "os_result sig"; simp)

lemma exhaust_paid [preserves_intros]: "preserves paid_inv (exhaust now c reason)"
  unfolding exhaust_def by (intro preserves_intros event_append_paid_other) simp

lemma live_case_owing_Some:
  assumes "live_case_owing s ob = Some (c, owed)"
  shows "\<exists>r b. r \<in> set (case_rows s) \<and> cs_id r = c \<and> live_on ob r \<and> b \<in> set (obligations s)
    \<and> ob_id b = ob \<and> ob_amount b = owed \<and> open_case_for s ob = Some r"
  using assms
  by (auto simp: live_case_owing_def split: option.splits dest: find_SomeD open_case_for_Some)

lemma close_recovered_paid:
  assumes inv: "paid_inv s" and row: "live_case_owing s ob = Some (c, owed)" and enough: "owed \<le> settled_total s ob"
  shows "paid_inv (snd (close_recovered now x m ob c settled owed s))"
proof -
  let ?s1 = "snd (settle_obligation ob s)"
  have inv1: "paid_inv ?s1" using preservesD [OF settle_obligation_paid inv] .
  from live_case_owing_Some [OF row] obtain r b where
    r: "r \<in> set (case_rows s)" "cs_id r = c" "live_on ob r" and b: "b \<in> set (obligations s)" "ob_id b = ob" "ob_amount b = owed"
    by blast
  have "case_of ?s1 c = Some r"
    using case_of_distinct [of s r] r inv by (simp add: paid_inv_def case_inv_def store_inv_def settle_obligation_def monad_simps case_of_def)
  moreover have "covered ?s1 (cs_obligation r)"
  proof -
    have "b\<lparr>ob_state := ''settled''\<rparr> \<in> set (obligations ?s1)"
      using b by (auto simp: settle_obligation_def monad_simps set_update_where)
    moreover have "settled_total ?s1 ob = settled_total s ob"
      by (simp add: settle_obligation_def monad_simps settled_total_def)
    ultimately show ?thesis using r(3) b enough
      unfolding covered_def live_on_def by (intro bexI [of _ "b\<lparr>ob_state := ''settled''\<rparr>"]) auto
  qed
  ultimately have "paid_inv (snd (event_append now c (terminal_reached RECOVERED why) ''verifier'' ?s1))" for why
    using event_append_paid [OF inv1] by blast
  then have "paid_inv (snd (thenM (event_append now c (terminal_reached RECOVERED why) ''verifier'')
      (thenM (ledger_append now c a ty p) (retM (recovered settled))) ?s1))" for why a ty p
    by (rule thenM_keeps) (intro preserves_intros)
  then show ?thesis
    by (simp add: close_recovered_def settle_obligation_def thenM_modifyM modifyM_app)
qed

lemma onSettlement_paid [preserves_intros]: "preserves paid_inv (onSettlement now x)"
proof (rule preservesI)
  fix s assume inv: "paid_inv s"
  obtain r t where run: "rc_record now x s = (r, t)" by (cases "rc_record now x s")
  have t: "paid_inv t" using preserves_run [OF rc_record_paid run inv] .
  show "paid_inv (snd (onSettlement now x s))"
  proof (cases r)
    case (Inl e)
    with run t show ?thesis by (simp add: onSettlement_def bindM_app)
  next
    case (Inr m)
    show ?thesis
    proof (cases "mr_obligationId m")
      case None
      with run t Inr show ?thesis by (simp add: onSettlement_def monad_simps)
    next
      case (Some ob)
      show ?thesis
      proof (cases "ob = [] \<or> live_case_owing t ob = None")
        case True
        with run t Inr Some show ?thesis by (auto simp: onSettlement_def monad_simps)
      next
        case False
        then obtain c owed where row: "live_case_owing t ob = Some (c, owed)" by auto
        have run': "onSettlement now x s =
          (if settled_total t ob < owed
           then thenM (ledger_append now c ''verifier'' ''partial_settlement'' (settlement_payload (settled_total t ob) owed m))
                  (retM (partial (settled_total t ob) owed)) t
           else close_recovered now x m ob c (settled_total t ob) owed t)"
          using run Inr Some False row by (simp add: onSettlement_def bindM_app readM_app settledAmount_def)
        have "preserves paid_inv (thenM (ledger_append now c a ty p) (retM y))" for a ty p and y :: VerificationOutcome
          by (intro preserves_intros)
        from preservesD [OF this t] close_recovered_paid [OF t row] show ?thesis
          unfolding run' by (simp add: not_less)
      qed
    qed
  qed
qed

end
