(* ===== verification/Intent_Router.thy ===== *)
theory Intent_Router
  imports Verifier
begin

text \<open>
  \<open>packages/engine/src/intent-router.ts\<close>: what an interpreted customer reply does, and
  the settling of promises to pay. The random promise id is an argument.
\<close>

datatype CustomerIntent = will_pay | will_update | dispute | opt_out | missing_po | unknown_intent

record IntentContext =
  ix_caseId :: string
  ix_obligationId :: string
  ix_amountPaise :: int
  ix_promisedFor :: "int option"

datatype IntentOutcome =
    terminal_outcome CaseState string
  | record_promise string int
  | request_information string string
  | continue_outcome string

definition insert_promise :: "promise_row \<Rightarrow> unit dbm" where
  "insert_promise p =
     thenM (guardM (\<lambda>s. pm_id p \<notin> pm_id ` set (promises_to_pay s)) (UniqueViolation ''promises_to_pay''))
    (thenM (fk_case (pm_case p))
    (thenM (fk_obligation (pm_obligation p))
           (modifyM (\<lambda>s. s\<lparr>promises_to_pay := promises_to_pay s @ [p]\<rparr>))))"

definition new_promise :: "int \<Rightarrow> string \<Rightarrow> int \<Rightarrow> IntentContext \<Rightarrow> promise_row" where
  "new_promise now promiseId promisedFor ctx =
     \<lparr>pm_id = promiseId, pm_case = ix_caseId ctx, pm_obligation = ix_obligationId ctx,
      pm_promised_at = now, pm_promised_for = promisedFor, pm_amount = ix_amountPaise ctx,
      pm_state = promise_open, pm_settled = None\<rparr>"

definition ir_route ::
  "env \<Rightarrow> int \<Rightarrow> int \<Rightarrow> string \<Rightarrow> CustomerIntent \<Rightarrow> IntentContext \<Rightarrow> IntentOutcome dbm" where
  "ir_route E promiseGraceMs now promiseId intent ctx =
     (case intent of
        dispute \<Rightarrow>
          thenM (onOutcome now \<lparr>os_caseId = ix_caseId ctx, os_result = disputed, os_detail = None\<rparr>)
                (retM (terminal_outcome DISPUTED ''customer disputed the obligation''))
      | opt_out \<Rightarrow>
          thenM (onOutcome now \<lparr>os_caseId = ix_caseId ctx, os_result = opted_out, os_detail = None\<rparr>)
                (retM (terminal_outcome OPTED_OUT ''customer opted out of contact''))
      | will_pay \<Rightarrow>
          (let promisedFor = dflt (ix_promisedFor ctx) (now + promiseGraceMs) in
           thenM (insert_promise (new_promise now promiseId promisedFor ctx))
          (thenM (ledger_append now (ix_caseId ctx) ''intent_router'' ''promise_recorded''
                    [(''promiseId'', JStr promiseId), (''promisedFor'', JStr (to_iso E promisedFor)),
                     (''note'', JStr ''evidence, not recovered money'')])
                 (retM (record_promise promiseId promisedFor))))
      | missing_po \<Rightarrow>
          thenM (ledger_append now (ix_caseId ctx) ''intent_router'' ''information_requested''
                   [(''field'', JStr ''purchase_order''), (''template'', JStr ''EM_PO_REQUEST'')])
                (retM (request_information ''purchase_order'' ''EM_PO_REQUEST''))
      | will_update \<Rightarrow> retM (continue_outcome ''customer intends to update their payment method'')
      | unknown_intent \<Rightarrow> retM (continue_outcome ''no actionable intent extracted''))"

definition promise_due :: "int \<Rightarrow> promise_row \<Rightarrow> bool" where
  "promise_due now p \<longleftrightarrow> pm_state p = promise_open \<and> pm_promised_for p \<le> now"

definition has_settlement :: "db \<Rightarrow> string \<Rightarrow> bool" where
  "has_settlement s ob \<longleftrightarrow> (\<exists>r \<in> set (settlements s). st_obligation r = Some ob)"

definition settle_promise :: "int \<Rightarrow> nat \<times> nat \<Rightarrow> promise_row \<Rightarrow> (nat \<times> nat) dbm" where
  "settle_promise now counts p =
     bindM (readM (\<lambda>s. has_settlement s (pm_obligation p))) (\<lambda>wasKept.
     thenM (modifyM (\<lambda>s. s\<lparr>promises_to_pay := update_where (\<lambda>q. pm_id q = pm_id p)
              (\<lambda>q. q\<lparr>pm_state := (if wasKept then promise_kept else promise_broken), pm_settled := Some now\<rparr>)
              (promises_to_pay s)\<rparr>))
    (thenM (ledger_append now (pm_case p) ''intent_router'' (if wasKept then ''promise_kept'' else ''promise_broken'')
              [(''promiseId'', JStr (pm_id p))])
           (retM (if wasKept then (fst counts + 1, snd counts) else (fst counts, snd counts + 1)))))"

definition reconcilePromises :: "int \<Rightarrow> (nat \<times> nat) dbm" where
  "reconcilePromises now =
     bindM (readM (\<lambda>s. filter (promise_due now) (promises_to_pay s))) (\<lambda>rows.
       foldM (settle_promise now) (0, 0) rows)"

definition openPromises :: "string \<Rightarrow> nat dbm" where
  "openPromises c = readM (\<lambda>s. length (filter (\<lambda>p. pm_case p = c \<and> pm_state p = promise_open) (promises_to_pay s)))"

section \<open>A reply moves no money and no case, unless it ends it\<close>

lemma insert_promise_frame:
  "insert_promise p s = (r, t) \<Longrightarrow> case_rows t = case_rows s \<and> case_events t = case_events s
     \<and> case_revisions t = case_revisions s \<and> obligations t = obligations s \<and> settlements t = settlements s
     \<and> scheduled_actions t = scheduled_actions s"
  by (auto simp: insert_promise_def monad_simps split: if_splits)

lemma ir_route_frame:
  assumes "intent \<notin> {dispute, opt_out}" and "ir_route E g now pid intent ctx s = (r, t)"
  shows "case_rows t = case_rows s \<and> case_events t = case_events s \<and> case_revisions t = case_revisions s
     \<and> obligations t = obligations s \<and> settlements t = settlements s \<and> scheduled_actions t = scheduled_actions s"
  using assms
  by (cases intent)
     (auto simp: ir_route_def insert_promise_def monad_simps Let_def split: if_splits)

lemma ir_route_paid [preserves_intros]: "preserves paid_inv (ir_route E g now pid intent ctx)"
proof -
  have [preserves_intros]: "preserves paid_inv (insert_promise p)" for p
  proof (rule preservesI)
    fix s assume inv: "paid_inv s"
    obtain r t where run: "insert_promise p s = (r, t)" by (cases "insert_promise p s")
    from insert_promise_frame [OF run] have "paid_inv t"
      using paid_inv_frame [OF inv, of t] by (simp add: settled_total_def)
    with run show "paid_inv (snd (insert_promise p s))" by simp
  qed
  show ?thesis
    unfolding ir_route_def Let_def by (cases intent) (auto intro!: preserves_intros)
qed

section \<open>Settling promises\<close>

definition promise_after :: "int \<Rightarrow> db \<Rightarrow> promise_row \<Rightarrow> promise_row" where
  "promise_after now s p =
     (if promise_due now p
      then p\<lparr>pm_state := (if has_settlement s (pm_obligation p) then promise_kept else promise_broken),
             pm_settled := Some now\<rparr>
      else p)"

definition promise_upto :: "int \<Rightarrow> db \<Rightarrow> string set \<Rightarrow> promise_row \<Rightarrow> promise_row" where
  "promise_upto now s ids p = (if pm_id p \<in> ids then promise_after now s p else p)"

lemma promise_ids [simp]: "pm_id (promise_after now s p) = pm_id p" "pm_id (promise_upto now s ids p) = pm_id p"
  by (simp_all add: promise_after_def promise_upto_def)

lemma settle_promise_eval:
  "settle_promise now counts p s =
     (Inr (if has_settlement s (pm_obligation p) then (fst counts + 1, snd counts) else (fst counts, snd counts + 1)),
      s\<lparr>promises_to_pay := update_where (\<lambda>q. pm_id q = pm_id p)
          (\<lambda>q. q\<lparr>pm_state := (if has_settlement s (pm_obligation p) then promise_kept else promise_broken),
                 pm_settled := Some now\<rparr>) (promises_to_pay s),
        ledger := ledger s @ [\<lparr>lg_case = pm_case p, lg_ts = now, lg_actor = ''intent_router'',
          lg_type = (if has_settlement s (pm_obligation p) then ''promise_kept'' else ''promise_broken''),
          lg_payload = [(''promiseId'', JStr (pm_id p))], lg_policy = None\<rparr>]\<rparr>)"
  by (simp add: settle_promise_def monad_simps)

lemma settle_promises_fold:
  assumes "\<forall>p \<in> set ps. p \<in> set rows \<and> promise_due now p"
    and "distinct (map pm_id rows)" and "distinct (map pm_id ps)" and "pm_id ` set ps \<inter> ids = {}"
    and "promises_to_pay s = map (promise_upto now s0 ids) rows" and "settlements s = settlements s0"
  shows "\<exists>t. foldM (settle_promise now) counts ps s =
     (Inr (fst counts + length (filter (\<lambda>p. has_settlement s0 (pm_obligation p)) ps),
           snd counts + length (filter (\<lambda>p. \<not> has_settlement s0 (pm_obligation p)) ps)), t)
     \<and> promises_to_pay t = map (promise_upto now s0 (ids \<union> pm_id ` set ps)) rows
     \<and> case_rows t = case_rows s \<and> settlements t = settlements s0"
  using assms
proof (induction ps arbitrary: counts s ids)
  case Nil
  then show ?case by (simp add: monad_simps)
next
  case (Cons p ps)
  let ?kept = "has_settlement s0 (pm_obligation p)"
  have kept: "has_settlement s (pm_obligation p) = ?kept" using Cons.prems(6) by (simp add: has_settlement_def)
  obtain s1 where s1: "s1 = snd (settle_promise now counts p s)" by simp
  let ?c = "if ?kept then (fst counts + 1, snd counts) else (fst counts, snd counts + 1)"
  have step: "settle_promise now counts p s = (Inr ?c, s1)" by (simp add: s1 settle_promise_eval kept)
  have uniq: "q = p" if "q \<in> set rows" "pm_id q = pm_id p" for q
    using that Cons.prems(1,2) by (auto simp: distinct_map dest: inj_onD)
  have fresh: "pm_id p \<notin> ids" using Cons.prems(4) by simp
  have rows': "promises_to_pay s1 = map (promise_upto now s0 (insert (pm_id p) ids)) rows"
    using Cons.prems(1,5) fresh uniq
    by (auto simp: s1 settle_promise_eval kept update_where_def promise_upto_def promise_after_def)
  have frame: "case_rows s1 = case_rows s" "settlements s1 = settlements s0"
    using Cons.prems(6) by (simp_all add: s1 settle_promise_eval)
  have "\<exists>t. foldM (settle_promise now) ?c ps s1 =
     (Inr (fst ?c + length (filter (\<lambda>p. has_settlement s0 (pm_obligation p)) ps),
           snd ?c + length (filter (\<lambda>p. \<not> has_settlement s0 (pm_obligation p)) ps)), t)
     \<and> promises_to_pay t = map (promise_upto now s0 (insert (pm_id p) ids \<union> pm_id ` set ps)) rows
     \<and> case_rows t = case_rows s1 \<and> settlements t = settlements s0"
  proof -
    have 1: "\<forall>p \<in> set ps. p \<in> set rows \<and> promise_due now p" and 3: "distinct (map pm_id ps)"
      and 4: "pm_id ` set ps \<inter> insert (pm_id p) ids = {}" using Cons.prems(1,3,4) by auto
    show ?thesis by (rule Cons.IH [OF 1 Cons.prems(2) 3 4 rows' frame(2)])
  qed
  then show ?case
    using step frame(1) by (cases ?kept) (auto simp: bindM_app)
qed

lemma reconcilePromises_eval:
  assumes "distinct (map pm_id (promises_to_pay s))"
  shows "\<exists>t. reconcilePromises now s =
     (Inr (length (filter (\<lambda>p. promise_due now p \<and> has_settlement s (pm_obligation p)) (promises_to_pay s)),
           length (filter (\<lambda>p. promise_due now p \<and> \<not> has_settlement s (pm_obligation p)) (promises_to_pay s))), t)
     \<and> promises_to_pay t = map (promise_after now s) (promises_to_pay s)
     \<and> case_rows t = case_rows s \<and> settlements t = settlements s"
proof -
  let ?rows = "promises_to_pay s" and ?ps = "filter (promise_due now) (promises_to_pay s)"
  have inj: "inj_on pm_id (set ?rows)" using assms by (simp add: distinct_map)
  have "distinct (map pm_id ?ps)" using assms by (auto simp: distinct_map intro: inj_on_subset)
  moreover have "?rows = map (promise_upto now s {}) ?rows" by (simp add: promise_upto_def map_idI)
  ultimately obtain t where t: "foldM (settle_promise now) (0, 0) ?ps s =
     (Inr (length (filter (\<lambda>p. has_settlement s (pm_obligation p)) ?ps),
           length (filter (\<lambda>p. \<not> has_settlement s (pm_obligation p)) ?ps)), t)"
    and rows: "promises_to_pay t = map (promise_upto now s (pm_id ` set ?ps)) ?rows"
    and frame: "case_rows t = case_rows s" "settlements t = settlements s"
    using settle_promises_fold [of ?ps ?rows now "{}" s s "(0, 0)"] assms by fastforce
  have "promise_upto now s (pm_id ` set ?ps) p = promise_after now s p" if "p \<in> set ?rows" for p
    using that inj by (auto simp: promise_upto_def promise_after_def dest: inj_onD)
  with rows have "promises_to_pay t = map (promise_after now s) ?rows" by simp
  with t frame show ?thesis
    by (simp add: reconcilePromises_def monad_simps filter_filter conj_commute)
qed

end
