(* ===== verification/Scheduler.thy ===== *)
theory Scheduler
  imports Case_Store
begin

text \<open>
  \<open>packages/engine/src/scheduler.ts\<close>: the durable scheduler. A row is \<open>pending\<close>, is
  leased by a tick, and ends \<open>done\<close> or \<open>cancelled\<close>; a lease that runs out returns the row to
  \<open>pending\<close>. \<open>locked\<close> are the ids on which another worker's open transaction holds a row
  lock (\<open>FOR UPDATE SKIP LOCKED\<close>). Ids come from a sequence that only grows; the gaps
  Postgres leaves after a failed insert are not modelled.
\<close>

record ScheduledAction =
  sd_id :: nat
  sd_caseId :: string
  sd_obligationId :: string
  sd_fireAt :: int
  sd_actionRef :: ActionRef
  sd_attempts :: nat

record ScheduleRequest =
  sr_caseId :: string
  sr_obligationId :: string
  sr_fireAt :: int
  sr_actionRef :: ActionRef

definition new_sched_row :: "int \<Rightarrow> nat \<Rightarrow> ScheduleRequest \<Rightarrow> sched_row" where
  "new_sched_row now i req =
     \<lparr>sa_id = i, sa_case = sr_caseId req, sa_obligation = sr_obligationId req,
      sa_fire_at = sr_fireAt req, sa_ref = sr_actionRef req, sa_state = pending,
      sa_owner = None, sa_expiry = None, sa_attempts = 0, sa_created = now, sa_settled = None\<rparr>"

definition sched_schedule :: "int \<Rightarrow> ScheduleRequest \<Rightarrow> nat dbm" where
  "sched_schedule now req =
     thenM (fk_case (sr_caseId req))
    (thenM (fk_obligation (sr_obligationId req))
    (bindM (readM next_sched_id) (\<lambda>i.
     thenM (modifyM (\<lambda>s. s\<lparr>scheduled_actions := scheduled_actions s @ [new_sched_row now i req],
                          next_sched_id := i + 1\<rparr>))
           (retM i))))"

text \<open>\<open>ORDER BY fire_at, case_id, id\<close> and the rows a tick may take.\<close>

definition tick_le :: "env \<Rightarrow> sched_row \<Rightarrow> sched_row \<Rightarrow> bool" where
  "tick_le E a b \<longleftrightarrow> sa_fire_at a < sa_fire_at b
     \<or> (sa_fire_at a = sa_fire_at b
        \<and> (if db_le E (sa_case a) (sa_case b) \<and> db_le E (sa_case b) (sa_case a)
           then sa_id a \<le> sa_id b else db_le E (sa_case a) (sa_case b)))"

definition due :: "int \<Rightarrow> nat list \<Rightarrow> sched_row \<Rightarrow> bool" where
  "due now locked a \<longleftrightarrow> sa_state a = pending \<and> sa_fire_at a \<le> now \<and> sa_id a \<notin> set locked"

definition lease_row :: "string \<Rightarrow> int \<Rightarrow> sched_row \<Rightarrow> sched_row" where
  "lease_row owner expiry a =
     a\<lparr>sa_state := leased, sa_owner := Some owner, sa_expiry := Some expiry, sa_attempts := sa_attempts a + 1\<rparr>"

definition scheduled_of :: "sched_row \<Rightarrow> ScheduledAction" where
  "scheduled_of a =
     \<lparr>sd_id = sa_id a, sd_caseId = sa_case a, sd_obligationId = sa_obligation a,
      sd_fireAt = sa_fire_at a, sd_actionRef = sa_ref a, sd_attempts = sa_attempts a + 1\<rparr>"

definition tick_select :: "env \<Rightarrow> int \<Rightarrow> nat list \<Rightarrow> nat \<Rightarrow> db \<Rightarrow> sched_row list" where
  "tick_select E now locked limit s =
     take limit (sort_by (tick_le E) (filter (due now locked) (scheduled_actions s)))"

definition tick :: "env \<Rightarrow> int \<Rightarrow> int \<Rightarrow> nat list \<Rightarrow> string \<Rightarrow> nat \<Rightarrow> ScheduledAction list dbm" where
  "tick E leaseMs now locked owner limit = transactM (
     bindM (readM (tick_select E now locked limit)) (\<lambda>rows.
       if rows = [] then retM []
       else (let ids = map sa_id rows in
         thenM (modifyM (\<lambda>s. s\<lparr>scheduled_actions :=
                  update_where (\<lambda>a. sa_id a \<in> set ids) (lease_row owner (now + leaseMs)) (scheduled_actions s)\<rparr>))
               (retM (map scheduled_of rows)))))"

definition done_row :: "int \<Rightarrow> sched_row \<Rightarrow> sched_row" where
  "done_row now a = a\<lparr>sa_state := sched_done, sa_settled := Some now, sa_owner := None, sa_expiry := None\<rparr>"

definition pending_row :: "sched_row \<Rightarrow> sched_row" where
  "pending_row a = a\<lparr>sa_state := pending, sa_owner := None, sa_expiry := None\<rparr>"

definition sched_complete :: "int \<Rightarrow> nat \<Rightarrow> unit dbm" where
  "sched_complete now i = modifyM (\<lambda>s. s\<lparr>scheduled_actions :=
     update_where (\<lambda>a. sa_id a = i \<and> sa_state a = leased) (done_row now) (scheduled_actions s)\<rparr>)"

definition sched_release :: "nat \<Rightarrow> unit dbm" where
  "sched_release i = modifyM (\<lambda>s. s\<lparr>scheduled_actions :=
     update_where (\<lambda>a. sa_id a = i \<and> sa_state a = leased) pending_row (scheduled_actions s)\<rparr>)"

definition lease_expired :: "int \<Rightarrow> sched_row \<Rightarrow> bool" where
  "lease_expired now a \<longleftrightarrow> sa_state a = leased \<and> (case sa_expiry a of None \<Rightarrow> False | Some x \<Rightarrow> x \<le> now)"

definition reclaimExpiredLeases :: "int \<Rightarrow> nat dbm" where
  "reclaimExpiredLeases now =
     bindM (readM (\<lambda>s. length (filter (lease_expired now) (scheduled_actions s)))) (\<lambda>n.
     thenM (modifyM (\<lambda>s. s\<lparr>scheduled_actions :=
              update_where (lease_expired now) pending_row (scheduled_actions s)\<rparr>))
           (retM n))"

definition cancelForCase :: "int \<Rightarrow> string \<Rightarrow> nat dbm" where
  "cancelForCase now c =
     bindM (readM (\<lambda>s. length (filter (outstanding c) (scheduled_actions s)))) (\<lambda>n.
     thenM (cancel_outstanding c now) (retM n))"

definition pendingCount :: "string \<Rightarrow> nat dbm" where
  "pendingCount c = readM (\<lambda>s. length (filter (outstanding c) (scheduled_actions s)))"

section \<open>The life of a row\<close>

text \<open>
  Every statement on the table moves a row along \<open>row_moves\<close> or leaves it; \<open>done\<close> and
  \<open>cancelled\<close> are final.
\<close>

inductive row_moves :: "sched_state \<Rightarrow> sched_state \<Rightarrow> bool" where
  take: "row_moves pending leased"
| give_back: "row_moves leased pending"
| finish: "row_moves leased sched_done"
| cancel_pending: "row_moves pending cancelled"
| cancel_leased: "row_moves leased cancelled"

inductive_simps row_moves_simp: "row_moves a b"

definition row_can :: "sched_state \<Rightarrow> sched_state \<Rightarrow> bool" where
  "row_can a b \<longleftrightarrow> a = b \<or> row_moves a b"

definition row_final :: "sched_state \<Rightarrow> bool" where
  "row_final a \<longleftrightarrow> a = sched_done \<or> a = cancelled"

interpretation row_life: absorbing row_can row_final
  by unfold_locales (auto simp: row_can_def row_final_def row_moves_simp)

text \<open>The shape of a row: the lease columns are set exactly while it is leased.\<close>

definition row_shape :: "sched_row \<Rightarrow> bool" where
  "row_shape a \<longleftrightarrow> (sa_state a = leased) = (sa_owner a \<noteq> None)
     \<and> (sa_owner a = None) = (sa_expiry a = None)
     \<and> (row_final (sa_state a)) = (sa_settled a \<noteq> None)"

definition sched_inv :: "db \<Rightarrow> bool" where
  "sched_inv s \<longleftrightarrow> distinct (map sa_id (scheduled_actions s))
     \<and> (\<forall>a \<in> set (scheduled_actions s). row_shape a \<and> sa_id a < next_sched_id s)"

lemmas row_update_defs = lease_row_def done_row_def pending_row_def cancel_row_def

lemma row_update_id [simp]:
  "sa_id (lease_row ow x a) = sa_id a" "sa_id (done_row now a) = sa_id a"
  "sa_id (pending_row a) = sa_id a" "sa_id (cancel_row now a) = sa_id a"
  by (simp_all add: row_update_defs)

lemma row_update_state [simp]:
  "sa_state (lease_row ow x a) = leased" "sa_state (done_row now a) = sched_done"
  "sa_state (pending_row a) = pending"
  by (simp_all add: row_update_defs)

lemma sched_inv_update:
  assumes "sched_inv s" and "\<And>a. sa_id (f a) = sa_id a"
    and "\<And>a. a \<in> set (scheduled_actions s) \<Longrightarrow> P a \<Longrightarrow> row_shape a \<Longrightarrow> row_shape (f a)"
  shows "sched_inv (s\<lparr>scheduled_actions := update_where P f (scheduled_actions s)\<rparr>)"
  using assms by (auto simp: sched_inv_def map_update_where dest!: in_update_where split: if_splits)

lemma sched_schedule_inv [preserves_intros]: "preserves sched_inv (sched_schedule now req)"
  by (rule preservesI)
     (auto simp: sched_schedule_def monad_simps sched_inv_def new_sched_row_def row_shape_def row_final_def
        less_Suc_eq split: prod.splits sum.splits)

lemma sched_schedule_Inr:
  "sched_schedule now req s = (Inr i, t) \<longleftrightarrow>
     has_case (sr_caseId req) s \<and> has_obligation (sr_obligationId req) s \<and> i = next_sched_id s
     \<and> t = s\<lparr>scheduled_actions := scheduled_actions s @ [new_sched_row now i req], next_sched_id := i + 1\<rparr>"
  by (auto simp: sched_schedule_def monad_simps)

lemma tick_le_preorder:
  assumes "total_preorder (db_le E)"
  shows "total_preorder (tick_le E)"
proof -
  have t: "\<And>x y. db_le E x y \<or> db_le E y x" and tr: "\<And>x y z. db_le E x y \<Longrightarrow> db_le E y z \<Longrightarrow> db_le E x z"
    using assms unfolding total_preorder_def by blast+
  have "tick_le E a b \<or> tick_le E b a" for a b
    using t [of "sa_case a" "sa_case b"] by (auto simp: tick_le_def)
  moreover have "tick_le E a c" if "tick_le E a b" and "tick_le E b c" for a b c
    using that tr [of "sa_case a" "sa_case b" "sa_case c"] tr [of "sa_case c" "sa_case a" "sa_case b"]
      tr [of "sa_case b" "sa_case c" "sa_case a"]
    by (auto simp: tick_le_def split: if_splits)
  ultimately show ?thesis unfolding total_preorder_def by blast
qed

lemma tick_eval:
  "tick E leaseMs now locked owner limit s =
     (let rows = tick_select E now locked limit s in
      (Inr (map scheduled_of rows),
       s\<lparr>scheduled_actions := update_where (\<lambda>a. sa_id a \<in> sa_id ` set rows)
            (lease_row owner (now + leaseMs)) (scheduled_actions s)\<rparr>))"
  by (auto simp: tick_def monad_simps Let_def update_where_none)

lemma tick_select_mem:
  "a \<in> set (tick_select E now locked limit s) \<Longrightarrow> a \<in> set (scheduled_actions s) \<and> due now locked a"
  by (auto simp: tick_select_def dest!: in_set_takeD)

lemma tick_select_distinct:
  assumes "sched_inv s" shows "distinct (map sa_id (tick_select E now locked limit s))"
proof -
  have d: "distinct (map sa_id (scheduled_actions s))" using assms by (simp add: sched_inv_def)
  then have "inj_on sa_id (set (scheduled_actions s))" and "distinct (scheduled_actions s)"
    by (simp_all add: distinct_map)
  then show ?thesis
    unfolding tick_select_def distinct_map
    by (auto simp: distinct_take intro: inj_on_subset dest!: in_set_takeD)
qed

lemma tick_select_sorted:
  "total_preorder (db_le E) \<Longrightarrow> sorted_wrt (tick_le E) (tick_select E now locked limit s)"
  unfolding tick_select_def by (intro sorted_wrt_take sorted_sort_by tick_le_preorder)

text \<open>A due row that a tick leaves out comes no earlier than any row it takes.\<close>

lemma tick_select_greedy:
  assumes le: "total_preorder (db_le E)" and a: "a \<in> set (scheduled_actions s)" "due now locked a"
    and out: "a \<notin> set (tick_select E now locked limit s)"
    and b: "b \<in> set (tick_select E now locked limit s)"
  shows "tick_le E b a \<and> length (tick_select E now locked limit s) = limit"
proof -
  let ?all = "sort_by (tick_le E) (filter (due now locked) (scheduled_actions s))"
  have sorted: "sorted_wrt (tick_le E) (take limit ?all @ drop limit ?all)"
    using sorted_sort_by [OF tick_le_preorder [OF le]] by (simp only: append_take_drop_id)
  have "set ?all = set (take limit ?all) \<union> set (drop limit ?all)"
    by (metis append_take_drop_id set_append)
  moreover have "a \<in> set ?all" using a by simp
  ultimately have a': "a \<in> set (drop limit ?all)" using out unfolding tick_select_def by blast
  with sorted b have "tick_le E b a" unfolding tick_select_def sorted_wrt_append by blast
  moreover from a' have "limit \<le> length ?all" by (metis drop_all empty_iff empty_set linorder_le_cases)
  ultimately show ?thesis by (simp add: tick_select_def)
qed

lemma tick_inv [preserves_intros]: "preserves sched_inv (tick E leaseMs now locked owner limit)"
proof (rule preservesI)
  fix s assume inv: "sched_inv s"
  let ?rows = "tick_select E now locked limit s"
  have "row_shape (lease_row owner (now + leaseMs) a)"
    if a: "a \<in> set (scheduled_actions s)" "sa_id a \<in> sa_id ` set ?rows" "row_shape a" for a
  proof -
    from a(2) obtain b where b: "b \<in> set ?rows" "sa_id b = sa_id a" by auto
    then have "b = a" using inv a(1) tick_select_mem [OF b(1)]
      by (auto simp: sched_inv_def distinct_map dest: inj_onD)
    with b tick_select_mem [OF b(1)] a(3) show ?thesis
      by (auto simp: due_def row_shape_def lease_row_def row_final_def)
  qed
  then show "sched_inv (snd (tick E leaseMs now locked owner limit s))"
    using inv by (simp add: tick_eval Let_def sched_inv_update)
qed

lemma sched_complete_inv [preserves_intros]: "preserves sched_inv (sched_complete now i)"
  unfolding sched_complete_def
  by (rule preserves_modifyM, rule sched_inv_update) (auto simp: row_shape_def done_row_def row_final_def)

lemma sched_release_inv [preserves_intros]: "preserves sched_inv (sched_release i)"
  unfolding sched_release_def
  by (rule preserves_modifyM, rule sched_inv_update) (auto simp: row_shape_def pending_row_def row_final_def)

lemma reclaim_inv [preserves_intros]: "preserves sched_inv (reclaimExpiredLeases now)"
  unfolding reclaimExpiredLeases_def
  by (intro preserves_bindM preserves_thenM preserves_readM preserves_retM preserves_modifyM sched_inv_update)
     (auto simp: row_shape_def pending_row_def row_final_def lease_expired_def)

lemma cancel_outstanding_inv [preserves_intros]: "preserves sched_inv (cancel_outstanding c now)"
  unfolding cancel_outstanding_def
  by (rule preserves_modifyM, rule sched_inv_update)
     (auto simp: row_shape_def cancel_row_def row_final_def outstanding_def)

lemma cancelForCase_inv [preserves_intros]: "preserves sched_inv (cancelForCase now c)"
  unfolding cancelForCase_def by (intro preserves_intros)

text \<open>Two workers whose ticks overlap split the due rows.\<close>

lemma tick_select_locked_disjoint:
  "set (map sa_id (tick_select E now (map sa_id (tick_select E now locked l1 s) @ locked2) l2 s))
     \<inter> set (map sa_id (tick_select E now locked l1 s)) = {}"
proof -
  let ?A = "map sa_id (tick_select E now locked l1 s)"
  have "sa_id b \<notin> set ?A" if "b \<in> set (tick_select E now (?A @ locked2) l2 s)" for b
    using tick_select_mem [OF that] by (simp add: due_def)
  then show ?thesis by auto
qed

text \<open>A leased row is handed out again only once its lease has run out and was reclaimed.\<close>

lemma tick_select_not_leased:
  assumes "sched_inv s" and "a \<in> set (scheduled_actions s)" and "sa_state a \<noteq> pending"
  shows "sa_id a \<notin> set (map sa_id (tick_select E now locked limit s))"
proof
  assume "sa_id a \<in> set (map sa_id (tick_select E now locked limit s))"
  then obtain b where "b \<in> set (tick_select E now locked limit s)" "sa_id b = sa_id a" by auto
  with assms(1,2) tick_select_mem [of b] have "b = a" and "due now locked a"
    by (auto simp: sched_inv_def distinct_map dest: inj_onD)
  with assms(3) show False by (simp add: due_def)
qed

end
