(* ===== verification/Stats.thy ===== *)
theory Stats
  imports Core_Types
begin

text \<open>
  \<open>packages/core/src/stats.ts\<close> and \<open>clock.ts\<close>: the one-sided test of the anomaly
  detector, the Benjamini-Hochberg correction, the Wilson interval, and the virtual
  clock. Every operation on doubles is rounded; \<open>Math.sqrt\<close> and \<open>Math.exp\<close> are fields of
  the environment. The test is for counts with approvals at most attempts: outside, the
  code computes NaN, which the model does not have.
\<close>

section \<open>The virtual clock\<close>

definition clock_advance :: "int \<Rightarrow> int \<Rightarrow> err + int" where
  "clock_advance current ms =
     (if ms < 0 then Inl (RangeError (''cannot advance by '' @ int_str ms @ ''ms; clocks move forward''))
      else Inr (current + ms))"

definition clock_advanceTo :: "int \<Rightarrow> int \<Rightarrow> err + int" where
  "clock_advanceTo current target =
     (if target < current
      then Inl (RangeError (''cannot rewind clock from '' @ int_str current @ '' to '' @ int_str target))
      else Inr target)"

lemma clock_monotone:
  "clock_advance t ms = Inr t' \<or> clock_advanceTo t w = Inr t' \<Longrightarrow> t \<le> t'"
  by (auto simp: clock_advance_def clock_advanceTo_def split: if_splits)

section \<open>The test\<close>

definition num_sign :: "rat \<Rightarrow> rat" where
  "num_sign x = (if x > 0 then 1 else if x < 0 then -1 else 0)"

definition erf :: "env \<Rightarrow> rat \<Rightarrow> rat" where
  "erf E x =
     (let ax = \<bar>x\<bar>;
          t = fdiv E 1 (fadd E 1 (fmul E (fl E (3275911 / 10000000)) ax));
          p1 = fsub E (fmul E (fl E (1061405429 / 1000000000)) t) (fl E (1453152027 / 1000000000));
          p2 = fadd E (fmul E p1 t) (fl E (1421413741 / 1000000000));
          p3 = fsub E (fmul E p2 t) (fl E (284496736 / 1000000000));
          p4 = fadd E (fmul E p3 t) (fl E (254829592 / 1000000000));
          y = fsub E 1 (fmul E (fmul E p4 t) (js_exp E (fmul E (- ax) ax)))
      in fmul E (num_sign x) y)"

definition SQRT2 :: "env \<Rightarrow> rat" where
  "SQRT2 E = js_sqrt E 2"

definition normalCdf :: "env \<Rightarrow> rat \<Rightarrow> rat" where
  "normalCdf E z = fmul E (1/2) (fadd E 1 (erf E (fdiv E z (SQRT2 E))))"

record ZTestResult =
  zt_z :: rat
  zt_pValue :: rat
  zt_observedRate :: rat
  zt_baselineRate :: rat

definition rate :: "env \<Rightarrow> int \<Rightarrow> int \<Rightarrow> rat" where
  "rate E k n = (if n = 0 then 0 else fdiv E (of_int k) (of_int n))"

definition twoProportionZTest :: "env \<Rightarrow> int \<Rightarrow> int \<Rightarrow> int \<Rightarrow> int \<Rightarrow> ZTestResult" where
  "twoProportionZTest E approvals attempts baselineApprovals baselineAttempts =
     (let obs = rate E approvals attempts; base = rate E baselineApprovals baselineAttempts in
      if attempts = 0 \<or> baselineAttempts = 0
      then \<lparr>zt_z = 0, zt_pValue = 1, zt_observedRate = obs, zt_baselineRate = base\<rparr>
      else let pooled = fdiv E (of_int (approvals + baselineApprovals)) (of_int (attempts + baselineAttempts));
               se = js_sqrt E (fmul E (fmul E pooled (fsub E 1 pooled))
                      (fadd E (fdiv E 1 (of_int attempts)) (fdiv E 1 (of_int baselineAttempts))))
           in if se = 0 then \<lparr>zt_z = 0, zt_pValue = 1, zt_observedRate = obs, zt_baselineRate = base\<rparr>
              else let z = fdiv E (fsub E obs base) se
                   in \<lparr>zt_z = z, zt_pValue = normalCdf E z, zt_observedRate = obs, zt_baselineRate = base\<rparr>)"

lemma ztest_rates [simp]:
  "zt_observedRate (twoProportionZTest E a n b m) = rate E a n"
  "zt_baselineRate (twoProportionZTest E a n b m) = rate E b m"
  by (simp_all add: twoProportionZTest_def Let_def)

text \<open>A drop is only reported when the observed rate is below the baseline.\<close>

lemma ztest_drop:
  assumes fl: "rounding (fl E)" and sqrt: "\<And>x. 0 \<le> js_sqrt E x"
    and z: "zt_z (twoProportionZTest E a n b m) < 0"
  shows "rate E a n < rate E b m"
proof (rule ccontr)
  assume "\<not> rate E a n < rate E b m"
  then have "0 \<le> fsub E (rate E a n) (rate E b m)"
    using rounding_mono [OF fl, of 0 "rate E a n - rate E b m"] rounding_0 [OF fl] by (simp add: fsub_def)
  then have "0 \<le> fdiv E (fsub E (rate E a n) (rate E b m)) (js_sqrt E x)" for x
    using rounding_mono [OF fl, of 0] rounding_0 [OF fl] sqrt [of x] by (simp add: fdiv_def)
  with z show False by (auto simp: twoProportionZTest_def Let_def not_less [symmetric] split: if_splits)
qed

section \<open>Benjamini-Hochberg\<close>

definition bh_threshold :: "env \<Rightarrow> rat \<Rightarrow> nat \<Rightarrow> nat \<Rightarrow> rat" where
  "bh_threshold E alpha m i = fmul E (fdiv E (of_nat (i + 1)) (of_nat m)) alpha"

text \<open>The loop: the last index that passes its threshold.\<close>

fun bh_cutoff :: "env \<Rightarrow> ('a \<Rightarrow> rat) \<Rightarrow> rat \<Rightarrow> nat \<Rightarrow> nat \<Rightarrow> 'a list \<Rightarrow> nat option \<Rightarrow> nat option" where
  "bh_cutoff E p alpha m i [] cutoff = cutoff"
| "bh_cutoff E p alpha m i (x # xs) cutoff =
     bh_cutoff E p alpha m (i + 1) xs (if p x \<le> bh_threshold E alpha m i then Some i else cutoff)"

definition benjaminiHochberg :: "env \<Rightarrow> 'a list \<Rightarrow> ('a \<Rightarrow> rat) \<Rightarrow> rat \<Rightarrow> 'a list" where
  "benjaminiHochberg E items p alpha =
     (let sorted = sort_by (\<lambda>a b. p a \<le> p b) items
      in (case bh_cutoff E p alpha (length sorted) 0 sorted None of
            None \<Rightarrow> [] | Some c \<Rightarrow> take (c + 1) sorted))"

lemma bh_cutoff_spec:
  "bh_cutoff E p alpha m i xs c =
     (if \<exists>j < length xs. p (xs ! j) \<le> bh_threshold E alpha m (i + j)
      then Some (i + Max {j. j < length xs \<and> p (xs ! j) \<le> bh_threshold E alpha m (i + j)})
      else c)"
proof (induction xs arbitrary: i c)
  case (Cons x xs)
  let ?ok = "\<lambda>i xs j. j < length xs \<and> p (xs ! j) \<le> bh_threshold E alpha m (i + j)"
  have shift: "{j. ?ok i (x # xs) j} =
      (if p x \<le> bh_threshold E alpha m i then {0} else {}) \<union> Suc ` {j. ?ok (Suc i) xs j}" (is "?L = ?R")
  proof
    show "?L \<subseteq> ?R"
    proof
      fix j assume "j \<in> ?L"
      then show "j \<in> ?R" by (cases j) auto
    qed
    show "?R \<subseteq> ?L" by auto
  qed
  have fin: "finite {j. ?ok (Suc i) xs j}" by simp
  show ?case
  proof (cases "\<exists>j. ?ok (Suc i) xs j")
    case True
    then have ne: "{j. ?ok (Suc i) xs j} \<noteq> {}" by auto
    have "Max {j. ?ok i (x # xs) j} = Suc (Max {j. ?ok (Suc i) xs j})"
      unfolding shift using fin ne mono_Max_commute [of Suc "{j. ?ok (Suc i) xs j}"]
      by (auto simp: mono_def Max_insert)
    moreover have "\<exists>j. ?ok i (x # xs) j"
    proof -
      from True obtain j where "?ok (Suc i) xs j" by blast
      then have "?ok i (x # xs) (Suc j)" by simp
      then show ?thesis by blast
    qed
    ultimately show ?thesis using True Cons.IH [of "Suc i"] by simp
  next
    case False
    then have e: "{j. ?ok (Suc i) xs j} = {}" by auto
    have "(\<exists>j. ?ok i (x # xs) j) \<longleftrightarrow> p x \<le> bh_threshold E alpha m i"
      using shift e by (auto split: if_splits)
    moreover have "p x \<le> bh_threshold E alpha m i \<Longrightarrow> Max {j. ?ok i (x # xs) j} = 0"
      unfolding shift e by simp
    ultimately show ?thesis using False Cons.IH [of "Suc i"] by auto
  qed
qed simp

lemma total_preorder_key: "total_preorder (\<lambda>a b. p a \<le> (p b :: 'b :: linorder))"
  by (auto simp: total_preorder_def)

text \<open>
  The step-up rule: the result is the \<open>k\<close> smallest p-values, for the largest \<open>k\<close> whose
  \<open>k\<close>-th smallest is at most its threshold.
\<close>

lemma benjaminiHochberg_spec:
  fixes p :: "'a \<Rightarrow> rat"
  defines "s xs \<equiv> sort_by (\<lambda>a b. p a \<le> p b) xs"
  shows "\<exists>k \<le> length xs. benjaminiHochberg E xs p alpha = take k (s xs)
     \<and> (k > 0 \<longrightarrow> p (s xs ! (k - 1)) \<le> bh_threshold E alpha (length xs) (k - 1))
     \<and> (\<forall>j. k \<le> j \<longrightarrow> j < length xs \<longrightarrow> bh_threshold E alpha (length xs) j < p (s xs ! j))"
proof -
  let ?m = "length xs"
  let ?S = "{j. j < ?m \<and> p (s xs ! j) \<le> bh_threshold E alpha ?m j}"
  have len: "length (s xs) = ?m" by (simp add: s_def)
  have cut: "bh_cutoff E p alpha ?m 0 (s xs) None = (if ?S \<noteq> {} then Some (Max ?S) else None)"
    unfolding bh_cutoff_spec len by auto
  show ?thesis
  proof (cases "?S = {}")
    case True
    then have "benjaminiHochberg E xs p alpha = take 0 (s xs)"
      using cut by (simp add: benjaminiHochberg_def Let_def s_def)
    with True show ?thesis by (intro exI [of _ 0]) (auto simp: not_le)
  next
    case False
    have fin: "finite ?S" by simp
    have mem: "Max ?S \<in> ?S" using Max_in [OF fin False] .
    have "benjaminiHochberg E xs p alpha = take (Max ?S + 1) (s xs)"
      using cut False by (simp add: benjaminiHochberg_def Let_def s_def)
    moreover have "bh_threshold E alpha ?m j < p (s xs ! j)" if "Max ?S + 1 \<le> j" "j < ?m" for j
    proof (rule ccontr)
      assume "\<not> ?thesis"
      then have "j \<in> ?S" using that by (simp add: not_less)
      then have "j \<le> Max ?S" using fin by simp
      with that show False by simp
    qed
    ultimately show ?thesis using mem by (intro exI [of _ "Max ?S + 1"]) auto
  qed
qed

lemma set_benjaminiHochberg: "set (benjaminiHochberg E xs p alpha) \<subseteq> set xs"
  by (auto simp: benjaminiHochberg_def Let_def split: option.splits dest!: in_set_takeD)

section \<open>Wilson interval\<close>

definition wilsonInterval :: "env \<Rightarrow> int \<Rightarrow> int \<Rightarrow> rat \<Rightarrow> rat \<times> rat" where
  "wilsonInterval E successes n z =
     (if n = 0 then (0, 1)
      else let nn = of_int n; zz = fmul E z z; p = fdiv E (of_int successes) nn;
               d = fadd E 1 (fdiv E zz nn);
               centre = fadd E p (fdiv E zz (fmul E 2 nn));
               spread = fmul E z (js_sqrt E (fadd E (fdiv E (fmul E p (fsub E 1 p)) nn)
                          (fdiv E zz (fmul E (fmul E 4 nn) nn))))
           in (max 0 (fdiv E (fsub E centre spread) d), min 1 (fdiv E (fadd E centre spread) d)))"

text \<open>The interval lies in the unit interval, whatever is counted.\<close>

lemma wilson_bounds:
  assumes "wilsonInterval E k n z = (lo, hi)"
  shows "0 \<le> lo \<and> hi \<le> 1"
  using assms by (auto simp: wilsonInterval_def Let_def split: if_splits)

end
