(* ===== verification/Detector.thy ===== *)
theory Detector
  imports Stats
begin

text \<open>
  \<open>packages/engine/src/detector.ts\<close>: the segmented anomaly detector. Its state are the
  two maps from segment labels to run lengths. In the suppression filters the source asks
  for \<open>other !== c\<close> as well, which \<open>isAncestor\<close> implies: no segment is its own ancestor.
\<close>

datatype dim = gateway | payment_method | issuer | region | device

definition DIMS :: "dim list" where
  "DIMS = [gateway, payment_method, issuer, region, device]"

fun dim_str :: "dim \<Rightarrow> string" where
  "dim_str gateway = ''gateway''"
| "dim_str payment_method = ''method''"
| "dim_str issuer = ''issuer''"
| "dim_str region = ''region''"
| "dim_str device = ''device''"

type_synonym SegmentKey = "dim \<Rightarrow> string option"

definition segmentLabel :: "SegmentKey \<Rightarrow> string" where
  "segmentLabel k =
     (let l = join ''&'' (map (\<lambda>d. dim_str d @ ''='' @ (case k d of None \<Rightarrow> [] | Some v \<Rightarrow> v))
                (filter (\<lambda>d. k d \<noteq> None) DIMS))
      in if l = [] then ''all'' else l)"

definition seg_dims :: "SegmentKey \<Rightarrow> dim list" where
  "seg_dims k = filter (\<lambda>d. k d \<noteq> None) DIMS"

definition isAncestor :: "SegmentKey \<Rightarrow> SegmentKey \<Rightarrow> bool" where
  "isAncestor parent child =
     (let pDims = seg_dims parent; cDims = seg_dims child in
      if length pDims \<ge> length cDims then False
      else list_all (\<lambda>d. parent d = child d) pDims)"

record SegmentObservation =
  so_segment :: SegmentKey
  so_attempts :: int
  so_approvals :: int
  so_baselineAttempts :: int
  so_baselineApprovals :: int

record Candidate =
  ca_segment :: SegmentKey
  ca_label :: string
  ca_test :: ZTestResult
  ca_attempts :: int

record DetectorConfig =
  dc_volumeFloor :: int
  dc_alpha :: rat
  dc_dwellWindows :: nat
  dc_closeWithin :: rat
  dc_closeWindows :: nat

definition DEFAULT_DETECTOR_CONFIG :: "env \<Rightarrow> DetectorConfig" where
  "DEFAULT_DETECTOR_CONFIG E =
     \<lparr>dc_volumeFloor = 30, dc_alpha = fl E (5/100), dc_dwellWindows = 2,
      dc_closeWithin = fl E (95/100), dc_closeWindows = 3\<rparr>"

definition PARENT_EXPLAINS_RATIO :: "env \<Rightarrow> rat" where
  "PARENT_EXPLAINS_RATIO E = fl E (9/10)"

record AnomalyDetector =
  an_dwell :: "(string \<times> nat) list"
  an_healthy :: "(string \<times> nat) list"

definition newAnomalyDetector :: AnomalyDetector where
  "newAnomalyDetector = \<lparr>an_dwell = [], an_healthy = []\<rparr>"

definition count_of :: "(string \<times> nat) list \<Rightarrow> string \<Rightarrow> nat" where
  "count_of m l = (case map_of m l of None \<Rightarrow> 0 | Some n \<Rightarrow> n)"

definition candidate_of :: "env \<Rightarrow> SegmentObservation \<Rightarrow> Candidate" where
  "candidate_of E ob =
     \<lparr>ca_segment = so_segment ob, ca_label = segmentLabel (so_segment ob),
      ca_test = twoProportionZTest E (so_approvals ob) (so_attempts ob) (so_baselineApprovals ob) (so_baselineAttempts ob),
      ca_attempts = so_attempts ob\<rparr>"

definition tested_of :: "env \<Rightarrow> DetectorConfig \<Rightarrow> SegmentObservation list \<Rightarrow> Candidate list" where
  "tested_of E cfg obs = map (candidate_of E) (filter (\<lambda>ob. so_attempts ob \<ge> dc_volumeFloor cfg) obs)"

definition significant_of :: "env \<Rightarrow> DetectorConfig \<Rightarrow> Candidate list \<Rightarrow> Candidate list" where
  "significant_of E cfg tested =
     benjaminiHochberg E (filter (\<lambda>c. zt_z (ca_test c) < 0) tested) (\<lambda>c. zt_pValue (ca_test c)) (dc_alpha cfg)"

text \<open>One round of the hysteresis loop.\<close>

definition hysteresis :: "env \<Rightarrow> DetectorConfig \<Rightarrow> string list \<Rightarrow> Candidate \<Rightarrow> AnomalyDetector \<Rightarrow> AnomalyDetector" where
  "hysteresis E cfg labels c st =
     (if ca_label c \<in> set labels
      then st\<lparr>an_dwell := AList.update (ca_label c) (count_of (an_dwell st) (ca_label c) + 1) (an_dwell st),
              an_healthy := AList.update (ca_label c) 0 (an_healthy st)\<rparr>
      else st\<lparr>an_dwell := AList.update (ca_label c) 0 (an_dwell st),
              an_healthy := AList.update (ca_label c)
                (if zt_observedRate (ca_test c) \<ge> fmul E (zt_baselineRate (ca_test c)) (dc_closeWithin cfg)
                 then count_of (an_healthy st) (ca_label c) + 1 else 0) (an_healthy st)\<rparr>)"

definition rate_drop :: "env \<Rightarrow> Candidate \<Rightarrow> rat" where
  "rate_drop E c = fsub E (zt_baselineRate (ca_test c)) (zt_observedRate (ca_test c))"

definition explainedByParent :: "env \<Rightarrow> Candidate list \<Rightarrow> Candidate \<Rightarrow> bool" where
  "explainedByParent E dwelled c =
     list_ex (\<lambda>other. isAncestor (ca_segment other) (ca_segment c)
        \<and> rate_drop E other \<ge> fmul E (rate_drop E c) (PARENT_EXPLAINS_RATIO E)) dwelled"

definition supersededByChild :: "env \<Rightarrow> Candidate list \<Rightarrow> Candidate \<Rightarrow> bool" where
  "supersededByChild E dwelled c =
     list_ex (\<lambda>other. isAncestor (ca_segment c) (ca_segment other)
        \<and> rate_drop E c < fmul E (rate_drop E other) (PARENT_EXPLAINS_RATIO E)) dwelled"

definition evaluate ::
  "env \<Rightarrow> DetectorConfig \<Rightarrow> SegmentObservation list \<Rightarrow> AnomalyDetector \<Rightarrow> Candidate list \<times> AnomalyDetector" where
  "evaluate E cfg obs st =
     (let tested = tested_of E cfg obs;
          significant = significant_of E cfg tested;
          st' = fold (hysteresis E cfg (map ca_label significant)) tested st;
          dwelled = filter (\<lambda>c. count_of (an_dwell st') (ca_label c) \<ge> dc_dwellWindows cfg) significant
      in (filter (\<lambda>c. \<not> explainedByParent E dwelled c \<and> \<not> supersededByChild E dwelled c) dwelled, st'))"

definition shouldClose :: "DetectorConfig \<Rightarrow> AnomalyDetector \<Rightarrow> string \<Rightarrow> bool" where
  "shouldClose cfg st l \<longleftrightarrow> count_of (an_healthy st) l \<ge> dc_closeWindows cfg"

definition dwellCount :: "AnomalyDetector \<Rightarrow> string \<Rightarrow> nat" where
  "dwellCount st l = count_of (an_dwell st) l"

definition healthyCount :: "AnomalyDetector \<Rightarrow> string \<Rightarrow> nat" where
  "healthyCount st l = count_of (an_healthy st) l"

definition reset :: "AnomalyDetector \<Rightarrow> string \<Rightarrow> AnomalyDetector" where
  "reset st l = st\<lparr>an_dwell := AList.delete l (an_dwell st), an_healthy := AList.delete l (an_healthy st)\<rparr>"

section \<open>Segments\<close>

lemma isAncestor_irrefl: "\<not> isAncestor k k"
  by (simp add: isAncestor_def)

lemma isAncestor_trans: "isAncestor a b \<Longrightarrow> isAncestor b c \<Longrightarrow> isAncestor a c"
proof -
  assume ab: "isAncestor a b" and bc: "isAncestor b c"
  have "a d = c d" if d: "d \<in> set DIMS" "a d \<noteq> None" for d
  proof -
    have "a d = b d" using ab d by (auto simp: isAncestor_def Let_def list_all_iff seg_dims_def split: if_splits)
    moreover have "b d = c d" using bc d calculation
      by (auto simp: isAncestor_def Let_def list_all_iff seg_dims_def split: if_splits)
    ultimately show ?thesis by simp
  qed
  moreover have "length (seg_dims a) < length (seg_dims c)"
    using ab bc by (auto simp: isAncestor_def Let_def split: if_splits)
  ultimately show ?thesis by (auto simp: isAncestor_def list_all_iff seg_dims_def)
qed

section \<open>What an evaluation reports\<close>

lemma count_of_update [simp]: "count_of (AList.update k v m) l = (if l = k then v else count_of m l)"
  by (simp add: count_of_def update_conv')

lemma hysteresis_other: "ca_label c \<noteq> l \<Longrightarrow>
   count_of (an_dwell (hysteresis E cfg ls c st)) l = count_of (an_dwell st) l \<and>
   count_of (an_healthy (hysteresis E cfg ls c st)) l = count_of (an_healthy st) l"
  by (simp add: hysteresis_def)

lemma fold_hysteresis_other:
  "l \<notin> ca_label ` set cs \<Longrightarrow>
     count_of (an_dwell (fold (hysteresis E cfg ls) cs st)) l = count_of (an_dwell st) l \<and>
     count_of (an_healthy (fold (hysteresis E cfg ls) cs st)) l = count_of (an_healthy st) l"
  by (induction cs arbitrary: st) (auto simp: hysteresis_other)

text \<open>With one observation per segment, dwell counts the consecutive significant windows.\<close>

lemma fold_hysteresis_dwell:
  assumes "distinct (map ca_label cs)" and "c \<in> set cs"
  shows "count_of (an_dwell (fold (hysteresis E cfg ls) cs st)) (ca_label c) =
     (if ca_label c \<in> set ls then count_of (an_dwell st) (ca_label c) + 1 else 0)"
  using assms
proof (induction cs arbitrary: st)
  case (Cons d cs)
  show ?case
  proof (cases "c = d")
    case True
    then have "ca_label c \<notin> ca_label ` set cs" using Cons.prems(1) by simp
    then show ?thesis using True
      by (simp add: fold_hysteresis_other) (simp add: hysteresis_def)
  next
    case False
    then have c: "c \<in> set cs" using Cons.prems by simp
    then have "ca_label c \<in> ca_label ` set cs" by simp
    then have "ca_label c \<noteq> ca_label d" using Cons.prems(1) by auto
    with Cons.IH [of "hysteresis E cfg ls d st"] Cons.prems(1) c show ?thesis
      by (simp add: hysteresis_other)
  qed
qed simp

lemma significant_mem:
  "c \<in> set (significant_of E cfg tested) \<Longrightarrow> c \<in> set tested \<and> zt_z (ca_test c) < 0"
  using set_benjaminiHochberg unfolding significant_of_def by fastforce

lemma evaluate_mem:
  assumes "c \<in> set (fst (evaluate E cfg obs st))"
  shows "c \<in> set (significant_of E cfg (tested_of E cfg obs))
    \<and> dc_dwellWindows cfg \<le> dwellCount (snd (evaluate E cfg obs st)) (ca_label c)"
  using assms by (auto simp: evaluate_def Let_def dwellCount_def)

text \<open>The reported segments are an antichain: no two of them are nested.\<close>

lemma evaluate_antichain:
  assumes "c \<in> set (fst (evaluate E cfg obs st))" and "d \<in> set (fst (evaluate E cfg obs st))"
  shows "\<not> isAncestor (ca_segment c) (ca_segment d)"
proof
  assume anc: "isAncestor (ca_segment c) (ca_segment d)"
  let ?tested = "tested_of E cfg obs"
  let ?st = "fold (hysteresis E cfg (map ca_label (significant_of E cfg ?tested))) ?tested st"
  let ?dw = "filter (\<lambda>c. count_of (an_dwell ?st) (ca_label c) \<ge> dc_dwellWindows cfg) (significant_of E cfg ?tested)"
  have c: "c \<in> set ?dw" "\<not> supersededByChild E ?dw c" and d: "d \<in> set ?dw" "\<not> explainedByParent E ?dw d"
    using assms by (auto simp: evaluate_def Let_def)
  have "\<not> rate_drop E c \<ge> fmul E (rate_drop E d) (PARENT_EXPLAINS_RATIO E)"
    using d(2) c(1) anc by (auto simp: explainedByParent_def list_ex_iff)
  moreover have "\<not> rate_drop E c < fmul E (rate_drop E d) (PARENT_EXPLAINS_RATIO E)"
    using c(2) d(1) anc by (auto simp: supersededByChild_def list_ex_iff)
  ultimately show False by simp
qed

lemma tested_mem:
  "c \<in> set (tested_of E cfg obs) \<Longrightarrow> \<exists>ob \<in> set obs. c = candidate_of E ob \<and> dc_volumeFloor cfg \<le> so_attempts ob"
  by (auto simp: tested_of_def)

section \<open>A history of windows\<close>

text \<open>
  What is done with a detector: the windows it evaluates and the segments whose counts are reset. For a segment, the
  windows that count are those since its last reset in which it was tested, the latest first.
\<close>

datatype detector_call = Window "SegmentObservation list" | Reset string

fun detector_step :: "env \<Rightarrow> DetectorConfig \<Rightarrow> detector_call \<Rightarrow> AnomalyDetector \<Rightarrow> AnomalyDetector" where
  "detector_step E cfg (Window obs) st = snd (evaluate E cfg obs st)"
| "detector_step E cfg (Reset l) st = reset st l"

definition detector_run :: "env \<Rightarrow> DetectorConfig \<Rightarrow> detector_call list \<Rightarrow> AnomalyDetector" where
  "detector_run E cfg calls = fold (detector_step E cfg) calls newAnomalyDetector"

definition tested_in :: "DetectorConfig \<Rightarrow> string \<Rightarrow> SegmentObservation list \<Rightarrow> bool" where
  "tested_in cfg l obs = list_ex (\<lambda>ob. segmentLabel (so_segment ob) = l \<and> dc_volumeFloor cfg \<le> so_attempts ob) obs"

fun tested_windows :: "DetectorConfig \<Rightarrow> string \<Rightarrow> detector_call list \<Rightarrow> SegmentObservation list list" where
  "tested_windows cfg l [] = []"
| "tested_windows cfg l (Reset l' # calls) = (if l' = l then [] else tested_windows cfg l calls)"
| "tested_windows cfg l (Window obs # calls) =
     (if tested_in cfg l obs then obs # tested_windows cfg l calls else tested_windows cfg l calls)"

definition one_each :: "SegmentObservation list \<Rightarrow> bool" where
  "one_each obs = distinct (map (\<lambda>ob. segmentLabel (so_segment ob)) obs)"

text \<open>
  The criterion, without the procedure: the segment was observed with the volume, its rate dropped, and for some \<open>k\<close> at
  least \<open>k\<close> of the \<open>m\<close> drops of the window, this one among them, have a p-value of at most \<open>k\<close> \<open>m\<close>-ths of alpha.
\<close>

definition drops_of :: "env \<Rightarrow> DetectorConfig \<Rightarrow> SegmentObservation list \<Rightarrow> Candidate list" where
  "drops_of E cfg obs = filter (\<lambda>c. zt_z (ca_test c) < 0) (tested_of E cfg obs)"

definition significant_drop :: "env \<Rightarrow> DetectorConfig \<Rightarrow> SegmentObservation list \<Rightarrow> Candidate \<Rightarrow> bool" where
  "significant_drop E cfg obs c \<longleftrightarrow>
     (\<exists>ob \<in> set obs. c = candidate_of E ob \<and> dc_volumeFloor cfg \<le> so_attempts ob) \<and> zt_z (ca_test c) < 0
     \<and> (\<exists>k \<in> {1..length (drops_of E cfg obs)}.
          let bound = fmul E (fdiv E (of_nat k) (of_nat (length (drops_of E cfg obs)))) (dc_alpha cfg)
          in zt_pValue (ca_test c) \<le> bound \<and> k \<le> length (filter (\<lambda>d. zt_pValue (ca_test d) \<le> bound) (drops_of E cfg obs)))"

lemma length_filter_sort_by: "length (filter P (sort_by le xs)) = length (filter P xs)"
  by (metis mset_filter mset_sort_by size_mset)

lemma significant_is_drop:
  assumes "c \<in> set (significant_of E cfg (tested_of E cfg obs))"
  shows "significant_drop E cfg obs c"
proof -
  let ?p = "\<lambda>c. zt_pValue (ca_test c)" and ?ds = "drops_of E cfg obs"
  let ?s = "sort_by (\<lambda>a b. ?p a \<le> ?p b) ?ds"
  have tp: "total_preorder (\<lambda>a b. ?p a \<le> ?p b)" by (auto simp: total_preorder_def)
  obtain k where k: "k \<le> length ?ds" and sig: "significant_of E cfg (tested_of E cfg obs) = take k ?s"
    and thr: "k > 0 \<longrightarrow> ?p (?s ! (k - 1)) \<le> bh_threshold E (dc_alpha cfg) (length ?ds) (k - 1)"
    using benjaminiHochberg_spec [of ?ds E ?p "dc_alpha cfg"] by (auto simp: significant_of_def drops_of_def)
  from assms obtain i where i: "i < k" "i < length ?s" "c = ?s ! i"
    by (auto simp: sig in_set_conv_nth)
  let ?b = "fmul E (fdiv E (of_nat k) (of_nat (length ?ds))) (dc_alpha cfg)"
  have b: "?p (?s ! (k - 1)) \<le> ?b" using thr i(1) by (simp add: bh_threshold_def)
  have le: "?p (?s ! j) \<le> ?b" if "j < k" for j
  proof -
    have so: "sorted_wrt (\<lambda>a b. ?p a \<le> ?p b) ?s" by (rule sorted_sort_by [OF tp])
    show ?thesis
    proof (cases "j < k - 1")
      case True
      then have "?p (?s ! j) \<le> ?p (?s ! (k - 1))" using k by (intro sorted_wrt_nth_less [OF so]) simp_all
      with b show ?thesis by (rule order_trans [rotated])
    next
      case False
      then have "j = k - 1" using that by simp
      with b show ?thesis by (simp only:)
    qed
  qed
  have "k = length (filter (\<lambda>d. ?p d \<le> ?b) (take k ?s))"
  proof -
    have "filter (\<lambda>d. ?p d \<le> ?b) (take k ?s) = take k ?s"
      using le k by (intro filter_True) (auto simp: in_set_conv_nth)
    then show ?thesis using k by simp
  qed
  also have "\<dots> \<le> length (filter (\<lambda>d. ?p d \<le> ?b) (take k ?s @ drop k ?s))" by (simp only: filter_append length_append)
  also have "\<dots> = length (filter (\<lambda>d. ?p d \<le> ?b) ?ds)"
    by (simp only: append_take_drop_id length_filter_sort_by)
  finally have "k \<le> length (filter (\<lambda>d. ?p d \<le> ?b) ?ds)" .
  moreover have "?p c \<le> ?b" using le [OF i(1)] i(3) by simp
  moreover have "k \<in> {1..length ?ds}" using i(1) k by auto
  ultimately have "\<exists>k \<in> {1..length ?ds}. let bound = fmul E (fdiv E (of_nat k) (of_nat (length ?ds))) (dc_alpha cfg)
     in ?p c \<le> bound \<and> k \<le> length (filter (\<lambda>d. ?p d \<le> bound) ?ds)"
    by (intro bexI [of _ k]) (simp_all only: Let_def simp_thms)
  with significant_mem [OF assms] tested_mem [of c E cfg obs] show ?thesis
    unfolding significant_drop_def by blast
qed

text \<open>A label's dwell count is the length of its current run of significant windows.\<close>

definition failed_in :: "env \<Rightarrow> DetectorConfig \<Rightarrow> string \<Rightarrow> SegmentObservation list \<Rightarrow> bool" where
  "failed_in E cfg l obs \<longleftrightarrow> l \<in> ca_label ` set (significant_of E cfg (tested_of E cfg obs))"

lemma tested_labels: "l \<in> ca_label ` set (tested_of E cfg obs) \<longleftrightarrow> tested_in cfg l obs"
  by (auto simp: tested_of_def tested_in_def candidate_of_def list_ex_iff image_iff)

lemma tested_distinct: "one_each obs \<Longrightarrow> distinct (map ca_label (tested_of E cfg obs))"
  by (simp add: one_each_def tested_of_def candidate_of_def comp_def distinct_map_filter)

lemma dwell_window:
  assumes "one_each obs"
  shows "dwellCount (snd (evaluate E cfg obs st)) l =
    (if \<not> tested_in cfg l obs then dwellCount st l else if failed_in E cfg l obs then dwellCount st l + 1 else 0)"
proof (cases "tested_in cfg l obs")
  case True
  then obtain c where c: "c \<in> set (tested_of E cfg obs)" "ca_label c = l"
    unfolding tested_labels [of l E, symmetric] by blast
  from fold_hysteresis_dwell [OF tested_distinct [OF assms] c(1)] c(2) True show ?thesis
    by (simp add: evaluate_def Let_def dwellCount_def failed_in_def)
next
  case False
  then have "l \<notin> ca_label ` set (tested_of E cfg obs)" by (simp only: tested_labels simp_thms)
  from fold_hysteresis_other [OF this] False show ?thesis
    by (simp add: evaluate_def Let_def dwellCount_def)
qed

lemma dwell_reset: "dwellCount (reset st l') l = (if l' = l then 0 else dwellCount st l)"
  by (simp add: dwellCount_def reset_def count_of_def delete_conv')

lemma dwell_history:
  assumes "\<And>obs. Window obs \<in> set calls \<Longrightarrow> one_each obs"
  shows "dwellCount (detector_run E cfg calls) l = length (takeWhile (failed_in E cfg l) (tested_windows cfg l (rev calls)))"
  using assms
proof (induction calls rule: rev_induct)
  case Nil
  then show ?case by (simp add: detector_run_def newAnomalyDetector_def dwellCount_def count_of_def)
next
  case (snoc call calls)
  then have IH: "dwellCount (detector_run E cfg calls) l = length (takeWhile (failed_in E cfg l) (tested_windows cfg l (rev calls)))"
    by simp
  have run: "detector_run E cfg (calls @ [call]) = detector_step E cfg call (detector_run E cfg calls)"
    unfolding detector_run_def by simp
  show ?case
  proof (cases call)
    case (Window obs)
    then have "one_each obs" using snoc.prems by simp
    from dwell_window [OF this, of E cfg "detector_run E cfg calls" l] show ?thesis
      by (simp add: run [unfolded Window] IH Window)
  next
    case (Reset l')
    show ?thesis by (simp add: run [unfolded Reset] IH Reset dwell_reset)
  qed
qed

lemma evaluate_history:
  assumes "c \<in> set (fst (evaluate E cfg obs (detector_run E cfg calls)))"
    and "\<And>w. Window w \<in> set (calls @ [Window obs]) \<Longrightarrow> one_each w"
  defines "past \<equiv> tested_windows cfg (ca_label c) (rev (calls @ [Window obs]))"
  shows "dc_dwellWindows cfg \<le> length past
    \<and> (\<forall>w \<in> set (take (dc_dwellWindows cfg) past). \<exists>d. ca_label d = ca_label c \<and> significant_drop E cfg w d)"
proof -
  let ?f = "failed_in E cfg (ca_label c)" and ?n = "dc_dwellWindows cfg"
  have "?n \<le> dwellCount (detector_run E cfg (calls @ [Window obs])) (ca_label c)"
    using evaluate_mem [OF assms(1)] by (simp add: detector_run_def)
  then have n: "?n \<le> length (takeWhile ?f past)"
    unfolding past_def using dwell_history [of "calls @ [Window obs]" E cfg "ca_label c"] assms(2) by simp
  have "set (take ?n past) \<subseteq> set (take (length (takeWhile ?f past)) past)" by (rule set_take_subset_set_take [OF n])
  also have "\<dots> = set (takeWhile ?f past)" by (simp flip: takeWhile_eq_take)
  finally have "?f w" if "w \<in> set (take ?n past)" for w using that by (auto dest: set_takeWhileD)
  then have "\<exists>d. ca_label d = ca_label c \<and> significant_drop E cfg w d" if "w \<in> set (take ?n past)" for w
    using that significant_is_drop unfolding failed_in_def by (metis imageE)
  with n length_takeWhile_le [of ?f past] show ?thesis by simp
qed

end
