(* ===== verification/Incident.thy ===== *)
theory Incident
  imports Scheduler Case_Manager Detector
begin

text \<open>
  \<open>packages/engine/src/incident.ts\<close>: incidents and the cases parked on them. The random
  id is an argument. The columns of an incident that only report the test (\<open>segment_key\<close>,
  \<open>z_score\<close>, \<open>p_value\<close>, the rates and \<open>sample_n\<close>) are not in the row. The statements of one
  call are not in one transaction, except where the source says so.
\<close>

record IncidentRecord =
  ic_id :: string
  ic_label :: string
  ic_state :: incident_state
  ic_releaseStage :: int
  ic_parkedCount :: nat

definition incident_row_of :: "db \<Rightarrow> string \<Rightarrow> incident_row option" where
  "incident_row_of s i = find (\<lambda>r. in_id r = i) (incidents s)"

definition incident_open :: "int \<Rightarrow> string \<Rightarrow> Candidate \<Rightarrow> string \<Rightarrow> string dbm" where
  "incident_open now newId c detectedBy =
     bindM (readM (\<lambda>s. find (\<lambda>r. in_label r = ca_label c \<and> in_state r \<noteq> inc_closed) (incidents s))) (\<lambda>existing.
       case existing of
         Some r \<Rightarrow> retM (in_id r)
       | None \<Rightarrow>
           thenM (guardM (\<lambda>s. newId \<notin> in_id ` set (incidents s)) (UniqueViolation ''incidents''))
          (thenM (modifyM (\<lambda>s. s\<lparr>incidents := incidents s @
              [\<lparr>in_id = newId, in_label = ca_label c, in_state = inc_open, in_detectedBy = detectedBy,
                in_rca = None, in_stage = 0, in_opened = now, in_closed = None\<rparr>]\<rparr>))
          (thenM (ledger_append now newId ''detector'' ''incident_opened''
                    [(''label'', JStr (ca_label c)), (''z'', JNum (zt_z (ca_test c))),
                     (''pValue'', JNum (zt_pValue (ca_test c))), (''n'', JInt (ca_attempts c))])
                 (retM newId))))"

definition openFromDowntime :: "int \<Rightarrow> string \<Rightarrow> SegmentKey \<Rightarrow> string dbm" where
  "openFromDowntime now newId segment = incident_open now newId
     \<lparr>ca_segment = segment, ca_label = segmentLabel segment,
      ca_test = \<lparr>zt_z = 0, zt_pValue = 0, zt_observedRate = 0, zt_baselineRate = 0\<rparr>, ca_attempts = 0\<rparr>
     ''razorpay_downtime_webhook''"

definition is_member :: "string \<Rightarrow> string \<Rightarrow> member_row \<Rightarrow> bool" where
  "is_member inc c m \<longleftrightarrow> im_incident m = inc \<and> im_case m = c"

definition insert_member :: "member_row \<Rightarrow> unit dbm" where
  "insert_member m =
     thenM (guardM (\<lambda>s. \<not> (\<exists>x \<in> set (incident_members s). is_member (im_incident m) (im_case m) x))
              (UniqueViolation ''incident_members''))
    (thenM (guardM (\<lambda>s. im_incident m \<in> in_id ` set (incidents s)) (ForeignKeyViolation ''incidents''))
    (thenM (fk_case (im_case m))
           (modifyM (\<lambda>s. s\<lparr>incident_members := incident_members s @ [m]\<rparr>))))"

text \<open>The body of the loop over the cases; the result says whether the case was parked.\<close>

definition attach_one :: "int \<Rightarrow> string \<Rightarrow> string \<Rightarrow> bool dbm" where
  "attach_one now inc c =
     bindM (readM (\<lambda>s. \<exists>x \<in> set (incident_members s). is_member inc c x)) (\<lambda>already.
       if already then retM False
       else bindM (readM (\<lambda>s. is_open_case s c)) (\<lambda>lv.
         if \<not> lv then retM False
         else thenM (insert_member \<lparr>im_incident = inc, im_case = c, im_attached = now, im_released = None\<rparr>)
             (thenM (event_append now c (incident_attached inc) ''incident_manager'')
             (thenM (cancelForCase now c)
                    (retM True)))))"

definition attach_step :: "int \<Rightarrow> string \<Rightarrow> nat \<Rightarrow> string \<Rightarrow> nat dbm" where
  "attach_step now inc n c = bindM (attach_one now inc c) (\<lambda>p. retM (if p then n + 1 else n))"

definition attachAndSuppress :: "int \<Rightarrow> string \<Rightarrow> string list \<Rightarrow> nat dbm" where
  "attachAndSuppress now inc caseIds =
     bindM (foldM (attach_step now inc) 0 caseIds) (\<lambda>parked.
     thenM (ledger_append now inc ''incident_manager'' ''cases_parked''
              [(''parked'', JInt (int parked)), (''requested'', JInt (int (length caseIds)))])
           (retM parked))"

definition recordRca :: "int \<Rightarrow> string \<Rightarrow> params \<Rightarrow> unit dbm" where
  "recordRca now inc rca =
     thenM (modifyM (\<lambda>s. s\<lparr>incidents := update_where (\<lambda>r. in_id r = inc) (\<lambda>r. r\<lparr>in_rca := Some rca\<rparr>) (incidents s)\<rparr>))
           (ledger_append now inc ''agent:incident_intelligence'' ''rca_recorded'' rca)"

definition parked_list :: "env \<Rightarrow> string \<Rightarrow> db \<Rightarrow> string list" where
  "parked_list E inc s = sort_by (db_le E)
     (map im_case (filter (\<lambda>m. im_incident m = inc \<and> im_released m = None) (incident_members s)))"

definition parkedCases :: "env \<Rightarrow> string \<Rightarrow> string list dbm" where
  "parkedCases E inc = readM (parked_list E inc)"

definition mark_released :: "int \<Rightarrow> string \<Rightarrow> string list \<Rightarrow> unit dbm" where
  "mark_released now inc caseIds = modifyM (\<lambda>s. s\<lparr>incident_members :=
     update_where (\<lambda>m. im_incident m = inc \<and> im_case m \<in> set caseIds) (\<lambda>m. m\<lparr>im_released := Some now\<rparr>)
       (incident_members s)\<rparr>)"

definition incident_release :: "int \<Rightarrow> string \<Rightarrow> string list \<Rightarrow> unit dbm" where
  "incident_release now inc caseIds =
     (if caseIds = [] then retM ()
      else bindM (readM (\<lambda>s. map cs_id (filter (\<lambda>r. cs_id r \<in> set caseIds \<and> cs_closed_at r = None) (case_rows s))))
        (\<lambda>stillLive.
         thenM (transactM (mark_released now inc caseIds))
        (thenM (forM caseIds (\<lambda>c. if c \<in> set stillLive
                  then thenM (event_append now c (incident_released inc) ''release_controller'') (retM ())
                  else retM ()))
               (ledger_append now inc ''release_controller'' ''cases_released''
                  [(''released'', JInt (int (length (remdups stillLive)))),
                   (''closedWhileParked'', JInt (int (length caseIds) - int (length (remdups stillLive))))]))))"

definition repark_one :: "int \<Rightarrow> string \<Rightarrow> string \<Rightarrow> unit dbm" where
  "repark_one now inc c =
     bindM (readM (\<lambda>s. is_open_case s c)) (\<lambda>lv.
       if \<not> lv then retM ()
       else thenM (modifyM (\<lambda>s. s\<lparr>incident_members :=
                update_where (is_member inc c) (\<lambda>m. m\<lparr>im_released := None\<rparr>) (incident_members s)\<rparr>))
           (thenM (event_append now c (incident_attached inc) ''circuit_breaker'')
           (thenM (cancelForCase now c) (retM ()))))"

definition repark :: "int \<Rightarrow> string \<Rightarrow> string list \<Rightarrow> unit dbm" where
  "repark now inc caseIds =
     thenM (forM caseIds (repark_one now inc))
           (ledger_append now inc ''circuit_breaker'' ''cases_reparked'' [(''reparked'', JInt (int (length caseIds)))])"

definition setState :: "int \<Rightarrow> string \<Rightarrow> incident_state \<Rightarrow> int option \<Rightarrow> unit dbm" where
  "setState now inc st stage = modifyM (\<lambda>s. s\<lparr>incidents := update_where (\<lambda>r. in_id r = inc)
     (\<lambda>r. r\<lparr>in_state := st, in_stage := dflt stage (in_stage r),
            in_closed := (if st = inc_closed then Some now else in_closed r)\<rparr>) (incidents s)\<rparr>)"

definition incident_get :: "env \<Rightarrow> string \<Rightarrow> IncidentRecord option dbm" where
  "incident_get E inc = readM (\<lambda>s. map_option (\<lambda>r.
     \<lparr>ic_id = in_id r, ic_label = in_label r, ic_state = in_state r, ic_releaseStage = in_stage r,
      ic_parkedCount = length (parked_list E inc s)\<rparr>) (incident_row_of s inc))"

definition openIncidentCount :: "nat dbm" where
  "openIncidentCount = readM (\<lambda>s. length (filter (\<lambda>r. in_state r \<noteq> inc_closed) (incidents s)))"

section \<open>One open incident per segment\<close>

definition incident_inv :: "db \<Rightarrow> bool" where
  "incident_inv s \<longleftrightarrow> distinct (map in_id (incidents s))
     \<and> (\<forall>l. length (filter (\<lambda>r. in_label r = l \<and> in_state r \<noteq> inc_closed) (incidents s)) \<le> 1)"

lemma incident_open_inv: "preserves incident_inv (incident_open now i c by)"
proof (rule preservesI)
  fix s assume inv: "incident_inv s"
  show "incident_inv (snd (incident_open now i c by s))"
  proof (cases "find (\<lambda>r. in_label r = ca_label c \<and> in_state r \<noteq> inc_closed) (incidents s)")
    case None
    then have "filter (\<lambda>r. in_label r = ca_label c \<and> in_state r \<noteq> inc_closed) (incidents s) = []"
      by (auto simp: filter_empty_conv dest: find_NoneD)
    with inv None show ?thesis
      by (auto simp: incident_open_def monad_simps incident_inv_def)
  next
    case (Some r)
    with inv show ?thesis by (simp add: incident_open_def monad_simps)
  qed
qed

section \<open>Parked cases\<close>

text \<open>A case parked on an incident: suppressed, a member, and nothing of it can fire.\<close>

definition parked :: "db \<Rightarrow> string \<Rightarrow> string \<Rightarrow> bool" where
  "parked s inc c \<longleftrightarrow>
     (\<exists>r. case_of s c = Some r \<and> cs_state r = SUPPRESSED_BY_INCIDENT \<and> cs_incident r = Some inc)
     \<and> (\<forall>a \<in> set (scheduled_actions s). \<not> outstanding c a)
     \<and> (\<exists>m \<in> set (incident_members s). is_member inc c m \<and> im_released m = None)"

lemma incident_of_append:
  assumes "store_inv s" and "event_append now c ev src s = (Inr (stored, rvn), t)"
  shows "rv_incidentId rvn = (case ev of incident_attached i \<Rightarrow> Some i | incident_released _ \<Rightarrow> None
     | _ \<Rightarrow> (case case_of s c of Some r \<Rightarrow> cs_incident r | None \<Rightarrow> None))"
proof -
  from event_append_Inr [OF assms] obtain r where r: "case_of s c = Some r"
    and red: "reduceAll c (log_of c s @ [stored]) = Inr rvn" and ev: "ev_event stored = ev" by auto
  from replay_eval [OF assms(1) r] obtain r0 where "reduceAll c (log_of c s) = Inr r0" and "row_agrees r r0" by blast
  with red ev r show ?thesis
    by (auto simp: reduceAll_snoc reduce_Inr next_revision_def Let_def row_agrees_def split: CaseEvent.splits)
qed

lemma cancel_none_outstanding:
  "a \<in> set (scheduled_actions (snd (cancel_outstanding c now s))) \<Longrightarrow> \<not> outstanding c a"
  by (auto simp: cancel_outstanding_def monad_simps outstanding_def dest!: in_update_where split: if_splits)

lemma cancel_outstanding_frame [simp]:
  "case_of (snd (cancel_outstanding c now s)) c' = case_of s c'"
  "incident_members (snd (cancel_outstanding c now s)) = incident_members s"
  "store_inv (snd (cancel_outstanding c now s)) = store_inv s"
  "case_rows (snd (cancel_outstanding c now s)) = case_rows s"
  by (simp_all add: cancel_outstanding_def monad_simps case_of_def)

lemma cancelForCase_app [monad_simps]:
  "cancelForCase now c s = (Inr (length (filter (outstanding c) (scheduled_actions s))), snd (cancel_outstanding c now s))"
  by (simp add: cancelForCase_def monad_simps cancel_outstanding_def)

lemma attach_one_skip:
  "(\<exists>x \<in> set (incident_members s). is_member inc c x) \<or> \<not> is_open_case s c \<Longrightarrow>
     attach_one now inc c s = (Inr False, s)"
  by (cases "\<exists>x \<in> set (incident_members s). is_member inc c x") (simp_all add: attach_one_def monad_simps)

lemma attach_one_run:
  assumes "\<not> (\<exists>x \<in> set (incident_members s). is_member inc c x)" and "is_open_case s c"
    and "attach_one now inc c s = (Inr p, t)"
  shows "\<exists>e t1. event_append now c (incident_attached inc) ''incident_manager''
      (s\<lparr>incident_members := incident_members s @
         [\<lparr>im_incident = inc, im_case = c, im_attached = now, im_released = None\<rparr>]\<rparr>) = (Inr e, t1)
    \<and> t = snd (cancel_outstanding c now t1) \<and> p"
  using assms
  by (simp add: attach_one_def insert_member_def monad_simps split: if_splits prod.splits sum.splits)

lemma attach_step_app:
  "attach_step now inc n c s =
     (case attach_one now inc c s of (Inl e, t) \<Rightarrow> (Inl e, t) | (Inr p, t) \<Rightarrow> (Inr (if p then n + 1 else n), t))"
  by (auto simp: attach_step_def bindM_app retM_app split: prod.split sum.split)

text \<open>Attaching one case: either it is parked, or it was a member already or is closed and nothing changes.\<close>

lemma attach_one_cases:
  assumes inv: "store_inv s" and run: "attach_one now inc c s = (Inr p, t)"
  shows "(p \<and> parked t inc c \<and> store_inv t \<and> is_open_case s c \<and> \<not> (\<exists>x \<in> set (incident_members s). is_member inc c x))
    \<or> (\<not> p \<and> t = s \<and> ((\<exists>x \<in> set (incident_members s). is_member inc c x) \<or> \<not> is_open_case s c))"
proof (cases "(\<exists>x \<in> set (incident_members s). is_member inc c x) \<or> \<not> is_open_case s c")
  case True
  from run attach_one_skip [OF this, of now] show ?thesis using True by auto
next
  case False
  let ?m = "\<lparr>im_incident = inc, im_case = c, im_attached = now, im_released = None\<rparr>"
  let ?s1 = "s\<lparr>incident_members := incident_members s @ [?m]\<rparr>"
  have inv1: "store_inv ?s1" using inv by simp
  from attach_one_run [OF _ _ run] False obtain e t1 where
    ap: "event_append now c (incident_attached inc) ''incident_manager'' ?s1 = (Inr e, t1)"
    and t: "t = snd (cancel_outstanding c now t1)" and p: "p"
    by blast
  obtain stored rvn where e: "e = (stored, rvn)" by (cases e)
  from event_append_Inr [OF inv1 ap [unfolded e]] obtain r where r: "case_of ?s1 c = Some r"
    and t1: "t1 = appended now c stored rvn ?s1" by blast
  have st: "rv_state rvn = SUPPRESSED_BY_INCIDENT"
    using append_legal [OF inv1 ap [unfolded e] r] by simp
  have ic: "rv_incidentId rvn = Some inc" using incident_of_append [OF inv1 ap [unfolded e]] by simp
  have "cs_id r = c" using case_of_Some [OF r] by simp
  then have row: "case_of t1 c = Some (write_revision rvn now (r\<lparr>cs_next_seq := cs_next_seq r + 1\<rparr>))"
    by (simp add: t1 case_of_appended r)
  have "parked t inc c"
    unfolding parked_def t using row st ic cancel_none_outstanding [of _ c now t1]
    by (auto simp: write_revision_def t1 is_member_def)
  moreover have "store_inv t1" using event_append_store_inv [OF inv1, of now c "incident_attached inc" "''incident_manager''"] ap by simp
  ultimately show ?thesis using False p t by simp
qed

text \<open>Appending to, or cancelling for, one case leaves the other parked cases parked.\<close>

lemma parked_other_append:
  assumes "store_inv s" and "event_append now c ev src s = (Inr x, t)" and "parked s inc c'" and "c' \<noteq> c"
  shows "parked t inc c'"
proof -
  obtain stored rvn where x: "x = (stored, rvn)" by (cases x)
  from event_append_Inr [OF assms(1) assms(2) [unfolded x]] have t: "t = appended now c stored rvn s" by blast
  from assms(3) obtain r where r: "case_of s c' = Some r" "cs_state r = SUPPRESSED_BY_INCIDENT" "cs_incident r = Some inc"
    by (auto simp: parked_def)
  have "case_of t c' = Some r" using r(1) assms(4) case_of_Some [OF r(1)] by (simp add: t case_of_appended)
  moreover have "\<not> outstanding c' a" if "a \<in> set (scheduled_actions t)" for a
    using that assms(3) by (auto simp: t appended_actions parked_def outstanding_def dest!: in_update_where split: if_splits)
  ultimately show ?thesis using r assms(3) by (auto simp: parked_def t)
qed

lemma parked_other_cancel:
  assumes "parked s inc c'" shows "parked (snd (cancel_outstanding c now s)) inc c'"
proof -
  have "\<not> outstanding c' a" if "a \<in> set (scheduled_actions (snd (cancel_outstanding c now s)))" for a
    using that assms
    by (auto simp: cancel_outstanding_def monad_simps parked_def outstanding_def dest!: in_update_where split: if_splits)
  with assms show ?thesis by (auto simp: parked_def)
qed

lemma attach_one_keeps_parked:
  assumes inv: "store_inv s" and run: "attach_one now inc c s = (Inr p, t)" and pk: "parked s inc c'"
  shows "parked t inc c'"
proof (cases "c' = c")
  case True
  with pk attach_one_cases [OF inv run] show ?thesis by (auto simp: parked_def)
next
  case False
  show ?thesis
  proof (cases p)
    case True
    let ?m = "\<lparr>im_incident = inc, im_case = c, im_attached = now, im_released = None\<rparr>"
    let ?s1 = "s\<lparr>incident_members := incident_members s @ [?m]\<rparr>"
    from attach_one_cases [OF inv run] True have "\<not> (\<exists>x \<in> set (incident_members s). is_member inc c x)"
      and "is_open_case s c" by blast+
    from attach_one_run [OF this run] obtain e t1 where
      ap: "event_append now c (incident_attached inc) ''incident_manager'' ?s1 = (Inr e, t1)"
      and t: "t = snd (cancel_outstanding c now t1)"
      by blast
    have "parked ?s1 inc c'" using pk by (auto simp: parked_def case_of_def)
    from parked_other_append [OF _ ap this False] inv have "parked t1 inc c'" by simp
    then show ?thesis unfolding t by (rule parked_other_cancel)
  qed (use attach_one_cases [OF inv run] pk in auto)
qed

lemma attach_one_frame:
  assumes inv: "store_inv s" and run: "attach_one now inc c s = (Inr p, t)" and "c' \<noteq> c"
  shows "is_open_case t c' = is_open_case s c'
    \<and> (\<exists>x \<in> set (incident_members t). is_member inc c' x) = (\<exists>x \<in> set (incident_members s). is_member inc c' x)"
proof (cases p)
  case True
  let ?s1 = "s\<lparr>incident_members := incident_members s @
         [\<lparr>im_incident = inc, im_case = c, im_attached = now, im_released = None\<rparr>]\<rparr>"
  from attach_one_cases [OF inv run] True have "\<not> (\<exists>x \<in> set (incident_members s). is_member inc c x)"
    and "is_open_case s c" by blast+
  from attach_one_run [OF this run] obtain e t1 where
    ap: "event_append now c (incident_attached inc) ''incident_manager'' ?s1 = (Inr e, t1)"
    and t: "t = snd (cancel_outstanding c now t1)"
    by blast
  obtain stored rvn where e: "e = (stored, rvn)" by (cases e)
  from event_append_Inr [OF _ ap [unfolded e]] inv have t1: "t1 = appended now c stored rvn ?s1" by auto
  have "is_open_case t1 c' = is_open_case s c'"
    using assms(3) by (auto simp: t1 is_open_case_def set_update_where)
  moreover have "is_open_case t c' = is_open_case t1 c'" by (simp add: t is_open_case_def)
  ultimately show ?thesis using assms(3) by (auto simp: t t1 is_member_def)
qed (use attach_one_cases [OF inv run] in blast)

lemma attach_one_rows:
  assumes inv: "store_inv s" and run: "attach_one now inc c s = (Inr p, t)" and "c' \<noteq> c"
  shows "case_of t c' = case_of s c'"
proof (cases p)
  case True
  let ?s1 = "s\<lparr>incident_members := incident_members s @
         [\<lparr>im_incident = inc, im_case = c, im_attached = now, im_released = None\<rparr>]\<rparr>"
  from attach_one_cases [OF inv run] True have "\<not> (\<exists>x \<in> set (incident_members s). is_member inc c x)"
    and "is_open_case s c" by blast+
  from attach_one_run [OF this run] obtain e t1 where
    ap: "event_append now c (incident_attached inc) ''incident_manager'' ?s1 = (Inr e, t1)"
    and t: "t = snd (cancel_outstanding c now t1)"
    by blast
  obtain stored rvn where e: "e = (stored, rvn)" by (cases e)
  from event_append_Inr [OF _ ap [unfolded e]] inv have t1: "t1 = appended now c stored rvn ?s1" by auto
  have "case_of ?s1 c' = case_of s c'" by (simp add: case_of_def)
  then show ?thesis using assms(3)
    by (cases "case_of s c'") (auto simp: t t1 case_of_appended dest: case_of_Some)
qed (use attach_one_cases [OF inv run] in blast)

text \<open>What an attachment takes: the open cases that are no members yet.\<close>

definition attachable :: "string \<Rightarrow> db \<Rightarrow> string \<Rightarrow> bool" where
  "attachable inc s c \<longleftrightarrow> is_open_case s c \<and> \<not> (\<exists>x \<in> set (incident_members s). is_member inc c x)"

lemma attach_one_attachable:
  assumes "store_inv s" and "attach_one now inc c s = (Inr p, t)"
  shows "p = attachable inc s c \<and> (\<forall>c'. attachable inc t c' = (attachable inc s c' \<and> \<not> (p \<and> c' = c)))"
proof (cases p)
  case True
  with attach_one_cases [OF assms] have own: "attachable inc s c" and pk: "parked t inc c"
    by (simp_all add: attachable_def)
  from pk have "\<not> attachable inc t c" unfolding attachable_def parked_def by blast
  moreover have "attachable inc t c' = attachable inc s c'" if "c' \<noteq> c" for c'
    using attach_one_frame [OF assms that] unfolding attachable_def by (simp only:)
  ultimately have "attachable inc t c' = (attachable inc s c' \<and> c' \<noteq> c)" for c'
    by (cases "c' = c") simp_all
  with True own show ?thesis by simp
next
  case False
  with attach_one_cases [OF assms] have "t = s" "\<not> attachable inc s c" unfolding attachable_def by blast+
  with False show ?thesis by simp
qed

lemma attach_fold_counts:
  assumes "store_inv s" and "foldM (attach_step now inc) n caseIds s = (Inr m, t)"
  shows "m = n + Finite_Set.card {c \<in> set caseIds. attachable inc s c}
    \<and> (\<forall>c. \<not> (c \<in> set caseIds \<and> attachable inc s c) \<longrightarrow> case_of t c = case_of s c)"
  using assms
proof (induction caseIds arbitrary: s n)
  case Nil
  then show ?case by (simp add: monad_simps)
next
  case (Cons c cs)
  have "bindM (attach_step now inc n c) (\<lambda>n'. foldM (attach_step now inc) n' cs) s = (Inr m, t)"
    using Cons.prems(2) by (simp only: foldM.simps)
  then obtain n' s1 where st: "attach_step now inc n c s = (Inr n', s1)"
    and rest: "foldM (attach_step now inc) n' cs s1 = (Inr m, t)"
    unfolding bindM_Inr by blast
  from st obtain p where one: "attach_one now inc c s = (Inr p, s1)" and n': "n' = (if p then n + 1 else n)"
    by (auto simp: attach_step_app split: prod.splits sum.splits)
  from attach_one_cases [OF Cons.prems(1) one] have inv1: "store_inv s1" using Cons.prems(1) by blast
  note IH = Cons.IH [OF inv1 rest] and at = attach_one_attachable [OF Cons.prems(1) one]
  let ?A = "\<lambda>s cs. {c \<in> set cs. attachable inc s c}"
  show ?case
  proof (cases p)
    case True
    with at have own: "attachable inc s c" and later: "\<And>c'. attachable inc s1 c' = (attachable inc s c' \<and> c' \<noteq> c)"
      by simp_all
    have "?A s (c # cs) = insert c (?A s1 cs)" using own by (auto simp: later)
    moreover have "c \<notin> ?A s1 cs" by (simp add: later)
    ultimately have "Finite_Set.card (?A s (c # cs)) = Suc (Finite_Set.card (?A s1 cs))" by simp
    moreover have "case_of t c' = case_of s c'" if c': "\<not> (c' \<in> set (c # cs) \<and> attachable inc s c')" for c'
    proof -
      have ne: "c' \<noteq> c" using c' own by auto
      have "\<not> (c' \<in> set cs \<and> attachable inc s1 c')" using c' later [of c'] by auto
      with IH have "case_of t c' = case_of s1 c'" by blast
      also have "\<dots> = case_of s c'" by (rule attach_one_rows [OF Cons.prems(1) one ne])
      finally show ?thesis .
    qed
    ultimately show ?thesis using IH n' True by simp
  next
    case False
    with attach_one_cases [OF Cons.prems(1) one] have s1: "s1 = s" by blast
    have no: "\<not> attachable inc s c" using at False by simp
    then have "?A s (c # cs) = ?A s cs" by auto
    then have "m = n + Finite_Set.card (?A s (c # cs))" using IH n' False s1 by simp
    moreover have "case_of t c' = case_of s c'" if c': "\<not> (c' \<in> set (c # cs) \<and> attachable inc s c')" for c'
    proof -
      have "\<not> (c' \<in> set cs \<and> attachable inc s c')" using c' by auto
      with IH show ?thesis unfolding s1 by blast
    qed
    ultimately show ?thesis by blast
  qed
qed

lemma attach_fold:
  assumes "store_inv s"
    and "foldM (attach_step now inc) n caseIds s = (Inr m, t)"
  shows "store_inv t \<and> (\<forall>c. parked s inc c \<longrightarrow> parked t inc c)
    \<and> (\<forall>c \<in> set caseIds. parked t inc c \<or> (\<exists>x \<in> set (incident_members s). is_member inc c x) \<or> \<not> is_open_case s c)"
  using assms
proof (induction caseIds arbitrary: s n)
  case Nil
  then show ?case by (simp add: monad_simps)
next
  case (Cons c cs)
  have "bindM (attach_step now inc n c) (\<lambda>n'. foldM (attach_step now inc) n' cs) s = (Inr m, t)"
    using Cons.prems(2) by (simp only: foldM.simps)
  then obtain n' s1 where st: "attach_step now inc n c s = (Inr n', s1)"
    and rest: "foldM (attach_step now inc) n' cs s1 = (Inr m, t)"
    unfolding bindM_Inr by blast
  from st obtain p where one: "attach_one now inc c s = (Inr p, s1)"
    by (auto simp: attach_step_app split: prod.splits sum.splits)
  from attach_one_cases [OF Cons.prems(1) one] have inv1: "store_inv s1" using Cons.prems(1) by blast
  note IH = Cons.IH [OF inv1 rest]
  have later: "parked t inc c' \<or> (\<exists>x \<in> set (incident_members s). is_member inc c' x) \<or> \<not> is_open_case s c'"
    if c': "c' \<in> set cs" for c'
  proof (cases "parked s1 inc c'")
    case True
    with IH show ?thesis by blast
  next
    case False
    show ?thesis
    proof (cases p)
      case True
      with False attach_one_cases [OF Cons.prems(1) one] have "c' \<noteq> c" by blast
      from IH c' consider "parked t inc c'" | "\<exists>x \<in> set (incident_members s1). is_member inc c' x" | "\<not> is_open_case s1 c'"
        by blast
      then show ?thesis
        using attach_one_frame [OF Cons.prems(1) one \<open>c' \<noteq> c\<close>] by cases blast+
    next
      case False
      with attach_one_cases [OF Cons.prems(1) one] have "s1 = s" by blast
      with IH c' show ?thesis by blast
    qed
  qed
  have "parked t inc c \<or> (\<exists>x \<in> set (incident_members s). is_member inc c x) \<or> \<not> is_open_case s c"
    using attach_one_cases [OF Cons.prems(1) one] IH by blast
  with later IH attach_one_keeps_parked [OF Cons.prems(1) one] show ?case by auto
qed

end
