(* ===== verification/Mulberry.thy ===== *)
theory Mulberry
  imports Core_Types
begin

unbundle bit_operations_syntax

text \<open>
  \<open>mulberry32\<close> of \<open>packages/connectors/src/simulated-psp.ts\<close>: the seeded generator of the
  simulator, the release controller and the estimator. The 32-bit operations of
  JavaScript (\<open>Math.imul\<close>, \<open>>>>\<close>, \<open>^\<close>, \<open>|\<close>) are those of \<open>32 word\<close>; the sum before \<open>^ t\<close> is
  taken modulo \<open>2 ^ 32\<close> by \<open>^\<close>. A draw is the exact double \<open>n / 2 ^ 32\<close>.
\<close>

type_synonym rng = "32 word"

definition mulberry_bits :: "rng \<Rightarrow> 32 word" where
  "mulberry_bits a =
     (let t1 = (a XOR drop_bit 15 a) * (1 OR a);
          t2 = (t1 + (t1 XOR drop_bit 7 t1) * (61 OR t1)) XOR t1
      in t2 XOR drop_bit 14 t2)"

definition mulberry_next :: "rng \<Rightarrow> rat \<times> rng" where
  "mulberry_next s =
     (let a = s + 0x6d2b79f5 in (of_nat (unat (mulberry_bits a)) / 4294967296, a))"

text \<open>\<open>mulberry32(seed)\<close>: \<open>seed >>> 0\<close> is the seed modulo \<open>2 ^ 32\<close>.\<close>

definition mulberry32 :: "int \<Rightarrow> rng" where
  "mulberry32 seed = of_int seed"

text \<open>The first \<open>n\<close> draws from a seed.\<close>

fun draws :: "nat \<Rightarrow> rng \<Rightarrow> rat list" where
  "draws 0 s = []"
| "draws (Suc n) s = (let (d, s') = mulberry_next s in d # draws n s')"

lemma mulberry_range: "0 \<le> fst (mulberry_next s) \<and> fst (mulberry_next s) < 1"
proof -
  have "unat (mulberry_bits (s + 0x6d2b79f5)) < 2 ^ 32"
    using unsigned_less [of "mulberry_bits (s + 0x6d2b79f5)"] by simp
  then have "of_nat (unat (mulberry_bits (s + 0x6d2b79f5))) < (of_nat (2 ^ 32) :: rat)"
    by (simp only: of_nat_less_iff)
  moreover have "0 \<le> (of_nat (unat (mulberry_bits (s + 0x6d2b79f5))) :: rat)" by (rule of_nat_0_le_iff)
  ultimately show ?thesis
    unfolding mulberry_next_def Let_def fst_conv by (simp del: of_nat_unat)
qed

lemma draws_range: "d \<in> set (draws n s) \<Longrightarrow> 0 \<le> d \<and> d < 1"
proof (induction n arbitrary: s)
  case (Suc n)
  then show ?case using mulberry_range [of s]
    by (cases "mulberry_next s") auto
qed simp

lemma mulberry_state: "snd (mulberry_next s) = s + 0x6d2b79f5"
  by (simp add: mulberry_next_def Let_def)

text \<open>
  The state walks an odd step through all \<open>2 ^ 32\<close> words: two draws of one period never
  start from the same state.
\<close>

fun states :: "nat \<Rightarrow> rng \<Rightarrow> rng" where
  "states 0 s = s"
| "states (Suc n) s = states n (snd (mulberry_next s))"

lemma states_eq: "states n s = s + of_nat n * 0x6d2b79f5"
  by (induction n arbitrary: s) (simp_all add: mulberry_state algebra_simps)

lemma states_period:
  assumes "states n s = s"
  shows "2 ^ 32 dvd n"
proof -
  from assms have "of_nat n * (0x6d2b79f5 :: 32 word) = 0" by (simp add: states_eq)
  then have "of_nat n * (0x6d2b79f5 * 0xdc58aa5d :: 32 word) = 0"
    by (simp only: mult.assoc [symmetric] mult_zero_left)
  moreover have one: "0x6d2b79f5 * 0xdc58aa5d = (1 :: 32 word)" by simp
  ultimately have "(of_nat n :: 32 word) = 0" by (simp only: one mult_1_right)
  then show ?thesis by (simp add: word_of_nat_eq_0_iff)
qed

end
