(* ===== verification/Release_Controller.thy ===== *)
theory Release_Controller
  imports Incident Mulberry
begin

text \<open>
  \<open>packages/engine/src/release-controller.ts\<close>: the ramp that returns parked cases in
  slices, and the circuit breaker. The controller's own state (the random stream and the
  slice released last, per incident) stands beside the data base.
\<close>

definition RAMP_STAGES :: "env \<Rightarrow> rat list" where
  "RAMP_STAGES E = [fl E (5/100), fl E (15/100), fl E (40/100), 1]"

record HealthReading =
  hr_observedRate :: rat
  hr_baselineRate :: rat

datatype release_action = released | held_back | reparked | completed

fun release_action_str :: "release_action \<Rightarrow> string" where
  "release_action_str released = ''released''"
| "release_action_str held_back = ''held''"
| "release_action_str reparked = ''reparked''"
| "release_action_str completed = ''completed''"

record ReleaseStep =
  rs_stage :: int
  rs_releasedNow :: nat
  rs_stillParked :: nat
  rs_act :: release_action
  rs_reason :: string

record ReleaseConfig =
  rg_healthThreshold :: rat
  rg_jitterFraction :: rat

definition DEFAULT_RELEASE_CONFIG :: "env \<Rightarrow> ReleaseConfig" where
  "DEFAULT_RELEASE_CONFIG E = \<lparr>rg_healthThreshold = fl E (9/10), rg_jitterFraction = fl E (2/10)\<rparr>"

record controller =
  ct_rand :: rng
  ct_inFlight :: "(string \<times> string list) list"

definition in_flight_of :: "controller \<Rightarrow> string \<Rightarrow> string list" where
  "in_flight_of k inc = (case map_of (ct_inFlight k) inc of None \<Rightarrow> [] | Some xs \<Rightarrow> xs)"

definition healthy :: "env \<Rightarrow> ReleaseConfig \<Rightarrow> HealthReading \<Rightarrow> bool" where
  "healthy E cfg h \<longleftrightarrow> hr_baselineRate h = 0
     \<or> hr_observedRate h \<ge> fmul E (hr_baselineRate h) (rg_healthThreshold cfg)"

definition log_step :: "int \<Rightarrow> string \<Rightarrow> ReleaseStep \<Rightarrow> unit dbm" where
  "log_step now inc st = ledger_append now inc ''release_controller'' (''release_'' @ release_action_str (rs_act st))
     [(''stage'', JInt (rs_stage st)), (''releasedNow'', JInt (int (rs_releasedNow st))),
      (''stillParked'', JInt (int (rs_stillParked st))), (''action'', JStr (release_action_str (rs_act st))),
      (''reason'', JStr (rs_reason st))]"

definition draw :: "(controller, err, rat) sem" where
  "draw = (\<lambda>k. case mulberry_next (ct_rand k) of (d, s) \<Rightarrow> (Inr d, k\<lparr>ct_rand := s\<rparr>))"

definition set_in_flight :: "string \<Rightarrow> string list \<Rightarrow> (controller, err, unit) sem" where
  "set_in_flight inc xs = modifyM (\<lambda>k. k\<lparr>ct_inFlight := AList.update inc xs (ct_inFlight k)\<rparr>)"

text \<open>The size of a slice of \<open>n\<close> parked cases.\<close>

definition slice_target :: "env \<Rightarrow> ReleaseConfig \<Rightarrow> rat \<Rightarrow> nat \<Rightarrow> rat \<Rightarrow> nat" where
  "slice_target E cfg fraction n d =
     (let jitter = fadd E 1 (fmul E (fsub E (fmul E d 2) 1) (rg_jitterFraction cfg)) in
      if fraction = 1 then n
      else nat (max 1 (js_round (fmul E (fmul E (of_nat n) fraction) jitter))))"

definition breaker_step :: "env \<Rightarrow> ReleaseConfig \<Rightarrow> int \<Rightarrow> string \<Rightarrow> HealthReading \<Rightarrow> (controller, ReleaseStep) iom" where
  "breaker_step E cfg now inc h =
     bindM (on_world (readM (\<lambda>k. in_flight_of k inc))) (\<lambda>rel.
     thenM (if rel = [] then retM ()
            else thenM (on_db (repark now inc rel)) (on_world (set_in_flight inc [])))
    (thenM (on_db (setState now inc inc_open (Some 0)))
    (bindM (on_db (parkedCases E inc)) (\<lambda>still.
       let st = \<lparr>rs_stage = 0, rs_releasedNow = 0, rs_stillParked = length still, rs_act = reparked,
                 rs_reason = ''approval rate '' @ to_fixed E (hr_observedRate h) 3 @ '' below ''
                   @ to_fixed E (fmul E (hr_baselineRate h) (rg_healthThreshold cfg)) 3\<rparr>
       in thenM (on_db (log_step now inc st)) (retM st)))))"

definition complete_step :: "int \<Rightarrow> string \<Rightarrow> (controller, ReleaseStep) iom" where
  "complete_step now inc =
     thenM (on_db (setState now inc inc_closed (Some 4)))
       (let st = \<lparr>rs_stage = 4, rs_releasedNow = 0, rs_stillParked = 0, rs_act = completed,
                  rs_reason = ''every parked case has been released''\<rparr>
        in thenM (on_db (log_step now inc st)) (retM st))"

definition ramp_step :: "env \<Rightarrow> ReleaseConfig \<Rightarrow> int \<Rightarrow> string \<Rightarrow> int \<Rightarrow> string list \<Rightarrow> (controller, ReleaseStep) iom" where
  "ramp_step E cfg now inc nextStage pks =
     bindM (on_world draw) (\<lambda>d.
       let fraction = RAMP_STAGES E ! nat (min nextStage 3);
           target = slice_target E cfg fraction (length pks) d;
           slice = take (min target (length pks)) pks
       in thenM (on_db (incident_release now inc slice))
         (thenM (on_world (set_in_flight inc slice))
         (thenM (on_db (setState now inc inc_releasing (Some (nextStage + 1))))
           (let st = \<lparr>rs_stage = nextStage + 1, rs_releasedNow = length slice,
                      rs_stillParked = length pks - length slice, rs_act = released,
                      rs_reason = ''stage '' @ int_str (nextStage + 1) @ ''/4 at ''
                        @ to_fixed E (fmul E fraction 100) 0 @ ''% with jitter''\<rparr>
            in thenM (on_db (log_step now inc st)) (retM st)))))"

definition release_step ::
  "env \<Rightarrow> ReleaseConfig \<Rightarrow> int \<Rightarrow> string \<Rightarrow> HealthReading \<Rightarrow> (controller, ReleaseStep) iom" where
  "release_step E cfg now inc h =
     bindM (on_db (incident_get E inc)) (\<lambda>incident.
       case incident of
         None \<Rightarrow> throwM (Error (''unknown incident '' @ inc))
       | Some i \<Rightarrow>
           if \<not> healthy E cfg h then breaker_step E cfg now inc h
           else bindM (on_db (parkedCases E inc)) (\<lambda>pks.
             if pks = [] then complete_step now inc
             else ramp_step E cfg now inc (ic_releaseStage i) pks))"

record RoutingProposal =
  rp_incidentId :: string
  rp_fromGateway :: string
  rp_toGateway :: string
  rp_canaryPercent :: int
  rp_ttlHours :: int
  rp_surface :: ActionSurface
  rp_requiresApproval :: bool
  rp_rollbackOn :: string

definition proposeReroute :: "string \<Rightarrow> string \<Rightarrow> string \<Rightarrow> RoutingProposal" where
  "proposeReroute inc frm to =
     \<lparr>rp_incidentId = inc, rp_fromGateway = frm, rp_toGateway = to, rp_canaryPercent = 5, rp_ttlHours = 4,
      rp_surface = simulated, rp_requiresApproval = True,
      rp_rollbackOn = ''backup path underperforms the primary over a rolling window''\<rparr>"

section \<open>Releasing a slice\<close>

text \<open>The cases of a slice that are live can be scheduled again.\<close>

definition releasable :: "string list \<Rightarrow> db \<Rightarrow> bool" where
  "releasable cs s \<longleftrightarrow> store_inv s \<and>
     (\<forall>c \<in> set cs. \<exists>r. case_of s c = Some r
        \<and> (cs_closed_at r = None \<longrightarrow> canTransition (cs_state r) SCHEDULED))"

definition rows_kept :: "string set \<Rightarrow> db \<Rightarrow> db \<Rightarrow> bool" where
  "rows_kept lv s t \<longleftrightarrow>
     (\<forall>c. c \<notin> lv \<longrightarrow> case_of t c = case_of s c)
     \<and> (\<forall>c \<in> lv. \<forall>r. case_of s c = Some r \<longrightarrow> cs_closed_at r = None \<longrightarrow>
          (\<exists>r'. case_of t c = Some r' \<and> cs_state r' = SCHEDULED \<and> cs_closed_at r' = None))"

lemma release_append:
  assumes inv: "store_inv s" and r: "case_of s c = Some r" and cl: "cs_closed_at r = None"
    and can: "canTransition (cs_state r) SCHEDULED"
  shows "\<exists>x t. event_append now c (incident_released inc) src s = (Inr x, t) \<and> store_inv t
    \<and> incidents t = incidents s \<and> incident_members t = incident_members s
    \<and> (\<forall>c'. c' \<noteq> c \<longrightarrow> case_of t c' = case_of s c')
    \<and> (\<exists>r'. case_of t c = Some r' \<and> cs_state r' = SCHEDULED \<and> cs_closed_at r' = None)"
proof -
  from event_append_ok [OF inv r, of "incident_released inc" now src] can obtain stored rvn where
    ap: "event_append now c (incident_released inc) src s = (Inr (stored, rvn), appended now c stored rvn s)"
    and st: "rv_state rvn = SCHEDULED" by auto
  have id: "cs_id r = c" using case_of_Some [OF r] by simp
  have "rv_terminalReason rvn = None"
  proof -
    from event_append_Inr [OF inv ap] have red: "reduceAll c (log_of c s @ [stored]) = Inr rvn"
      and ev: "ev_event stored = incident_released inc" by auto
    from replay_eval [OF inv r] obtain r0 where r0: "reduceAll c (log_of c s) = Inr r0" "row_agrees r r0" by blast
    have "case_ok s r" using inv case_of_Some [OF r] by (simp add: store_inv_def)
    then have "cs_terminal_reason r = None" using cl by (simp add: case_ok_def)
    with red ev r0 show ?thesis
      by (auto simp: reduceAll_snoc reduce_Inr next_revision_def Let_def row_agrees_def)
  qed
  then have "case_of (appended now c stored rvn s) c = Some (write_revision rvn now (r\<lparr>cs_next_seq := cs_next_seq r + 1\<rparr>))"
    and "cs_closed_at (write_revision rvn now (r\<lparr>cs_next_seq := cs_next_seq r + 1\<rparr>)) = None"
    by (simp_all add: case_of_appended r id write_revision_def cl)
  moreover have "case_of (appended now c stored rvn s) c' = case_of s c'" if "c' \<noteq> c" for c'
    using that by (cases "case_of s c'") (auto simp: case_of_appended dest: case_of_Some)
  moreover have "store_inv (appended now c stored rvn s)"
    using event_append_store_inv [OF inv, of now c "incident_released inc" src] ap by simp
  ultimately show ?thesis using ap st by (auto simp: write_revision_def)
qed

definition release_one :: "int \<Rightarrow> string \<Rightarrow> string set \<Rightarrow> string \<Rightarrow> unit dbm" where
  "release_one now inc lv c =
     (if c \<in> lv then thenM (event_append now c (incident_released inc) ''release_controller'') (retM ())
      else retM ())"

lemma release_loop:
  assumes "store_inv s"
    and "\<forall>c \<in> set cs. c \<in> lv \<longrightarrow> (\<exists>r. case_of s c = Some r \<and> cs_closed_at r = None \<and> canTransition (cs_state r) SCHEDULED)"
  shows "\<exists>t. forM cs (release_one now inc lv) s = (Inr (), t) \<and> store_inv t
    \<and> incidents t = incidents s \<and> incident_members t = incident_members s \<and> rows_kept (lv \<inter> set cs) s t"
  using assms
proof (induction cs arbitrary: s)
  case Nil
  then show ?case by (simp add: forM_Nil rows_kept_def)
next
  case (Cons c cs)
  show ?case
  proof (cases "c \<in> lv")
    case False
    then have "release_one now inc lv c s = (Inr (), s)" by (simp add: release_one_def monad_simps)
    with Cons.IH [OF Cons.prems(1)] Cons.prems(2) False show ?thesis
      by (auto simp: forM_Cons Int_insert_right)
  next
    case True
    with Cons.prems obtain r where r: "case_of s c = Some r" "cs_closed_at r = None" "canTransition (cs_state r) SCHEDULED"
      by auto
    from release_append [OF Cons.prems(1) r, of now inc "''release_controller''"] obtain x s1 where
      ap: "event_append now c (incident_released inc) ''release_controller'' s = (Inr x, s1)" and inv1: "store_inv s1"
      and fr: "incidents s1 = incidents s" "incident_members s1 = incident_members s"
      and other: "\<And>c'. c' \<noteq> c \<Longrightarrow> case_of s1 c' = case_of s c'"
      and own: "\<exists>r'. case_of s1 c = Some r' \<and> cs_state r' = SCHEDULED \<and> cs_closed_at r' = None" by blast
    have one: "release_one now inc lv c s = (Inr (), s1)"
      using True ap by (simp add: release_one_def monad_simps)
    have "\<forall>c' \<in> set cs. c' \<in> lv \<longrightarrow>
        (\<exists>r. case_of s1 c' = Some r \<and> cs_closed_at r = None \<and> canTransition (cs_state r) SCHEDULED)"
    proof (intro ballI impI)
      fix c' assume "c' \<in> set cs" "c' \<in> lv"
      then show "\<exists>r. case_of s1 c' = Some r \<and> cs_closed_at r = None \<and> canTransition (cs_state r) SCHEDULED"
        using own other [of c'] Cons.prems(2) by (cases "c' = c") auto
    qed
    from Cons.IH [OF inv1 this] obtain t where
      t: "forM cs (release_one now inc lv) s1 = (Inr (), t)" "store_inv t" "incidents t = incidents s1"
        "incident_members t = incident_members s1" and kept: "rows_kept (lv \<inter> set cs) s1 t" by blast
    have "rows_kept (lv \<inter> set (c # cs)) s t"
      unfolding rows_kept_def
    proof (intro conjI allI ballI impI)
      fix c' assume "c' \<notin> lv \<inter> set (c # cs)"
      then have "c' \<notin> lv \<inter> set cs" "c' \<noteq> c" using True by auto
      with kept other [of c'] show "case_of t c' = case_of s c'" by (simp add: rows_kept_def)
    next
      fix c' r0 assume c': "c' \<in> lv \<inter> set (c # cs)" "case_of s c' = Some r0" "cs_closed_at r0 = None"
      from own c' other [of c'] obtain r1 where r1: "case_of s1 c' = Some r1" "cs_closed_at r1 = None"
        "c' = c \<longrightarrow> cs_state r1 = SCHEDULED" by (cases "c' = c") auto
      show "\<exists>r'. case_of t c' = Some r' \<and> cs_state r' = SCHEDULED \<and> cs_closed_at r' = None"
      proof (cases "c' \<in> lv \<inter> set cs")
        case True
        with kept r1 show ?thesis by (auto simp: rows_kept_def)
      next
        case False
        then have "c' = c" using c'(1) by auto
        with False kept r1 show ?thesis by (auto simp: rows_kept_def)
      qed
    qed
    with t fr one show ?thesis by (auto simp: forM_Cons)
  qed
qed

lemma incident_release_ok:
  assumes rel: "releasable cs s"
  shows "\<exists>t. incident_release now inc cs s = (Inr (), t) \<and> store_inv t \<and> incidents t = incidents s
    \<and> incident_members t = update_where (\<lambda>m. im_incident m = inc \<and> im_case m \<in> set cs)
          (\<lambda>m. m\<lparr>im_released := Some now\<rparr>) (incident_members s)
    \<and> rows_kept {c \<in> set cs. \<exists>r. case_of s c = Some r \<and> cs_closed_at r = None} s t"
proof (cases "cs = []")
  case True
  then show ?thesis using rel
    by (auto simp: incident_release_def monad_simps releasable_def rows_kept_def update_where_none)
next
  case False
  let ?ids = "map cs_id (filter (\<lambda>r. cs_id r \<in> set cs \<and> cs_closed_at r = None) (case_rows s))"
  let ?live = "set ?ids"
  let ?s1 = "s\<lparr>incident_members := update_where (\<lambda>m. im_incident m = inc \<and> im_case m \<in> set cs)
          (\<lambda>m. m\<lparr>im_released := Some now\<rparr>) (incident_members s)\<rparr>"
  have inv: "store_inv s" using rel by (simp add: releasable_def)
  have d: "distinct (map cs_id (case_rows s))" using inv by (simp add: store_inv_def)
  have lv: "c \<in> ?live \<longleftrightarrow> c \<in> set cs \<and> (\<exists>r. case_of s c = Some r \<and> cs_closed_at r = None)" for c
    using case_of_distinct [OF d] by (auto dest: case_of_Some)
  have co: "case_of ?s1 c = case_of s c" for c by (simp add: case_of_def)
  have "\<forall>c \<in> set cs. c \<in> ?live \<longrightarrow> (\<exists>r. case_of ?s1 c = Some r \<and> cs_closed_at r = None \<and> canTransition (cs_state r) SCHEDULED)"
    using rel lv co by (fastforce simp: releasable_def)
  from release_loop [OF _ this, of now inc] inv obtain t where
    t: "forM cs (release_one now inc ?live) ?s1 = (Inr (), t)" "store_inv t" "incidents t = incidents s"
      "incident_members t = incident_members ?s1" and kept: "rows_kept (?live \<inter> set cs) ?s1 t" by auto
  have "?live \<inter> set cs = {c \<in> set cs. \<exists>r. case_of s c = Some r \<and> cs_closed_at r = None}"
    using lv by blast
  then have "rows_kept {c \<in> set cs. \<exists>r. case_of s c = Some r \<and> cs_closed_at r = None} s t"
    using kept by (simp add: rows_kept_def co)
  moreover have "incident_release now inc cs s =
      (Inr (), t\<lparr>ledger := ledger t @ [\<lparr>lg_case = inc, lg_ts = now, lg_actor = ''release_controller'',
          lg_type = ''cases_released'', lg_payload = [(''released'', JInt (int (length (remdups ?ids)))),
             (''closedWhileParked'', JInt (int (length cs) - int (length (remdups ?ids))))], lg_policy = None\<rparr>]\<rparr>)"
    using False t(1)
    by (simp add: incident_release_def mark_released_def bindM_app readM_app thenM_app transactM_app modifyM_app
        ledger_append_app release_one_def [abs_def])
  ultimately show ?thesis using t
    by (intro exI [of _ "t\<lparr>ledger := ledger t @ [\<lparr>lg_case = inc, lg_ts = now, lg_actor = ''release_controller'',
          lg_type = ''cases_released'', lg_payload = [(''released'', JInt (int (length (remdups ?ids)))),
             (''closedWhileParked'', JInt (int (length cs) - int (length (remdups ?ids))))], lg_policy = None\<rparr>]\<rparr>"])
       (simp add: rows_kept_def case_of_def)
qed

section \<open>The ramp ends\<close>

lemma slice_target_pos: "0 < n \<Longrightarrow> 1 \<le> slice_target E cfg f n d"
  by (auto simp: slice_target_def Let_def)

lemma RAMP_last: "RAMP_STAGES E ! nat (min k 3) = 1" if "3 \<le> k" for k :: int
  using that by (simp add: RAMP_STAGES_def min_absorb2)

text \<open>
  \<open>ramping k\<close>: the incident exists and is at stage \<open>k\<close>, its member rows have their key,
  and its parked cases can be released.
\<close>

definition ramping :: "env \<Rightarrow> string \<Rightarrow> int \<Rightarrow> db \<Rightarrow> bool" where
  "ramping E inc k s \<longleftrightarrow>
     (\<exists>r. incident_row_of s inc = Some r \<and> in_stage r = k)
     \<and> distinct (map (\<lambda>m. (im_incident m, im_case m)) (incident_members s))
     \<and> releasable (parked_list E inc s) s"

lemma incident_row_setState:
  "incident_row_of (snd (setState now inc st (Some k) s)) inc =
     map_option (\<lambda>r. r\<lparr>in_state := st, in_stage := k, in_closed := (if st = inc_closed then Some now else in_closed r)\<rparr>)
       (incident_row_of s inc)"
proof -
  let ?f = "\<lambda>r. r\<lparr>in_state := st, in_stage := k, in_closed := (if st = inc_closed then Some now else in_closed r)\<rparr>"
  have "find (\<lambda>r. in_id r = inc) (update_where (\<lambda>r. in_id r = inc) ?f rs) = map_option ?f (find (\<lambda>r. in_id r = inc) rs)"
    for rs
    by (induction rs) auto
  from this [of "incidents s"] show ?thesis
    unfolding setState_def modifyM_app incident_row_of_def dflt_def by simp
qed

lemma setState_frame [simp]:
  "incident_members (snd (setState now inc st k s)) = incident_members s"
  "case_of (snd (setState now inc st k s)) c = case_of s c"
  "store_inv (snd (setState now inc st k s)) = store_inv s"
  "parked_list E i (snd (setState now inc st k s)) = parked_list E i s"
  by (simp_all add: setState_def modifyM_app case_of_def parked_list_def)

lemma setState_fst [simp]: "fst (setState now inc st k s) = Inr ()"
  by (simp add: setState_def modifyM_app)

lemma log_step_frame [simp]:
  "incident_members (snd (log_step now inc st s)) = incident_members s"
  "incidents (snd (log_step now inc st s)) = incidents s"
  "case_of (snd (log_step now inc st s)) c = case_of s c"
  "store_inv (snd (log_step now inc st s)) = store_inv s"
  "parked_list E i (snd (log_step now inc st s)) = parked_list E i s"
  "incident_row_of (snd (log_step now inc st s)) i = incident_row_of s i"
  by (simp_all add: log_step_def ledger_append_app case_of_def parked_list_def incident_row_of_def)

lemma log_step_fst [simp]: "fst (log_step now inc st s) = Inr ()"
  by (simp add: log_step_def ledger_append_app)

lemma parked_after_release:
  assumes "incident_members t = update_where (\<lambda>m. im_incident m = inc \<and> im_case m \<in> set cs)
          (\<lambda>m. m\<lparr>im_released := Some now\<rparr>) (incident_members s)"
  shows "parked_list E inc t = sort_by (db_le E) (filter (\<lambda>c. c \<notin> set cs)
      (map im_case (filter (\<lambda>m. im_incident m = inc \<and> im_released m = None) (incident_members s))))"
proof -
  have "map im_case (filter (\<lambda>m. im_incident m = inc \<and> im_released m = None)
        (update_where (\<lambda>m. im_incident m = inc \<and> im_case m \<in> set cs) (\<lambda>m. m\<lparr>im_released := Some now\<rparr>) ms)) =
      filter (\<lambda>c. c \<notin> set cs) (map im_case (filter (\<lambda>m. im_incident m = inc \<and> im_released m = None) ms))" for ms
    by (induction ms) auto
  from this [of "incident_members s"] show ?thesis unfolding parked_list_def assms by (simp only:)
qed

lemma parked_distinct:
  assumes "distinct (map (\<lambda>m. (im_incident m, im_case m)) (incident_members s))"
  shows "distinct (parked_list E inc s)"
proof -
  have "distinct (filter (\<lambda>m. im_incident m = inc \<and> im_released m = None) (incident_members s))"
    using assms by (simp add: distinct_map)
  moreover have "inj_on im_case (set (filter (\<lambda>m. im_incident m = inc \<and> im_released m = None) (incident_members s)))"
    using assms by (auto simp: distinct_map inj_on_def)
  ultimately show ?thesis by (simp add: parked_list_def distinct_map)
qed

lemma ramp_step_ok:
  assumes ramp: "ramping E inc k s" and some: "parked_list E inc s \<noteq> []" and h: "healthy E cfg hl" and k: "0 \<le> k"
  shows "\<exists>st t w'. release_step E cfg now inc hl (s, w) = (Inr st, (t, w')) \<and> rs_act st = released
    \<and> 1 \<le> rs_releasedNow st \<and> rs_releasedNow st \<le> length (parked_list E inc s)
    \<and> rs_stillParked st = length (parked_list E inc t)
    \<and> length (parked_list E inc t) + rs_releasedNow st = length (parked_list E inc s)
    \<and> ramping E inc (k + 1) t \<and> (3 \<le> k \<longrightarrow> parked_list E inc t = [])"
proof -
  let ?p = "parked_list E inc s" and ?n = "length (parked_list E inc s)"
  from ramp obtain r where r: "incident_row_of s inc = Some r" "in_stage r = k"
    and dm: "distinct (map (\<lambda>m. (im_incident m, im_case m)) (incident_members s))"
    and rel: "releasable ?p s" by (auto simp: ramping_def)
  obtain d g where dr: "draw w = (Inr d, g)"
    by (cases "mulberry_next (ct_rand w)") (simp add: draw_def)
  define f where "f = RAMP_STAGES E ! nat (min k 3)"
  define sl where "sl = take (min (slice_target E cfg f ?n d) ?n) ?p"
  have sub: "set sl \<subseteq> set ?p" by (auto simp: sl_def dest: in_set_takeD)
  have len: "1 \<le> length sl" "length sl \<le> ?n"
    using slice_target_pos [of ?n E cfg f d] some by (auto simp: sl_def Suc_le_eq)
  have "releasable sl s" using rel sub unfolding releasable_def by blast
  from incident_release_ok [OF this, of now inc] obtain t1 where
    rl: "incident_release now inc sl s = (Inr (), t1)" and inv1: "store_inv t1" and inc1: "incidents t1 = incidents s"
    and mem1: "incident_members t1 = update_where (\<lambda>m. im_incident m = inc \<and> im_case m \<in> set sl)
          (\<lambda>m. m\<lparr>im_released := Some now\<rparr>) (incident_members s)"
    and kept: "rows_kept {c \<in> set sl. \<exists>r. case_of s c = Some r \<and> cs_closed_at r = None} s t1" by blast
  let ?t2 = "snd (setState now inc inc_releasing (Some (k + 1)) t1)"
  let ?st = "\<lparr>rs_stage = k + 1, rs_releasedNow = length sl, rs_stillParked = ?n - length sl, rs_act = released,
               rs_reason = ''stage '' @ int_str (k + 1) @ ''/4 at '' @ to_fixed E (fmul E f 100) 0 @ ''% with jitter''\<rparr>"
  let ?t = "snd (log_step now inc ?st ?t2)"
  have ramp': "ramp_step E cfg now inc k ?p (s, w) = (Inr ?st, (?t, snd (set_in_flight inc sl g)))"
    by (simp only: ramp_step_def bindM_app thenM_app on_db_app on_world_app prod.case fst_conv snd_conv dr sum.case
        Let_def f_def [symmetric] sl_def [symmetric] rl retM_app setState_fst log_step_fst set_in_flight_def modifyM_app)
  have run: "release_step E cfg now inc hl (s, w) = (Inr ?st, (?t, snd (set_in_flight inc sl g)))"
    unfolding ramp' [symmetric] using r h some
    by (simp add: release_step_def incident_get_def parkedCases_def bindM_app on_db_app readM_app)
  let ?raw = "map im_case (filter (\<lambda>m. im_incident m = inc \<and> im_released m = None) (incident_members s))"
  have pt: "parked_list E inc ?t = sort_by (db_le E) (filter (\<lambda>c. c \<notin> set sl) ?raw)"
    using parked_after_release [OF mem1] by simp
  have sp: "set ?p = set ?raw" by (simp add: parked_list_def)
  have dp: "distinct ?p" using parked_distinct [OF dm] .
  then have draw: "distinct ?raw" by (simp add: parked_list_def)
  have "length (filter (\<lambda>c. c \<notin> set sl) ?raw) + length (filter (\<lambda>c. c \<in> set sl) ?raw) = length ?raw"
    using sum_length_filter_compl [of "\<lambda>c. c \<in> set sl" ?raw] by linarith
  moreover have "length (filter (\<lambda>c. c \<in> set sl) ?raw) = length sl"
  proof -
    have "set (filter (\<lambda>c. c \<in> set sl) ?raw) = set sl" using sub sp by auto
    moreover have "distinct (filter (\<lambda>c. c \<in> set sl) ?raw)" using draw by (rule distinct_filter)
    moreover have "distinct sl" using dp by (simp add: sl_def distinct_take)
    ultimately show ?thesis using distinct_card by metis
  qed
  moreover have "length ?raw = ?n" by (simp add: parked_list_def)
  ultimately have count: "length (parked_list E inc ?t) + length sl = ?n" unfolding pt length_sort_by by linarith
  have setp: "set (parked_list E inc ?t) = set ?p - set sl" using sp unfolding pt by auto
  have "releasable (parked_list E inc ?t) ?t"
    using rel kept inv1 setp by (auto simp: releasable_def rows_kept_def)
  moreover have "map (\<lambda>m. (im_incident m, im_case m)) (incident_members ?t) = map (\<lambda>m. (im_incident m, im_case m)) (incident_members s)"
    by (simp add: mem1 map_update_where)
  moreover have "\<exists>r. incident_row_of ?t inc = Some r \<and> in_stage r = k + 1"
  proof -
    have "incident_row_of t1 inc = Some r" using r(1) inc1 by (simp add: incident_row_of_def)
    then show ?thesis by (simp add: incident_row_setState)
  qed
  ultimately have "ramping E inc (k + 1) ?t" using dm by (simp add: ramping_def)
  moreover have "parked_list E inc ?t = []" if "3 \<le> k"
  proof -
    have "f = 1" using RAMP_last [OF that] by (simp add: f_def)
    then have "sl = ?p" by (simp add: sl_def slice_target_def Let_def)
    with setp show ?thesis by simp
  qed
  ultimately have after: "ramping E inc (k + 1) ?t" "3 \<le> k \<longrightarrow> parked_list E inc ?t = []" by blast+
  have nums: "rs_act ?st = released" "1 \<le> rs_releasedNow ?st" "rs_releasedNow ?st \<le> ?n"
    "rs_stillParked ?st = length (parked_list E inc ?t)"
    "length (parked_list E inc ?t) + rs_releasedNow ?st = ?n"
    using len count by simp_all
  show ?thesis
    by (intro exI conjI, rule run, rule nums(1), rule nums(2), rule nums(3), rule nums(4), rule nums(5),
        rule after(1), rule after(2))
qed

lemma complete_step_ok:
  assumes "ramping E inc k s" and "parked_list E inc s = []" and "healthy E cfg hl"
  shows "\<exists>st t. release_step E cfg now inc hl (s, w) = (Inr st, (t, w)) \<and> rs_act st = completed
    \<and> (\<exists>r. incident_row_of t inc = Some r \<and> in_state r = inc_closed \<and> in_closed r = Some now)
    \<and> parked_list E inc t = []"
proof -
  from assms(1) obtain r where r: "incident_row_of s inc = Some r" by (auto simp: ramping_def)
  let ?t2 = "snd (setState now inc inc_closed (Some 4) s)"
  let ?st = "\<lparr>rs_stage = 4, rs_releasedNow = 0, rs_stillParked = 0, rs_act = completed,
                  rs_reason = ''every parked case has been released''\<rparr>"
  have "release_step E cfg now inc hl (s, w) = (Inr ?st, (snd (log_step now inc ?st ?t2), w))"
    using r assms(2,3)
    by (simp add: release_step_def incident_get_def parkedCases_def complete_step_def bindM_app thenM_app on_db_app
        readM_app retM_app Let_def)
  then show ?thesis using r assms(2)
    by (intro exI [of _ ?st] exI [of _ "snd (log_step now inc ?st ?t2)"]) (simp add: incident_row_setState)
qed

text \<open>Steps taken one after the other, on the readings of a list; the last step's report.\<close>

fun release_steps ::
  "env \<Rightarrow> ReleaseConfig \<Rightarrow> int \<Rightarrow> string \<Rightarrow> HealthReading list \<Rightarrow> db \<times> controller \<Rightarrow> ReleaseStep list \<times> (db \<times> controller)" where
  "release_steps E cfg now inc [] sw = ([], sw)"
| "release_steps E cfg now inc (h # hs) sw =
     (case release_step E cfg now inc h sw of
        (Inl e, sw') \<Rightarrow> ([], sw')
      | (Inr st, sw') \<Rightarrow>
          if rs_act st = completed then ([st], sw')
          else (case release_steps E cfg now inc hs sw' of (sts, sw'') \<Rightarrow> (st # sts, sw'')))"

text \<open>From stage \<open>k\<close>, \<open>5 - k\<close> healthy readings (one at least) finish the ramp.\<close>

lemma ramp_finishes:
  assumes "ramping E inc k s" and "0 \<le> k" and "\<forall>h \<in> set hs. healthy E cfg h" and "nat (4 - k) + 1 \<le> length hs"
    and "k < 4 \<or> length (parked_list E inc s) = 0 \<or> 2 \<le> length hs"
  shows "\<exists>sts t w'. release_steps E cfg now inc hs (s, w) = (sts, (t, w')) \<and> sts \<noteq> [] \<and> rs_act (last sts) = completed
    \<and> parked_list E inc t = [] \<and> (\<exists>r. incident_row_of t inc = Some r \<and> in_state r = inc_closed)"
  using assms
proof (induction hs arbitrary: k s w)
  case (Cons h hs)
  have h: "healthy E cfg h" using Cons.prems(3) by simp
  show ?case
  proof (cases "parked_list E inc s = []")
    case True
    from complete_step_ok [OF Cons.prems(1) True h, of now w] show ?thesis by fastforce
  next
    case False
    from ramp_step_ok [OF Cons.prems(1) False h Cons.prems(2), of now w] obtain st t1 w1 where
      step: "release_step E cfg now inc h (s, w) = (Inr st, (t1, w1))" "rs_act st = released"
      and next_ok: "ramping E inc (k + 1) t1" "3 \<le> k \<longrightarrow> parked_list E inc t1 = []" by blast
    have "hs \<noteq> []" using Cons.prems(4,5) False by (cases hs) auto
    have "\<exists>sts t w'. release_steps E cfg now inc hs (t1, w1) = (sts, (t, w')) \<and> sts \<noteq> [] \<and> rs_act (last sts) = completed
      \<and> parked_list E inc t = [] \<and> (\<exists>r. incident_row_of t inc = Some r \<and> in_state r = inc_closed)"
    proof (rule Cons.IH [OF next_ok(1)])
      show "nat (4 - (k + 1)) + 1 \<le> length hs"
        using Cons.prems(4) \<open>hs \<noteq> []\<close> by (cases "k < 4") (auto simp: Suc_le_eq)
      show "k + 1 < 4 \<or> length (parked_list E inc t1) = 0 \<or> 2 \<le> length hs"
        using next_ok(2) by auto
    qed (use Cons.prems in auto)
    then obtain sts t w' where "release_steps E cfg now inc hs (t1, w1) = (sts, (t, w'))" "sts \<noteq> []"
      "rs_act (last sts) = completed" "parked_list E inc t = []"
      "\<exists>r. incident_row_of t inc = Some r \<and> in_state r = inc_closed" by blast
    then show ?thesis using step by simp
  qed
qed simp

end
