(* ===== verification/Policy_Engine.thy ===== *)
theory Policy_Engine
  imports Db
begin

text \<open>
  \<open>packages/engine/src/policy-engine.ts\<close>: the checks an action passes in order, the
  record of every decision, the token that only an allowed decision mints, and the
  contact budget that execution consumes. The nonce is an argument.
\<close>

record EvaluationContext =
  ec_caseId :: string
  ec_obligationId :: string
  ec_customerId :: string
  ec_rail :: Rail
  ec_actionId :: string
  ec_params :: params
  ec_attemptNo :: int
  ec_amountPaise :: "int option"
  ec_optedOut :: bool

record Authorization =
  au_decision :: PolicyDecision
  au_token :: "CapabilityToken option"

text \<open>\<open>String(v)\<close> of a JSON value.\<close>

fun js_String :: "env \<Rightarrow> json \<Rightarrow> string" where
  "js_String E JNull = ''null''"
| "js_String E (JBool b) = (if b then ''true'' else ''false'')"
| "js_String E (JNum q) = num_str E q"
| "js_String E (JStr x) = x"
| "js_String E (JArr xs) = join '','' (map (\<lambda>x. if x = JNull then [] else js_String E x) xs)"
| "js_String E (JObj _) = ''[object Object]''"

text \<open>\<open>String(ctx.params["channel"] ?? "sms")\<close>.\<close>

definition channel_of :: "env \<Rightarrow> params \<Rightarrow> string" where
  "channel_of E ps =
     (case map_of ps ''channel'' of None \<Rightarrow> ''sms'' | Some v \<Rightarrow> if v = JNull then ''sms'' else js_String E v)"

text \<open>
  \<open>#windowStart\<close>: the quotient is a double before it is floored. A window of 0 days is
  an invalid date, which the data base refuses.
\<close>

definition windowStart :: "env \<Rightarrow> int \<Rightarrow> int \<Rightarrow> err + int" where
  "windowStart E now windowDays =
     (let ms = windowDays * 86400000 in
      if ms = 0 then Inl (Error ''invalid input syntax for type timestamp with time zone'')
      else Inr (\<lfloor>fl E (of_int now / of_int ms)\<rfloor> * ms))"

definition budget_row_for :: "string \<Rightarrow> string \<Rightarrow> int \<Rightarrow> db \<Rightarrow> budget_row option" where
  "budget_row_for cust ch w s =
     find (\<lambda>b. cb_customer b = cust \<and> cb_channel b = ch \<and> cb_window b = w) (contact_budgets s)"

definition usage :: "env \<Rightarrow> int \<Rightarrow> string \<Rightarrow> string \<Rightarrow> int \<Rightarrow> int dbm" where
  "usage E now cust ch windowDays =
     bindM (liftE (windowStart E now windowDays)) (\<lambda>w.
       readM (\<lambda>s. case budget_row_for cust ch w s of None \<Rightarrow> 0 | Some b \<Rightarrow> cb_used b))"

definition cap_reason :: "string \<Rightarrow> ContactCap \<Rightarrow> int \<Rightarrow> string" where
  "cap_reason channel cap used =
     (if cc_channel cap = ''*'' then ''global contact cap '' else channel @ '' cap '')
       @ int_str (cc_max cap) @ ''/'' @ int_str (cc_windowDays cap) @ ''d reached ('' @ int_str used @ '' used)''"

definition caps_for :: "Policy \<Rightarrow> string \<Rightarrow> ContactCap option list" where
  "caps_for policy channel = [capFor policy channel, globalCap policy]"

definition budgetExhausted :: "env \<Rightarrow> Policy \<Rightarrow> int \<Rightarrow> string \<Rightarrow> string \<Rightarrow> string option dbm" where
  "budgetExhausted E policy now cust channel =
     foldM (\<lambda>found cap.
        (case found of Some r \<Rightarrow> retM (Some r)
         | None \<Rightarrow>
            (case cap of None \<Rightarrow> retM None
             | Some c \<Rightarrow> bindM (usage E now cust (cc_channel c) (cc_windowDays c)) (\<lambda>used.
                 retM (if used \<ge> cc_max c then Some (cap_reason channel c used) else None)))))
       None (caps_for policy channel)"

definition decide :: "Policy \<Rightarrow> PolicyOutcome \<Rightarrow> RuleId \<Rightarrow> string \<Rightarrow> PolicyDecision" where
  "decide policy oc rule reason =
     \<lparr>pd_outcome = oc, pd_ruleId = rule, pd_reason = reason, pd_policyVersion = po_version policy\<rparr>"

definition pe_evaluate ::
  "env \<Rightarrow> Policy \<Rightarrow> ActionLibrary \<Rightarrow> int \<Rightarrow> EvaluationContext \<Rightarrow> PolicyDecision dbm" where
  "pe_evaluate E policy lib now ctx =
     bindM (liftE (lib_get lib (ec_actionId ctx))) (\<lambda>action.
       if \<not> actionAllowedOnRail policy (ec_rail ctx) (ec_actionId ctx)
       then retM (decide policy block ACTION_NOT_ALLOWED_ON_RAIL
              (ec_actionId ctx @ '' is not permitted on '' @ rail_str (ec_rail ctx)))
       else if ec_optedOut ctx \<and> ad_consumesContactBudget action
       then retM (decide policy block OPTED_OUT_RULE ''customer has opted out of contact'')
       else if ec_attemptNo ctx \<ge> po_maxAttemptsPerCase policy
       then retM (decide policy block RETRY_CAP
              (''attempt '' @ int_str (ec_attemptNo ctx + 1) @ '' exceeds cap of ''
                @ int_str (po_maxAttemptsPerCase policy)))
       else if ad_quietHoursEnforced action \<and> inQuietHours E now policy
       then retM (decide policy block QUIET_HOURS
              (''quiet hours '' @ qh_start (po_quietHours policy) @ ''-'' @ qh_end (po_quietHours policy)
                @ '' '' @ qh_timezone (po_quietHours policy)))
       else bindM (if ad_consumesContactBudget action
                   then budgetExhausted E policy now (ec_customerId ctx) (channel_of E (ec_params ctx))
                   else retM None) (\<lambda>exhausted.
         case exhausted of
           Some reason \<Rightarrow> retM (decide policy block CONTACT_BUDGET reason)
         | None \<Rightarrow>
             (case ec_amountPaise ctx of
                Some amt \<Rightarrow>
                  if amt > po_requireApprovalAbovePaise policy
                  then retM (decide policy require_approval AMOUNT_APPROVAL
                         (int_str amt @ '' paise exceeds the '' @ int_str (po_requireApprovalAbovePaise policy)
                           @ '' auto-approval threshold''))
                  else retM (decide policy allow ALLOWED
                         (''permitted on '' @ rail_str (ec_rail ctx) @ '' within caps''))
              | None \<Rightarrow> retM (decide policy allow ALLOWED
                         (''permitted on '' @ rail_str (ec_rail ctx) @ '' within caps'')))))"

definition pe_record :: "int \<Rightarrow> EvaluationContext \<Rightarrow> PolicyDecision \<Rightarrow> unit dbm" where
  "pe_record now ctx d =
     thenM (fk_case (ec_caseId ctx))
           (modifyM (\<lambda>s. s\<lparr>policy_decisions := policy_decisions s @
              [\<lparr>dr_case = ec_caseId ctx, dr_action = ec_actionId ctx, dr_decision = d, dr_at = now\<rparr>]\<rparr>))"

definition persistToken :: "int \<Rightarrow> EvaluationContext \<Rightarrow> CapabilityToken \<Rightarrow> unit dbm" where
  "persistToken now ctx t =
     thenM (guardM (\<lambda>s. tk_nonce t \<notin> (tk_nonce \<circ> ct_token) ` set (capability_tokens s))
              (UniqueViolation ''capability_tokens''))
    (thenM (fk_case (ec_caseId ctx))
    (thenM (fk_obligation (ec_obligationId ctx))
           (modifyM (\<lambda>s. s\<lparr>capability_tokens := capability_tokens s @
              [\<lparr>ct_case = ec_caseId ctx, ct_obligation = ec_obligationId ctx, ct_token = t, ct_minted = now\<rparr>]\<rparr>))))"

definition mint_input :: "env \<Rightarrow> Policy \<Rightarrow> ActionDef \<Rightarrow> EvaluationContext \<Rightarrow> RuleId \<Rightarrow> MintInput" where
  "mint_input E policy action ctx rule =
     \<lparr>mt_caseId = ec_caseId ctx, mt_obligationId = ec_obligationId ctx, mt_actionId = ec_actionId ctx,
      mt_paramsHash = hashParams E (ec_params ctx), mt_attemptNo = ec_attemptNo ctx,
      mt_amountCapPaise = (if ad_amountCapped action then Some (dflt (ec_amountPaise ctx) 0) else None),
      mt_policyVersion = po_version policy, mt_ruleId = RULES rule\<rparr>"

definition authorize ::
  "env \<Rightarrow> Policy \<Rightarrow> ActionLibrary \<Rightarrow> CapabilityMinter \<Rightarrow> int \<Rightarrow> string \<Rightarrow> EvaluationContext \<Rightarrow> Authorization dbm" where
  "authorize E policy lib minter now nonce ctx =
     bindM (pe_evaluate E policy lib now ctx) (\<lambda>decision.
     thenM (pe_record now ctx decision)
       (if pd_outcome decision \<noteq> allow then retM \<lparr>au_decision = decision, au_token = None\<rparr>
        else bindM (liftE (lib_get lib (ec_actionId ctx))) (\<lambda>action.
          let token = mint E minter now nonce (mint_input E policy action ctx (pd_ruleId decision)) in
          thenM (persistToken now ctx token)
                (retM \<lparr>au_decision = decision, au_token = Some token\<rparr>))))"

text \<open>The upsert of \<open>consumeContactBudget\<close>, for the channel cap and then the global cap.\<close>

definition consume_cap :: "env \<Rightarrow> int \<Rightarrow> string \<Rightarrow> ContactCap \<Rightarrow> unit dbm" where
  "consume_cap E now cust c =
     bindM (liftE (windowStart E now (cc_windowDays c))) (\<lambda>w.
     bindM (readM (budget_row_for cust (cc_channel c) w)) (\<lambda>row.
       case row of
         Some _ \<Rightarrow> modifyM (\<lambda>s. s\<lparr>contact_budgets := update_where
                     (\<lambda>b. cb_customer b = cust \<and> cb_channel b = cc_channel c \<and> cb_window b = w)
                     (\<lambda>b. b\<lparr>cb_used := cb_used b + 1\<rparr>) (contact_budgets s)\<rparr>)
       | None \<Rightarrow> thenM (guardM (\<lambda>s. cust \<in> set (customers s)) (ForeignKeyViolation ''customers''))
                  (modifyM (\<lambda>s. s\<lparr>contact_budgets := contact_budgets s @
                     [\<lparr>cb_customer = cust, cb_channel = cc_channel c, cb_window = w, cb_used = 1, cb_cap = cc_max c\<rparr>]\<rparr>))))"

definition consumeContactBudget :: "env \<Rightarrow> Policy \<Rightarrow> int \<Rightarrow> string \<Rightarrow> string \<Rightarrow> unit dbm" where
  "consumeContactBudget E policy now cust channel = transactM (
     forM (caps_for policy channel) (\<lambda>cap. case cap of None \<Rightarrow> retM () | Some c \<Rightarrow> consume_cap E now cust c))"

definition blockCountsByRule :: "(RuleId \<Rightarrow> nat) dbm" where
  "blockCountsByRule = readM (\<lambda>s r. length (filter
     (\<lambda>d. pd_outcome (dr_decision d) = block \<and> pd_ruleId (dr_decision d) = r) (policy_decisions s)))"

section \<open>Usage and caps\<close>

definition used_in :: "string \<Rightarrow> string \<Rightarrow> int \<Rightarrow> db \<Rightarrow> int" where
  "used_in cust ch w s = (case budget_row_for cust ch w s of None \<Rightarrow> 0 | Some b \<Rightarrow> cb_used b)"

lemma usage_app [monad_simps]:
  "usage E now cust ch d s =
     (case windowStart E now d of Inl e \<Rightarrow> (Inl e, s) | Inr w \<Rightarrow> (Inr (used_in cust ch w s), s))"
  by (auto simp: usage_def monad_simps used_in_def split: sum.splits)

text \<open>A cap has room in the window of \<open>now\<close>.\<close>

definition cap_room :: "env \<Rightarrow> int \<Rightarrow> string \<Rightarrow> ContactCap \<Rightarrow> db \<Rightarrow> bool" where
  "cap_room E now cust c s \<longleftrightarrow>
     (\<exists>w. windowStart E now (cc_windowDays c) = Inr w \<and> used_in cust (cc_channel c) w s < cc_max c)"

lemma budgetExhausted_state: "snd (budgetExhausted E p now cust ch s) = s"
  by (auto simp: budgetExhausted_def caps_for_def monad_simps split: option.splits sum.splits)

lemma budgetExhausted_None:
  assumes "budgetExhausted E p now cust ch s = (Inr None, t)"
  shows "\<forall>c. Some c \<in> set (caps_for p ch) \<longrightarrow> cap_room E now cust c s"
  using assms
  by (auto simp: budgetExhausted_def caps_for_def monad_simps cap_room_def
      split: option.splits sum.splits if_splits)

section \<open>What an evaluation and an authorization do\<close>

lemma pe_evaluate_state: "snd (pe_evaluate E p lib now ctx s) = s"
  using budgetExhausted_state [of E p now "ec_customerId ctx" "channel_of E (ec_params ctx)" s]
  by (auto simp: pe_evaluate_def monad_simps split: sum.splits option.splits prod.splits)

text \<open>The checks of an allowed action, as one predicate of the context and the state.\<close>

definition permitted :: "env \<Rightarrow> Policy \<Rightarrow> ActionDef \<Rightarrow> int \<Rightarrow> EvaluationContext \<Rightarrow> db \<Rightarrow> bool" where
  "permitted E p a now ctx s \<longleftrightarrow>
     actionAllowedOnRail p (ec_rail ctx) (ec_actionId ctx)
     \<and> \<not> (ec_optedOut ctx \<and> ad_consumesContactBudget a)
     \<and> ec_attemptNo ctx < po_maxAttemptsPerCase p
     \<and> \<not> (ad_quietHoursEnforced a \<and> inQuietHours E now p)
     \<and> (ad_consumesContactBudget a \<longrightarrow>
          (\<forall>c. Some c \<in> set (caps_for p (channel_of E (ec_params ctx))) \<longrightarrow> cap_room E now (ec_customerId ctx) c s))
     \<and> (\<forall>amt. ec_amountPaise ctx = Some amt \<longrightarrow> amt \<le> po_requireApprovalAbovePaise p)"

lemma decide_simps [simp]:
  "pd_outcome (decide p oc r x) = oc" "pd_ruleId (decide p oc r x) = r"
  "pd_policyVersion (decide p oc r x) = po_version p"
  by (simp_all add: decide_def)

lemma pe_evaluate_allow:
  assumes "pe_evaluate E p lib now ctx s = (Inr d, t)" and "pd_outcome d = allow"
  shows "\<exists>a. lib_get lib (ec_actionId ctx) = Inr a \<and> permitted E p a now ctx s \<and> pd_ruleId d = ALLOWED"
proof -
  from assms(1) obtain a where a: "lib_get lib (ec_actionId ctx) = Inr a"
    by (auto simp: pe_evaluate_def monad_simps split: sum.splits)
  obtain b t' where b: "budgetExhausted E p now (ec_customerId ctx) (channel_of E (ec_params ctx)) s = (b, t')"
    by (cases "budgetExhausted E p now (ec_customerId ctx) (channel_of E (ec_params ctx)) s")
  show ?thesis
    using assms a b budgetExhausted_None [of E p now "ec_customerId ctx" "channel_of E (ec_params ctx)" s t']
    by (auto simp: pe_evaluate_def monad_simps permitted_def split: sum.splits option.splits if_splits)
qed

text \<open>And conversely: an action that passes every check is allowed.\<close>

lemma budgetExhausted_room:
  assumes "\<forall>c. Some c \<in> set (caps_for p ch) \<longrightarrow> cap_room E now cust c s"
  shows "budgetExhausted E p now cust ch s = (Inr None, s)"
  using assms
  by (auto simp: budgetExhausted_def caps_for_def monad_simps cap_room_def split: option.splits sum.splits)

lemma pe_evaluate_permitted:
  assumes "lib_get lib (ec_actionId ctx) = Inr a" and "permitted E p a now ctx s"
  shows "\<exists>d. pe_evaluate E p lib now ctx s = (Inr d, s) \<and> pd_outcome d = allow \<and> pd_ruleId d = ALLOWED"
  using assms budgetExhausted_room [of p "channel_of E (ec_params ctx)" E now "ec_customerId ctx" s]
  by (auto simp: pe_evaluate_def monad_simps permitted_def split: option.splits)

lemma authorize_Inr:
  assumes "authorize E p lib m now n ctx s = (Inr au, t)"
  shows "pe_evaluate E p lib now ctx s = (Inr (au_decision au), s)
    \<and> policy_decisions t = policy_decisions s @
        [\<lparr>dr_case = ec_caseId ctx, dr_action = ec_actionId ctx, dr_decision = au_decision au, dr_at = now\<rparr>]
    \<and> contact_budgets t = contact_budgets s
    \<and> (pd_outcome (au_decision au) \<noteq> allow \<longrightarrow> au_token au = None \<and> capability_tokens t = capability_tokens s)
    \<and> (pd_outcome (au_decision au) = allow \<longrightarrow>
        (\<exists>a. lib_get lib (ec_actionId ctx) = Inr a
           \<and> au_token au = Some (mint E m now n (mint_input E p a ctx (pd_ruleId (au_decision au))))
           \<and> n \<notin> (tk_nonce \<circ> ct_token) ` set (capability_tokens s)))"
proof -
  obtain d where d: "pe_evaluate E p lib now ctx s = (Inr d, s)"
    using assms pe_evaluate_state [of E p lib now ctx s]
    by (cases "pe_evaluate E p lib now ctx s") (auto simp: authorize_def monad_simps split: sum.splits)
  show ?thesis
    using assms
    by (auto simp: authorize_def d monad_simps pe_record_def persistToken_def Let_def split: sum.splits if_splits)
qed

lemma authorize_budgets: "contact_budgets (snd (authorize E p lib m now n ctx s)) = contact_budgets s"
proof -
  have "preserves (\<lambda>t. contact_budgets t = contact_budgets s) (authorize E p lib m now n ctx)"
    unfolding authorize_def pe_record_def persistToken_def Let_def
    by (intro preserves_intros preserves_modifyM) (auto simp: preserves_def pe_evaluate_state)
  then show ?thesis by (auto dest: preservesD)
qed

section \<open>Consuming the budget\<close>

definition budget_keys :: "db \<Rightarrow> bool" where
  "budget_keys s \<longleftrightarrow> distinct (map (\<lambda>b. (cb_customer b, cb_channel b, cb_window b)) (contact_budgets s))"

lemma budget_row_update:
  "budget_row_for cust' ch' w' (s\<lparr>contact_budgets := update_where
       (\<lambda>b. cb_customer b = cust \<and> cb_channel b = ch \<and> cb_window b = w)
       (\<lambda>b. b\<lparr>cb_used := cb_used b + 1\<rparr>) (contact_budgets s)\<rparr>) =
     (if cust' = cust \<and> ch' = ch \<and> w' = w
      then map_option (\<lambda>b. b\<lparr>cb_used := cb_used b + 1\<rparr>) (budget_row_for cust ch w s)
      else budget_row_for cust' ch' w' s)"
proof -
  have "find (\<lambda>b. cb_customer b = cust' \<and> cb_channel b = ch' \<and> cb_window b = w')
          (update_where (\<lambda>b. cb_customer b = cust \<and> cb_channel b = ch \<and> cb_window b = w)
            (\<lambda>b. b\<lparr>cb_used := cb_used b + 1\<rparr>) bs) =
        (if cust' = cust \<and> ch' = ch \<and> w' = w
         then map_option (\<lambda>b. b\<lparr>cb_used := cb_used b + 1\<rparr>)
           (find (\<lambda>b. cb_customer b = cust \<and> cb_channel b = ch \<and> cb_window b = w) bs)
         else find (\<lambda>b. cb_customer b = cust' \<and> cb_channel b = ch' \<and> cb_window b = w') bs)" for bs
    by (induction bs) auto
  from this [of "contact_budgets s"] show ?thesis
    unfolding budget_row_for_def by (simp split del: if_split)
qed

lemma budget_row_insert:
  "budget_row_for cust' ch' w' (s\<lparr>contact_budgets := contact_budgets s @ [b]\<rparr>) =
     (case budget_row_for cust' ch' w' s of Some r \<Rightarrow> Some r
      | None \<Rightarrow> if cb_customer b = cust' \<and> cb_channel b = ch' \<and> cb_window b = w' then Some b else None)"
  by (auto simp: budget_row_for_def find_append split: option.splits)

text \<open>One consumption adds exactly one use to its own counter.\<close>

lemma consume_cap_used:
  assumes "consume_cap E now cust c s = (Inr (), t)"
  shows "\<exists>w. windowStart E now (cc_windowDays c) = Inr w
     \<and> used_in cust' ch' w' t = used_in cust' ch' w' s + (if cust' = cust \<and> ch' = cc_channel c \<and> w' = w then 1 else 0)"
proof (cases "windowStart E now (cc_windowDays c)")
  case (Inl e)
  then show ?thesis using assms by (simp add: consume_cap_def monad_simps)
next
  case (Inr w)
  show ?thesis
  proof (cases "budget_row_for cust (cc_channel c) w s")
    case None
    then show ?thesis using assms Inr
      by (auto simp: consume_cap_def monad_simps used_in_def budget_row_insert split: option.splits if_splits)
  next
    case (Some b)
    then show ?thesis using assms Inr
      by (auto simp: consume_cap_def monad_simps used_in_def budget_row_update split: option.splits)
  qed
qed

lemma consume_used:
  assumes "consumeContactBudget E p now cust ch s = (Inr (), t)"
  shows "used_in cust' ch' w' t = used_in cust' ch' w' s
     + int (length (filter (\<lambda>cap. case cap of None \<Rightarrow> False | Some c \<Rightarrow>
          cust' = cust \<and> ch' = cc_channel c \<and> windowStart E now (cc_windowDays c) = Inr w') (caps_for p ch)))"
proof -
  have step: "used_in cust' ch' w' t = used_in cust' ch' w' s
     + (case cap of None \<Rightarrow> 0 | Some c \<Rightarrow>
          if cust' = cust \<and> ch' = cc_channel c \<and> windowStart E now (cc_windowDays c) = Inr w' then 1 else 0)"
    if "(case cap of None \<Rightarrow> retM () | Some c \<Rightarrow> consume_cap E now cust c) s = (Inr (), t)" for cap s t
    using that consume_cap_used [of E now cust _ s t cust' ch' w']
    by (cases cap) (force simp: monad_simps)+
  have "used_in cust' ch' w' t = used_in cust' ch' w' s
     + int (length (filter (\<lambda>cap. case cap of None \<Rightarrow> False | Some c \<Rightarrow>
          cust' = cust \<and> ch' = cc_channel c \<and> windowStart E now (cc_windowDays c) = Inr w') caps))"
    if "forM caps (\<lambda>cap. case cap of None \<Rightarrow> retM () | Some c \<Rightarrow> consume_cap E now cust c) s = (Inr (), t)"
    for caps s t
    using that
  proof (induction caps arbitrary: s)
    case (Cons cap caps)
    then obtain s1 where
      1: "(case cap of None \<Rightarrow> retM () | Some c \<Rightarrow> consume_cap E now cust c) s = (Inr (), s1)" and
      2: "forM caps (\<lambda>cap. case cap of None \<Rightarrow> retM () | Some c \<Rightarrow> consume_cap E now cust c) s1 = (Inr (), t)"
      by (auto simp: monad_simps split: prod.splits sum.splits)
    from step [OF 1] Cons.IH [OF 2] show ?case by (cases cap) auto
  qed (simp add: monad_simps)
  with assms show ?thesis unfolding consumeContactBudget_def transactM_Inr by blast
qed

text \<open>
  Consumed right after an allowed decision, no counter passes its cap. A channel
  named \<open>*\<close> would count twice, so the statement is about the others.
\<close>

lemma consume_within_caps:
  assumes room: "\<forall>c. Some c \<in> set (caps_for p ch) \<longrightarrow> cap_room E now cust c s" and ch: "ch \<noteq> ''*''"
    and run: "consumeContactBudget E p now cust ch s = (Inr (), t)"
    and c: "Some c \<in> set (caps_for p ch)" and w: "windowStart E now (cc_windowDays c) = Inr w"
  shows "used_in cust (cc_channel c) w t \<le> cc_max c"
proof -
  have "length (filter (\<lambda>cap. case cap of None \<Rightarrow> False | Some c' \<Rightarrow>
      cust = cust \<and> cc_channel c = cc_channel c' \<and> windowStart E now (cc_windowDays c') = Inr w) (caps_for p ch)) \<le> 1"
    using c ch by (auto simp: caps_for_def dest!: capFor_channel globalCap_channel split: option.splits)
  moreover have "used_in cust (cc_channel c) w s < cc_max c"
    using room c w by (auto simp: cap_room_def)
  ultimately show ?thesis using consume_used [OF run, of cust "cc_channel c" w] by simp
qed

text \<open>A minted token is stored.\<close>

lemma authorize_stored:
  assumes "authorize E p lib m now n ctx s = (Inr au, t)"
  shows "capability_tokens t = capability_tokens s @ (case au_token au of None \<Rightarrow> []
     | Some tok \<Rightarrow> [\<lparr>ct_case = ec_caseId ctx, ct_obligation = ec_obligationId ctx, ct_token = tok, ct_minted = now\<rparr>])"
proof -
  obtain d where d: "pe_evaluate E p lib now ctx s = (Inr d, s)"
    using authorize_Inr [OF assms] by blast
  show ?thesis
    using assms
    by (auto simp: authorize_def d monad_simps pe_record_def persistToken_def Let_def split: sum.splits if_splits)
qed

section \<open>Contacts one after the other\<close>

text \<open>
  A turn either leaves the counters alone (anything else the engine does, for any time) or is one contact: authorised,
  and counted in the state and at the instant of its authorisation. Two authorisations before the first count are not
  a sequence of turns; for them the caps do not hold, since only counting moves a counter.
\<close>

inductive contact_turn :: "env \<Rightarrow> Policy \<Rightarrow> ActionLibrary \<Rightarrow> CapabilityMinter \<Rightarrow> db \<Rightarrow> db \<Rightarrow> bool"
  for E :: env and p :: Policy and lib :: ActionLibrary and m :: CapabilityMinter where
  other_work: "contact_budgets t = contact_budgets s \<Longrightarrow> contact_turn E p lib m s t"
| contact: "\<lbrakk>authorize E p lib m now n ctx s = (Inr au, s1); au_token au \<noteq> None;
     lib_get lib (ec_actionId ctx) = Inr a; ad_consumesContactBudget a; channel_of E (ec_params ctx) \<noteq> ''*'';
     consumeContactBudget E p now (ec_customerId ctx) (channel_of E (ec_params ctx)) s1 = (Inr (), t)\<rbrakk>
     \<Longrightarrow> contact_turn E p lib m s t"

lemma used_in_budgets: "contact_budgets t = contact_budgets s \<Longrightarrow> used_in cust ch w t = used_in cust ch w s"
  by (simp add: used_in_def budget_row_for_def)

text \<open>A counter that a count raises is that of a cap of the channel or the global one, and was below it.\<close>

lemma consume_keeps_caps:
  assumes room: "\<forall>c. Some c \<in> set (caps_for p ch) \<longrightarrow> cap_room E now cust c s" and ch: "ch \<noteq> ''*''"
    and run: "consumeContactBudget E p now cust ch s = (Inr (), t)"
    and cap: "capFor p ch' = Some c" and le: "used_in cust' ch' w s \<le> cc_max c"
  shows "used_in cust' ch' w t \<le> cc_max c"
proof (cases "cust' = cust \<and> Some c \<in> set (caps_for p ch) \<and> windowStart E now (cc_windowDays c) = Inr w")
  case True
  then show ?thesis
    using consume_within_caps [OF room ch run, of c w] capFor_channel [OF cap] by simp
next
  case False
  have "c' = c" if "Some c' \<in> set (caps_for p ch)" "ch' = cc_channel c'" for c'
    using that cap capFor_channel [of p ch c'] globalCap_channel [of p c']
    by (auto simp: caps_for_def capFor_def globalCap_def)
  then have "filter (\<lambda>cap. case cap of None \<Rightarrow> False | Some c' \<Rightarrow>
      cust' = cust \<and> ch' = cc_channel c' \<and> windowStart E now (cc_windowDays c') = Inr w) (caps_for p ch) = []"
    using False by (auto simp: filter_empty_conv split: option.splits)
  then show ?thesis using consume_used [OF run, of cust' ch' w] le by simp
qed

lemma contact_turn_keeps_caps:
  assumes "contact_turn E p lib m s t" and "capFor p ch = Some c" and "used_in cust ch w s \<le> cc_max c"
  shows "used_in cust ch w t \<le> cc_max c"
  using assms(1)
proof cases
  case other_work
  show ?thesis unfolding used_in_budgets [OF other_work] by (rule assms(3))
next
  case (contact now n ctx au s1 a)
  note au = authorize_Inr [OF contact(1)]
  have eval: "pe_evaluate E p lib now ctx s = (Inr (au_decision au), s)" using au by blast
  have "pd_outcome (au_decision au) = allow" using au contact(2) by blast
  from pe_evaluate_allow [OF eval this] contact(3) have ok: "permitted E p a now ctx s" by auto
  have same: "contact_budgets s1 = contact_budgets s" using au by blast
  have "\<forall>c. Some c \<in> set (caps_for p (channel_of E (ec_params ctx))) \<longrightarrow> cap_room E now (ec_customerId ctx) c s"
    using ok contact(4) unfolding permitted_def by blast
  then have "\<forall>c. Some c \<in> set (caps_for p (channel_of E (ec_params ctx))) \<longrightarrow> cap_room E now (ec_customerId ctx) c s1"
    unfolding cap_room_def used_in_budgets [OF same] .
  from consume_keeps_caps [OF this contact(5,6) assms(2)] assms(3) show ?thesis
    by (simp add: used_in_budgets [OF same])
qed

lemma contact_turns_keep_caps:
  assumes "(contact_turn E p lib m)\<^sup>*\<^sup>* s t" and "capFor p ch = Some c" and "used_in cust ch w s \<le> cc_max c"
  shows "used_in cust ch w t \<le> cc_max c"
  using assms by (induction rule: rtranclp_induct) (blast intro: contact_turn_keeps_caps)+

end
