(* ===== verification/Simulated_PSP.thy ===== *)
theory Simulated_PSP
  imports Executor Policy_Engine Mulberry
begin

text \<open>
  \<open>packages/connectors/src/simulated-psp.ts\<close>: the simulator as an adapter. Its state are
  the settled outcomes by idempotency key and the random stream; the latent customers are
  fixed. The decimal constants of the conversion model are the doubles they denote.
\<close>

datatype LatentMandate = latent_active | latent_paused | latent_revoked

record LatentCustomer =
  la_hasFundsAfterMs :: int
  la_cardExpired :: bool
  la_mandateState :: LatentMandate
  la_respondsToLink :: rat
  la_willPayRegardless :: bool

definition DEFAULT_LATENT :: "env \<Rightarrow> LatentCustomer" where
  "DEFAULT_LATENT E =
     \<lparr>la_hasFundsAfterMs = 0, la_cardExpired = False, la_mandateState = latent_active,
      la_respondsToLink = fl E (35/100), la_willPayRegardless = False\<rparr>"

record simulator =
  sim_settled :: "(string \<times> PaymentStatus) list"
  sim_rand :: rng

definition ALL_CAPABILITIES :: "CapabilityName list" where
  "ALL_CAPABILITIES = [createPaymentLink, resumeCheckout, requestPaymentMethodUpdate,
     sendApprovedTemplate, createOpsEscalation, fetchPaymentStatus]"

definition newSimulator :: "int \<Rightarrow> simulator" where
  "newSimulator seed = \<lparr>sim_settled = [], sim_rand = mulberry32 seed\<rparr>"

definition latentFor :: "env \<Rightarrow> (string \<times> LatentCustomer) list \<Rightarrow> string \<Rightarrow> LatentCustomer" where
  "latentFor E latent c = (case map_of latent c of None \<Rightarrow> DEFAULT_LATENT E | Some x \<Rightarrow> x)"

definition fundsAvailable :: "int \<Rightarrow> LatentCustomer \<Rightarrow> bool" where
  "fundsAvailable now l \<longleftrightarrow> now \<ge> la_hasFundsAfterMs l"

definition dead_instrument :: "LatentCustomer \<Rightarrow> bool" where
  "dead_instrument l \<longleftrightarrow> la_cardExpired l \<or> la_mandateState l = latent_revoked"

text \<open>\<open>#convert\<close>, given the draw.\<close>

definition sim_convert :: "env \<Rightarrow> int \<Rightarrow> LatentCustomer \<Rightarrow> rat \<Rightarrow> CapabilityName \<Rightarrow> bool" where
  "sim_convert E now l d cap =
     (case cap of
        createPaymentLink \<Rightarrow>
          if \<not> fundsAvailable now l \<or> dead_instrument l then False else d < la_respondsToLink l
      | requestPaymentMethodUpdate \<Rightarrow>
          if dead_instrument l then d < fl E (42/100) else d < fl E (12/100)
      | sendApprovedTemplate \<Rightarrow>
          if \<not> fundsAvailable now l \<or> dead_instrument l then False else d < fl E (16/100)
      | resumeCheckout \<Rightarrow> fundsAvailable now l \<and> d < fl E (24/100)
      | createOpsEscalation \<Rightarrow> d < fl E (27/100)
      | fetchPaymentStatus \<Rightarrow> False)"

text \<open>\<open>Number(v ?? 0)\<close> of a JSON value; an object is NaN (\<open>None\<close>).\<close>

definition js_number_of :: "env \<Rightarrow> json option \<Rightarrow> rat option" where
  "js_number_of E v =
     (case v of
        None \<Rightarrow> Some 0
      | Some JNull \<Rightarrow> Some 0
      | Some (JBool b) \<Rightarrow> Some (if b then 1 else 0)
      | Some (JNum q) \<Rightarrow> Some q
      | Some (JObj _) \<Rightarrow> None
      | Some x \<Rightarrow> map_option of_int (js_Number (js_String E x)))"

definition sim_record ::
  "env \<Rightarrow> (string \<times> LatentCustomer) list \<Rightarrow> int \<Rightarrow> AdapterCall \<Rightarrow> CapabilityName \<Rightarrow> string \<Rightarrow> (simulator, CallResult) psp" where
  "sim_record E latent now call cap prefix = (\<lambda>w.
     let l = latentFor E latent (ac_customerId call);
         (d, r) = mulberry_next (sim_rand w);
         paid = sim_convert E now l d cap;
         reference = prefix @ ''_'' @ take 10 (ac_idemKey call)
     in (Inr \<lparr>cr_ok = True, cr_reference = Some reference,
              cr_detail = [(''paid'', JBool paid), (''fundsAvailable'', JBool (fundsAvailable now l)),
                           (''capability'', JStr (capability_str cap))]\<rparr>,
         \<lparr>sim_settled = AList.update (ac_idemKey call)
            \<lparr>ps_found = True, ps_captured = paid,
             ps_amountPaise = js_number_of E (map_of (ac_params call) ''amount''),
             ps_reference = Some reference\<rparr> (sim_settled w),
          sim_rand = r\<rparr>))"

definition add_detail :: "params \<Rightarrow> CallResult \<Rightarrow> CallResult" where
  "add_detail ps r = r\<lparr>cr_detail := cr_detail r @ ps\<rparr>"

definition param_prop :: "AdapterCall \<Rightarrow> string \<Rightarrow> string \<Rightarrow> params" where
  "param_prop call k name = opt_prop k (map_of (ac_params call) name)"

definition SimulatedPSP :: "env \<Rightarrow> (string \<times> LatentCustomer) list \<Rightarrow> int \<Rightarrow> simulator PSPAdapter" where
  "SimulatedPSP E latent now =
     \<lparr>pa_name = ''SimulatedPSP'', pa_surface = simulated, pa_capabilities = ALL_CAPABILITIES,
      pa_createPaymentLink = (\<lambda>call _. sim_record E latent now call createPaymentLink ''sim_link''),
      pa_resumeCheckout = (\<lambda>call _. sim_record E latent now call resumeCheckout ''sim_checkout''),
      pa_requestPaymentMethodUpdate = (\<lambda>call _. sim_record E latent now call requestPaymentMethodUpdate ''sim_update''),
      pa_sendApprovedTemplate = (\<lambda>call _.
         bindM (sim_record E latent now call sendApprovedTemplate ''sim_msg'') (\<lambda>res.
           retM (add_detail ([(''delivered'', JBool True)] @ param_prop call ''channel'' ''channel''
                              @ param_prop call ''template'' ''template_id'') res))),
      pa_createOpsEscalation = (\<lambda>call _.
         bindM (sim_record E latent now call createOpsEscalation ''sim_esc'') (\<lambda>res.
           retM (add_detail (param_prop call ''queue'' ''queue'') res))),
      pa_fetchPaymentStatus = (\<lambda>k. readM (\<lambda>w. case map_of (sim_settled w) k of
           None \<Rightarrow> \<lparr>ps_found = False, ps_captured = False, ps_amountPaise = None, ps_reference = None\<rparr>
         | Some st \<Rightarrow> st))\<rparr>"

section \<open>What the simulator answers\<close>

lemma sim_record_settled:
  "map_of (sim_settled (snd (sim_record E latent now call cap pre w))) k =
     (if k = ac_idemKey call
      then Some \<lparr>ps_found = True,
         ps_captured = sim_convert E now (latentFor E latent (ac_customerId call)) (fst (mulberry_next (sim_rand w))) cap,
         ps_amountPaise = js_number_of E (map_of (ac_params call) ''amount''),
         ps_reference = Some (pre @ ''_'' @ take 10 (ac_idemKey call))\<rparr>
      else map_of (sim_settled w) k)"
  by (simp add: sim_record_def Let_def update_conv' split: prod.split)

lemma sim_record_ok: "\<exists>r. fst (sim_record E latent now call cap pre w) = Inr r \<and> cr_ok r"
  by (simp add: sim_record_def Let_def split: prod.split)

text \<open>
  Every capability of the simulator but the probe succeeds, records its outcome under
  the call's key, and leaves every other key alone.
\<close>

lemma sim_invoke:
  assumes "cap \<noteq> fetchPaymentStatus"
  shows "\<exists>r w' st. invoke (SimulatedPSP E latent now) cap call tok w = (Inr r, w') \<and> cr_ok r
    \<and> map_of (sim_settled w') (ac_idemKey call) = Some st \<and> ps_found st
    \<and> ps_captured st = sim_convert E now (latentFor E latent (ac_customerId call)) (fst (mulberry_next (sim_rand w))) cap
    \<and> (\<forall>k. k \<noteq> ac_idemKey call \<longrightarrow> map_of (sim_settled w') k = map_of (sim_settled w) k)"
proof -
  have rec: "\<exists>r w' st. sim_record E latent now call cap pre w = (Inr r, w') \<and> cr_ok r
    \<and> map_of (sim_settled w') (ac_idemKey call) = Some st \<and> ps_found st
    \<and> ps_captured st = sim_convert E now (latentFor E latent (ac_customerId call)) (fst (mulberry_next (sim_rand w))) cap
    \<and> (\<forall>k. k \<noteq> ac_idemKey call \<longrightarrow> map_of (sim_settled w') k = map_of (sim_settled w) k)" for pre
    using sim_record_ok [of E latent now call cap pre w] sim_record_settled [of E latent now call cap pre w]
    by (cases "sim_record E latent now call cap pre w") auto
  have more: "\<exists>r w' st. bindM (sim_record E latent now call cap pre) (\<lambda>res. retM (add_detail ps res)) w = (Inr r, w') \<and> cr_ok r
    \<and> map_of (sim_settled w') (ac_idemKey call) = Some st \<and> ps_found st
    \<and> ps_captured st = sim_convert E now (latentFor E latent (ac_customerId call)) (fst (mulberry_next (sim_rand w))) cap
    \<and> (\<forall>k. k \<noteq> ac_idemKey call \<longrightarrow> map_of (sim_settled w') k = map_of (sim_settled w) k)" for pre ps
    using rec [of pre] by (auto simp: bindM_app retM_app add_detail_def)
  show ?thesis
    using assms rec more by (cases cap) (simp_all add: invoke_def SimulatedPSP_def ALL_CAPABILITIES_def)
qed

lemma sim_fetch:
  "pa_fetchPaymentStatus (SimulatedPSP E latent now) k w =
     (Inr (case map_of (sim_settled w) k of
           None \<Rightarrow> \<lparr>ps_found = False, ps_captured = False, ps_amountPaise = None, ps_reference = None\<rparr>
         | Some st \<Rightarrow> st), w)"
  by (simp add: SimulatedPSP_def readM_app)

text \<open>On a dead instrument only a new instrument or a human converts.\<close>

lemma dead_instrument_converts:
  "dead_instrument l \<Longrightarrow> sim_convert E now l d cap \<Longrightarrow>
     cap \<in> {requestPaymentMethodUpdate, resumeCheckout, createOpsEscalation}"
  by (cases cap) (auto simp: sim_convert_def)

lemma no_funds_converts:
  "\<not> fundsAvailable now l \<Longrightarrow> sim_convert E now l d cap \<Longrightarrow>
     cap \<in> {requestPaymentMethodUpdate, createOpsEscalation}"
  by (cases cap) (auto simp: sim_convert_def)

end
