(* ===== verification/Razorpay.thy ===== *)
theory Razorpay
  imports Executor Policy_Engine
begin

text \<open>
  \<open>packages/connectors/src/razorpay-test-adapter.ts\<close>: the live adapter. The HTTP client
  is a parameter on the outside world's state; the request it is given and the reading of
  its response are modelled. Texts are byte strings.
\<close>

definition RAZORPAY_REFERENCE_MAX :: nat where
  "RAZORPAY_REFERENCE_MAX = 40"

definition toReferenceId :: "string \<Rightarrow> string" where
  "toReferenceId idemKey = take RAZORPAY_REFERENCE_MAX idemKey"

record RazorpayCredentials =
  cd_keyId :: string
  cd_keySecret :: string
  cd_webhookSecret :: string

record HttpRequest =
  hq_url :: string
  hq_method :: string
  hq_headers :: "(string \<times> string) list"
  hq_body :: "json option"

record HttpResponse =
  hs_ok :: bool
  hs_status :: int
  hs_json :: "err + params"

type_synonym 'w http = "HttpRequest \<Rightarrow> ('w, HttpResponse) psp"

text \<open>\<open>Buffer.toString("base64")\<close> and \<open>encodeURIComponent\<close> on byte strings.\<close>

definition b64_char :: "nat \<Rightarrow> char" where
  "b64_char n = (if n < 26 then char_of (65 + n) else if n < 52 then char_of (71 + n)
     else if n < 62 then char_of (n - 4) else if n = 62 then CHR ''+'' else CHR ''/'')"

fun b64 :: "nat list \<Rightarrow> string" where
  "b64 [] = []"
| "b64 [a] = [b64_char (a div 4), b64_char ((a mod 4) * 16), CHR ''='', CHR ''='']"
| "b64 [a, b] = [b64_char (a div 4), b64_char ((a mod 4) * 16 + b div 16), b64_char ((b mod 16) * 4), CHR ''='']"
| "b64 (a # b # c # xs) =
     [b64_char (a div 4), b64_char ((a mod 4) * 16 + b div 16), b64_char ((b mod 16) * 4 + c div 64), b64_char (c mod 64)]
     @ b64 xs"

definition base64 :: "string \<Rightarrow> string" where
  "base64 s = b64 (map of_char s)"

definition unreserved :: "char \<Rightarrow> bool" where
  "unreserved c \<longleftrightarrow> (let n = of_char c :: nat in
     n \<in> {48..57} \<or> n \<in> {65..90} \<or> n \<in> {97..122}) \<or> c \<in> set ''-_.!~*()'' \<or> c = CHR 0x27"

definition upper_hex :: "nat \<Rightarrow> char" where
  "upper_hex n = (if n < 10 then char_of (48 + n) else char_of (55 + n))"

definition encodeURIComponent :: "string \<Rightarrow> string" where
  "encodeURIComponent s = concat (map (\<lambda>c. if unreserved c then [c]
     else [CHR 0x25, upper_hex (of_char c div 16), upper_hex (of_char c mod 16)]) s)"

definition basic_auth :: "RazorpayCredentials \<Rightarrow> string" where
  "basic_auth cr = ''Basic '' @ base64 (cd_keyId cr @ '':'' @ cd_keySecret cr)"

text \<open>The amount sent: the token's cap, and only without one the caller's parameter.\<close>

definition link_amount :: "AdapterCall \<Rightarrow> CapabilityToken \<Rightarrow> json option" where
  "link_amount call token = (case tk_amountCapPaise token of
     Some a \<Rightarrow> Some (JInt a) | None \<Rightarrow> map_of (ac_params call) ''amount'')"

definition link_body :: "env \<Rightarrow> AdapterCall \<Rightarrow> CapabilityToken \<Rightarrow> params" where
  "link_body E call token =
     opt_prop ''amount'' (link_amount call token)
     @ [(''currency'', JStr ''INR''), (''reference_id'', JStr (toReferenceId (ac_idemKey call))),
        (''expire_by'', case parse_iso E (tk_notAfter token) of
            None \<Rightarrow> JNull | Some t \<Rightarrow> JInt (t div 1000 + 86400)),
        (''notes'', JObj [(''case_id'', JStr (ac_caseId call)), (''obligation_id'', JStr (ac_obligationId call))])]"

definition link_request :: "env \<Rightarrow> RazorpayCredentials \<Rightarrow> AdapterCall \<Rightarrow> CapabilityToken \<Rightarrow> HttpRequest" where
  "link_request E cr call token =
     \<lparr>hq_url = ''https://api.razorpay.com/v1/payment_links'', hq_method = ''POST'',
      hq_headers = [(''Authorization'', basic_auth cr), (''Content-Type'', ''application/json''),
                    (''X-Idempotency-Key'', ac_idemKey call)],
      hq_body = Some (JObj (link_body E call token))\<rparr>"

definition status_request :: "RazorpayCredentials \<Rightarrow> string \<Rightarrow> HttpRequest" where
  "status_request cr idemKey =
     \<lparr>hq_url = ''https://api.razorpay.com/v1/payment_links?reference_id='' @ encodeURIComponent (toReferenceId idemKey),
      hq_method = ''GET'', hq_headers = [(''Authorization'', basic_auth cr)], hq_body = None\<rparr>"

text \<open>Optional chaining \<open>v?.k\<close> on a JSON value.\<close>

definition prop_of :: "json option \<Rightarrow> string \<Rightarrow> json option" where
  "prop_of v k = (case v of Some (JObj ps) \<Rightarrow> map_of ps k | _ \<Rightarrow> None)"

text \<open>\<open>a ?? b\<close> on JSON values: \<open>null\<close> and \<open>undefined\<close> give \<open>b\<close>.\<close>

definition nullish :: "json option \<Rightarrow> json option \<Rightarrow> json option" where
  "nullish a b = (case a of None \<Rightarrow> b | Some JNull \<Rightarrow> b | Some x \<Rightarrow> Some x)"

definition set_prop :: "params \<Rightarrow> string \<Rightarrow> json \<Rightarrow> params" where
  "set_prop ps k v = AList.update k v ps"

definition link_result :: "env \<Rightarrow> HttpResponse \<Rightarrow> params \<Rightarrow> CallResult" where
  "link_result E res body =
     (if \<not> hs_ok res
      then \<lparr>cr_ok = False, cr_reference = None,
            cr_detail = set_prop (set_prop body ''httpStatus'' (JInt (hs_status res))) ''message''
              (case nullish (prop_of (map_of body ''error'') ''description'') None of
                 Some d \<Rightarrow> d | None \<Rightarrow> JStr (''razorpay returned '' @ int_str (hs_status res)))\<rparr>
      else \<lparr>cr_ok = True,
            cr_reference = (case map_of body ''id'' of Some (JStr i) \<Rightarrow> Some i | _ \<Rightarrow> None),
            cr_detail = body\<rparr>)"

definition rz_createPaymentLink ::
  "env \<Rightarrow> RazorpayCredentials \<Rightarrow> 'w http \<Rightarrow> AdapterCall \<Rightarrow> CapabilityToken \<Rightarrow> ('w, CallResult) psp" where
  "rz_createPaymentLink E cr http call token =
     bindM (http (link_request E cr call token)) (\<lambda>res.
     bindM (liftE (hs_json res)) (\<lambda>body. retM (link_result E res body)))"

text \<open>The first link of the listing, and its status.\<close>

definition not_found :: PaymentStatus where
  "not_found = \<lparr>ps_found = False, ps_captured = False, ps_amountPaise = None, ps_reference = None\<rparr>"

definition link_status :: "params \<Rightarrow> PaymentStatus" where
  "link_status body = (case map_of body ''payment_links'' of
     Some (JArr (JObj l # _)) \<Rightarrow>
       \<lparr>ps_found = True, ps_captured = (map_of l ''status'' = Some (JStr ''paid'')),
        ps_amountPaise = (case map_of l ''amount'' of Some (JNum q) \<Rightarrow> Some q | _ \<Rightarrow> None),
        ps_reference = (case map_of l ''id'' of Some (JStr i) \<Rightarrow> Some i | _ \<Rightarrow> None)\<rparr>
   | _ \<Rightarrow> not_found)"

definition rz_fetchPaymentStatus ::
  "RazorpayCredentials \<Rightarrow> 'w http \<Rightarrow> string \<Rightarrow> ('w, PaymentStatus) psp" where
  "rz_fetchPaymentStatus cr http idemKey =
     bindM (http (status_request cr idemKey)) (\<lambda>res.
       if \<not> hs_ok res then retM not_found
       else bindM (liftE (hs_json res)) (\<lambda>body. retM (link_status body)))"

definition RazorpayTestAdapter :: "env \<Rightarrow> RazorpayCredentials \<Rightarrow> 'w http \<Rightarrow> 'w PSPAdapter" where
  "RazorpayTestAdapter E cr http =
     \<lparr>pa_name = ''RazorpayTestAdapter'', pa_surface = live,
      pa_capabilities = [createPaymentLink, fetchPaymentStatus],
      pa_createPaymentLink = rz_createPaymentLink E cr http,
      pa_resumeCheckout = (\<lambda>_ _. throwM (UnsupportedCapabilityError ''RazorpayTestAdapter'' ''resumeCheckout'')),
      pa_requestPaymentMethodUpdate = (\<lambda>_ _. throwM (UnsupportedCapabilityError ''RazorpayTestAdapter'' ''requestPaymentMethodUpdate'')),
      pa_sendApprovedTemplate = (\<lambda>_ _. throwM (UnsupportedCapabilityError ''RazorpayTestAdapter'' ''sendApprovedTemplate'')),
      pa_createOpsEscalation = (\<lambda>_ _. throwM (UnsupportedCapabilityError ''RazorpayTestAdapter'' ''createOpsEscalation'')),
      pa_fetchPaymentStatus = rz_fetchPaymentStatus cr http\<rparr>"

text \<open>A provider that is not asked is not changed: only \<open>createPaymentLink\<close> gets through.\<close>

lemma razorpay_unsupported:
  assumes "cap \<noteq> createPaymentLink"
  shows "\<exists>e. invoke (RazorpayTestAdapter E cr http) cap call tok w = (Inl e, w)"
  using assms by (cases cap) (auto simp: invoke_def RazorpayTestAdapter_def throwM_def)

text \<open>The reference a link is created under is the one its status is asked for.\<close>

lemma unreserved_hex: "c \<in> set (hex_encode bs) \<Longrightarrow> unreserved c"
proof -
  assume "c \<in> set (hex_encode bs)"
  then obtain b where "c = hex_digit (unat (b :: 8 word) div 16) \<or> c = hex_digit (unat b mod 16)"
    by (auto simp: hex_encode_def)
  moreover have "unat b < 256" using unsigned_less [where ?'a = nat, of b] by simp
  then have "unat b div 16 < 16" "unat b mod 16 < 16" by auto
  moreover have "unreserved (hex_digit n)" if "n < 16" for n
    using nibble_cases [OF that] by (auto simp: hex_digit_def unreserved_def)
  ultimately show ?thesis by auto
qed

lemma encodeURIComponent_unreserved: "\<forall>c \<in> set s. unreserved c \<Longrightarrow> encodeURIComponent s = s"
  by (induction s) (auto simp: encodeURIComponent_def)

lemma status_reference:
  "hq_url (status_request cr (hex_encode bs)) =
     ''https://api.razorpay.com/v1/payment_links?reference_id='' @ toReferenceId (hex_encode bs)"
proof -
  have "encodeURIComponent (toReferenceId (hex_encode bs)) = toReferenceId (hex_encode bs)"
    by (rule encodeURIComponent_unreserved)
       (use unreserved_hex [of _ bs] in \<open>auto simp: toReferenceId_def dest: in_set_takeD\<close>)
  then show ?thesis by (simp only: status_request_def HttpRequest.simps)
qed

lemma link_reference:
  "map_of (link_body E call tok) ''reference_id'' = Some (JStr (toReferenceId (ac_idemKey call)))"
  by (simp add: link_body_def opt_prop_def split: option.split)

lemma toReferenceId_length: "length (toReferenceId k) \<le> 40"
  by (simp add: toReferenceId_def RAZORPAY_REFERENCE_MAX_def)

text \<open>With an amount-capped token the link is for the cap, whatever the parameters say.\<close>

lemma link_amount_capped:
  "tk_amountCapPaise tok = Some a \<Longrightarrow> map_of (link_body E call tok) ''amount'' = Some (JInt a)"
  by (simp add: link_body_def opt_prop_def link_amount_def)

end
