(* ===== verification/Webhook.thy ===== *)
theory Webhook
  imports Razorpay Verifier
begin

text \<open>
  \<open>packages/connectors/src/webhook.ts\<close> and \<open>packages/console/src/webhook-route.ts\<close>: the
  signature check, the normalisation of a delivery, and the inbound route that verifies,
  deduplicates, settles and acknowledges. The parser of the JSON text is a field of the
  environment. A body over the size limit is \<open>None\<close>.
\<close>

definition verifyWebhookSignature :: "env \<Rightarrow> string \<Rightarrow> string \<Rightarrow> string \<Rightarrow> bool" where
  "verifyWebhookSignature E rawBody signature secret =
     (if signature = [] \<or> secret = [] then False
      else (let expected = hmac_sha256 E secret rawBody; actual = hex_decode signature
            in length expected = length actual \<and> expected = actual))"

record NormalizedEvent =
  ne_eventId :: string
  ne_type :: "json option"
  ne_occurredAt :: "rat option"
  ne_merchantId :: string
  ne_externalRef :: "string option"
  ne_amountPaise :: "rat option"
  ne_rail :: "string option"
  ne_errorCode :: "string option"
  ne_notes :: "json option"
  ne_raw :: "json option"

definition METHOD_TO_RAIL :: "(string \<times> string) list" where
  "METHOD_TO_RAIL = [(''card'', ''card''), (''upi'', ''upi_collect''), (''netbanking'', ''netbanking''),
     (''wallet'', ''wallet''), (''emandate'', ''enach''), (''nach'', ''enach'')]"

definition as_string :: "json option \<Rightarrow> string option" where
  "as_string v = (case v of Some (JStr x) \<Rightarrow> Some x | _ \<Rightarrow> None)"

definition first_some :: "'a option \<Rightarrow> 'a option \<Rightarrow> 'a option" where
  "first_some a b = (case a of None \<Rightarrow> b | Some x \<Rightarrow> Some x)"

text \<open>\<open>`${v}`\<close> and \<open>String(v)\<close> of a value that may be undefined.\<close>

definition text_of :: "env \<Rightarrow> json option \<Rightarrow> string" where
  "text_of E v = (case v of None \<Rightarrow> ''undefined'' | Some x \<Rightarrow> js_String E x)"

definition entity_of :: "json option \<Rightarrow> json option" where
  "entity_of body =
     (let p = (\<lambda>k. prop_of (prop_of (prop_of body ''payload'') k) ''entity'') in
      nullish (p ''payment'') (nullish (p ''payment_link'') (nullish (p ''subscription'') (Some (JObj [])))))"

definition normalize :: "env \<Rightarrow> json \<Rightarrow> string \<Rightarrow> NormalizedEvent" where
  "normalize E body merchantId =
     (let b = Some body; entity = entity_of b; created = nullish (prop_of b ''created_at'') (Some (JNum 0));
          notes = nullish (prop_of entity ''notes'') (Some (JObj []));
          rail_method = as_string (prop_of entity ''method'')
      in \<lparr>ne_eventId = text_of E (nullish (prop_of entity ''id'')
              (Some (JStr (text_of E (prop_of b ''event'') @ '':'' @ text_of E created)))),
          ne_type = prop_of b ''event'',
          ne_occurredAt = (case created of Some (JNum q) \<Rightarrow> Some (fmul E q 1000) | _ \<Rightarrow> None),
          ne_merchantId = merchantId,
          ne_externalRef = first_some (as_string (prop_of notes ''external_ref'')) (as_string (prop_of entity ''reference_id'')),
          ne_amountPaise = (case prop_of entity ''amount'' of Some (JNum q) \<Rightarrow> Some q | _ \<Rightarrow> None),
          ne_rail = (case rail_method of None \<Rightarrow> None
             | Some m \<Rightarrow> if m = [] then None else Some (case map_of METHOD_TO_RAIL m of Some r \<Rightarrow> r | None \<Rightarrow> m)),
          ne_errorCode = first_some (as_string (prop_of entity ''error_reason'')) (as_string (prop_of entity ''error_code'')),
          ne_notes = notes, ne_raw = entity\<rparr>)"

definition ingestWebhook :: "env \<Rightarrow> string \<Rightarrow> string \<Rightarrow> string \<Rightarrow> string \<Rightarrow> err + NormalizedEvent" where
  "ingestWebhook E rawBody signature secret merchantId =
     (if \<not> verifyWebhookSignature E rawBody signature secret then Inl UnverifiedWebhookError
      else (case parse_json E rawBody of
              None \<Rightarrow> Inl (Error ''SyntaxError'')
            | Some JNull \<Rightarrow> Inl (Error ''TypeError'')
            | Some body \<Rightarrow> Inr (normalize E body merchantId)))"

section \<open>The route\<close>

definition PAID_EVENTS :: "string list" where
  "PAID_EVENTS = [''payment_link.paid'', ''payment.captured'', ''subscription.charged'']"

fun outcome_kind :: "VerificationOutcome \<Rightarrow> string" where
  "outcome_kind (recovered _) = ''recovered''"
| "outcome_kind (partial _ _) = ''partial''"
| "outcome_kind unmatched_outcome = ''unmatched''"
| "outcome_kind no_open_case = ''no_open_case''"

text \<open>
  The attempt a delivery belongs to: by the obligation our notes carry, or by the
  truncated idempotency key; the latest one sent.
\<close>

definition attempt_for :: "env \<Rightarrow> NormalizedEvent \<Rightarrow> db \<Rightarrow> (attempt_row \<times> obligation_row) option" where
  "attempt_for E ev s =
     (let ob = text_of E (nullish (prop_of (ne_notes ev) ''obligation_id'') (Some (JStr [])));
          reference = dflt (ne_externalRef ev) [];
          joined = concat (map (\<lambda>a. map (Pair a) (filter (\<lambda>b. ob_id b = at_obligation a) (obligations s))) (action_attempts s));
          hits = filter (\<lambda>(a, b). at_obligation a = ob \<or> take 40 (at_idem a) = reference) joined
      in (case sort_key (\<lambda>(a, b). - at_sent a) hits of [] \<Rightarrow> None | x # _ \<Rightarrow> Some x))"

text \<open>The amount column is an integer: an amount that is not one is refused by the data base.\<close>

definition settleIfPaid :: "env \<Rightarrow> int \<Rightarrow> NormalizedEvent \<Rightarrow> (string \<times> string) option dbm" where
  "settleIfPaid E now ev =
     (if ne_type ev \<notin> Some ` JStr ` set PAID_EVENTS then retM None
      else bindM (readM (attempt_for E ev)) (\<lambda>hit.
        case hit of
          None \<Rightarrow> retM None
        | Some (a, b) \<Rightarrow>
            (let amt = dflt (ne_amountPaise ev) (of_int (ob_amount b)) in
             if of_int \<lfloor>amt\<rfloor> \<noteq> amt then throwM (Error ''invalid input syntax for type bigint'')
             else bindM (onSettlement now
                   \<lparr>ib_id = ''set_wh_'' @ ne_eventId ev, ib_merchantId = ob_merchant b,
                    ib_amountPaise = \<lfloor>amt\<rfloor>, ib_source = ''razorpay_webhook'', ib_reference = None,
                    ib_idemKey = Some (at_idem a), ib_virtualAccount = None\<rparr>)
               (\<lambda>out. retM (Some (at_case a, outcome_kind out))))))"

definition webhook_seen :: "string \<Rightarrow> db \<Rightarrow> bool" where
  "webhook_seen i s \<longleftrightarrow> (\<exists>l \<in> set (ledger s). lg_type l = ''webhook_received''
     \<and> map_of (lg_payload l) ''eventId'' = Some (JStr i))"

definition webhook_payload :: "NormalizedEvent \<Rightarrow> string option \<Rightarrow> params" where
  "webhook_payload ev settled =
     [(''eventId'', JStr (ne_eventId ev))] @ opt_prop ''type'' (ne_type ev)
     @ [(''rail'', jopt (ne_rail ev)), (''errorCode'', jopt (ne_errorCode ev)),
        (''externalRef'', jopt (ne_externalRef ev)),
        (''amountPaise'', case ne_amountPaise ev of None \<Rightarrow> JNull | Some q \<Rightarrow> JNum q),
        (''settled'', jopt settled), (''surface'', JStr ''live'')]"

definition accept_webhook :: "env \<Rightarrow> int \<Rightarrow> NormalizedEvent \<Rightarrow> (nat \<times> string) dbm" where
  "accept_webhook E now ev =
     bindM (settleIfPaid E now ev) (\<lambda>settlement.
     thenM (ledger_append now
              (case settlement of Some (c, _) \<Rightarrow> c | None \<Rightarrow> dflt (ne_externalRef ev) (ne_eventId ev))
              ''razorpay_webhook'' ''webhook_received'' (webhook_payload ev (map_option snd settlement)))
           (retM (200, case settlement of Some (c, oc) \<Rightarrow> ''ok - case '' @ c @ '' '' @ oc | None \<Rightarrow> ''ok'')))"

definition handleWebhook ::
  "env \<Rightarrow> string \<Rightarrow> string \<Rightarrow> int \<Rightarrow> string option \<Rightarrow> string \<Rightarrow> (nat \<times> string) dbm" where
  "handleWebhook E secret merchantId now body signature =
     (case body of
        None \<Rightarrow> retM (413, ''body too large'')
      | Some raw \<Rightarrow>
          if secret = [] then retM (503, ''RAZORPAY_WEBHOOK_SECRET is not configured'')
          else (case ingestWebhook E raw signature secret merchantId of
             Inl UnverifiedWebhookError \<Rightarrow> retM (401, ''signature verification failed'')
           | Inl _ \<Rightarrow> retM (400, ''malformed body'')
           | Inr ev \<Rightarrow> bindM (readM (webhook_seen (ne_eventId ev))) (\<lambda>dup.
               if dup then retM (200, ''duplicate, already processed'')
               else accept_webhook E now ev)))"

section \<open>What gets in\<close>

lemma verify_iff:
  "verifyWebhookSignature E raw sig secret \<longleftrightarrow>
     sig \<noteq> [] \<and> secret \<noteq> [] \<and> hex_decode sig = hmac_sha256 E secret raw"
  by (auto simp: verifyWebhookSignature_def Let_def)

lemma handle_forged:
  assumes "\<not> verifyWebhookSignature E raw sig secret" and "secret \<noteq> []"
  shows "handleWebhook E secret m now (Some raw) sig s = (Inr (401, ''signature verification failed''), s)"
  using assms by (simp add: handleWebhook_def ingestWebhook_def retM_app)

text \<open>A signed delivery that was recorded is answered and changes nothing, at any later time.\<close>

lemma handle_duplicate:
  assumes "ingestWebhook E raw sig secret m = Inr ev" and "webhook_seen (ne_eventId ev) s" and "secret \<noteq> []"
  shows "handleWebhook E secret m now (Some raw) sig s = (Inr (200, ''duplicate, already processed''), s)"
  using assms by (simp add: handleWebhook_def bindM_app readM_app retM_app)

lemma accept_webhook_seen:
  assumes "accept_webhook E now ev s = (Inr x, t)"
  shows "webhook_seen (ne_eventId ev) t"
  using assms
  by (auto simp: accept_webhook_def bindM_app thenM_app retM_app ledger_append_app webhook_seen_def webhook_payload_def
      split: prod.splits sum.splits)

lemma handle_acknowledged:
  assumes run: "handleWebhook E secret m now (Some raw) sig s = (Inr (200, txt), t)"
  shows "secret \<noteq> [] \<and> (\<exists>ev. ingestWebhook E raw sig secret m = Inr ev \<and> webhook_seen (ne_eventId ev) t)"
proof -
  have sec: "secret \<noteq> []" using run by (auto simp: handleWebhook_def retM_app split: if_splits)
  obtain ev where ev: "ingestWebhook E raw sig secret m = Inr ev"
    using run sec by (auto simp: handleWebhook_def retM_app split: sum.splits err.splits)
  have "webhook_seen (ne_eventId ev) t"
  proof (cases "webhook_seen (ne_eventId ev) s")
    case True
    with handle_duplicate [OF ev True sec] run show ?thesis by simp
  next
    case False
    with run sec ev have "accept_webhook E now ev s = (Inr (200, txt), t)"
      by (simp add: handleWebhook_def bindM_app readM_app)
    then show ?thesis by (rule accept_webhook_seen)
  qed
  with sec ev show ?thesis by blast
qed

lemma settleIfPaid_paid: "preserves paid_inv (settleIfPaid E now ev)"
  unfolding settleIfPaid_def Let_def
  by (intro preserves_intros) (auto intro!: preserves_intros split: prod.splits)

lemma handleWebhook_paid [preserves_intros]: "preserves paid_inv (handleWebhook E secret m now body sig)"
proof -
  have acc: "preserves paid_inv (accept_webhook E now ev)" for ev
    unfolding accept_webhook_def by (intro preserves_intros settleIfPaid_paid)
  show ?thesis
    unfolding handleWebhook_def
    by (auto intro!: preserves_intros acc split: option.splits sum.splits err.splits)
qed

end
