(* ===== verification/System.thy ===== *)
theory System
  imports Blackboard Tier0 Mandate_Sequencer Checkout_Watcher Intent_Router Executor
    Release_Controller Simulated_PSP Webhook Policy_Engine Obligation_Lease
begin

text \<open>
  The engine as one transition system over the data base. A step is one call of a
  component's operation by the runner, the console or the webhook route, with any
  arguments at any time; what a component does not return to the data base (a provider,
  the controller's memory) is any value. The events the runner appends itself are those
  of \<open>packages/sim/src/runner.ts\<close>: none of them is terminal, because a case is closed
  by the verifier alone.
\<close>

fun runner_event :: "CaseEvent \<Rightarrow> bool" where
  "runner_event (terminal_reached _ _) = False"
| "runner_event _ = True"

definition after :: "'a dbm \<Rightarrow> db \<Rightarrow> db" where
  "after m s = snd (m s)"

definition after_io :: "'w \<Rightarrow> ('w, 'a) iom \<Rightarrow> db \<Rightarrow> db" where
  "after_io w m s = fst (snd (m (s, w)))"

inductive case_step :: "db \<Rightarrow> db \<Rightarrow> bool" where
  open_case: "case_step s (after (openOrAttach now req) s)"
| append: "runner_event ev \<Longrightarrow> case_step s (after (event_append now c ev src) s)"
| settlement: "case_step s (after (onSettlement now x) s)"
| outcome: "case_step s (after (onOutcome now sig) s)"
| exhausted: "case_step s (after (exhaust now c reason) s)"
| intent: "case_step s (after (ir_route E grace now pid i ctx) s)"
| webhook: "case_step s (after (handleWebhook E secret m now body sig) s)"
| attach: "case_step s (after (attachAndSuppress now inc cs) s)"
| ramp: "case_step s (after_io w (release_step E rcfg now inc h) s)"

inductive queue_step :: "db \<Rightarrow> db \<Rightarrow> bool" where
  schedule: "queue_step s (after (sched_schedule now req) s)"
| tick: "queue_step s (after (Scheduler.tick E leaseMs now locked owner limit) s)"
| complete: "queue_step s (after (sched_complete now i) s)"
| give_back: "queue_step s (after (sched_release i) s)"
| reclaim: "queue_step s (after (reclaimExpiredLeases now) s)"
| cancel: "queue_step s (after (cancelForCase now c) s)"

inductive action_step :: "db \<Rightarrow> db \<Rightarrow> bool" where
  authorize: "action_step s (after (Policy_Engine.authorize E p lib m now nonce ctx) s)"
| consume: "action_step s (after (consumeContactBudget E p now cust ch) s)"
| execute: "action_step s (after_io (w :: 'w) (Executor.execute E ad lib m ttl now req) s)"
| reconcile: "action_step s (after_io (w :: 'w) (Executor.reconcile ad now) s)"
| lock: "action_step s (after (tryAcquire ttl now ob holder) s)"
| unlock: "action_step s (after (Obligation_Lease.release ob holder) s)"

inductive board_step :: "db \<Rightarrow> db \<Rightarrow> bool" where
  evidence: "board_step s (after (addEvidence now e) s)"
| claim: "board_step s (after (writeClaim now c) s)"
| run: "board_step s (after (recordRun r) s)"
| route: "board_step s (after (Blackboard.route E now rvn) s)"
| promises: "board_step s (after (reconcilePromises now) s)"
| touch: "board_step s (after (Checkout_Watcher.touch now ev) s)"
| completed: "board_step s (after (checkout_complete now m ref) s)"
| converted: "board_step s (after (markConverted E th now sid cid) s)"
| open_incident: "board_step s (after (incident_open now i cand by) s)"
| rca: "board_step s (after (recordRca now inc rca) s)"
| labels: "board_step s (after (label_case c g) s)"
| noted: "board_step s (after (ledger_append now c actor ty p) s)"

definition sys_step :: "'w itself \<Rightarrow> db \<Rightarrow> db \<Rightarrow> bool" where
  "sys_step (w :: 'w itself) s t \<longleftrightarrow> case_step s t \<or> queue_step s t \<or> action_step TYPE('w) s t \<or> board_step s t"

section \<open>What an invariant of the engine has to keep\<close>

text \<open>
  An invariant that does not read the bookkeeping tables, holds on when the ledger grows and is kept by the writes
  below is kept by every step.
\<close>

locale bookkeeping =
  fixes I :: "db \<Rightarrow> bool"
  assumes logged: "I s \<Longrightarrow> I (s\<lparr>ledger := ledger s @ [l]\<rparr>)"
    and frame: "I (s\<lparr>obligation_locks := x1\<rparr>) = I s" "I (s\<lparr>evidence := x3\<rparr>) = I s" "I (s\<lparr>agent_runs := x4\<rparr>) = I s"
      "I (s\<lparr>capability_tokens := x5\<rparr>) = I s" "I (s\<lparr>contact_budgets := x6\<rparr>) = I s"
      "I (s\<lparr>policy_decisions := x7\<rparr>) = I s" "I (s\<lparr>incidents := x8\<rparr>) = I s"
      "I (s\<lparr>incident_members := x9\<rparr>) = I s" "I (s\<lparr>promises_to_pay := x10\<rparr>) = I s"
      "I (s\<lparr>checkout_sessions := x11\<rparr>) = I s"
begin

lemma ledger: "preserves I (ledger_append now c actor ty p)"
  by (rule preservesI) (simp add: ledger_append_app logged)

end

locale engine_invariant = bookkeeping +
  assumes open_case: "preserves I (openOrAttach now oreq)"
    and append: "(\<And>why. ev \<noteq> terminal_reached RECOVERED why) \<Longrightarrow> preserves I (event_append now c ev src)"
    and settlement: "preserves I (onSettlement now ib)"
    and schedule: "preserves I (sched_schedule now sreq)"
    and actions: "\<And>P f. \<lbrakk>\<And>a. sa_id (f a) = sa_id a; \<And>a. P a \<Longrightarrow> row_shape a \<Longrightarrow> row_shape (f a);
        \<And>a. P a \<Longrightarrow> \<not> row_final (sa_state a)\<rbrakk> \<Longrightarrow> I s \<Longrightarrow> I (s\<lparr>scheduled_actions := update_where P f (scheduled_actions s)\<rparr>)"
    and tick: "preserves I (Scheduler.tick E leaseMs now locked owner limit)"
    and burn: "preserves I (burn now tok)"
    and attempt: "preserves I (record_attempt a)"
    and settle: "preserves I (settle now k st resp)"
    and claim: "preserves I (writeClaim now wc)"
    and invalidate: "preserves I (invalidateRoles now c roles)"
    and label: "preserves I (label_case c g)"
begin

lemmas base = open_case append settlement schedule burn attempt settle claim invalidate

lemma cancels: "preserves I (cancel_outstanding c now)"
  unfolding cancel_outstanding_def
  by (rule preserves_modifyM, rule actions) (auto simp: cancel_row_def row_shape_def row_final_def outstanding_def)

lemma cancel: "preserves I (cancelForCase now c)"
  unfolding cancelForCase_def by (intro preserves_intros cancels)

lemma outcome: "preserves I (onOutcome now sig)"
  unfolding onOutcome_def
  by (intro preserves_intros ledger append) (cases "os_result sig"; simp)

lemma exhausted: "preserves I (exhaust now c reason)"
  unfolding exhaust_def by (intro preserves_intros ledger append) simp

lemma attached: "preserves I (attachAndSuppress now inc cs)"
  unfolding attachAndSuppress_def attach_step_def attach_one_def insert_member_def
  by (intro preserves_intros preserves_modifyM ledger append cancel) (simp_all add: frame)

lemma io: "preserves (\<lambda>(s, w). I s) (on_db m)" if "preserves I m"
  using that by (simp add: preserves_on_db)

lemma world: "preserves (\<lambda>(s, w). I s) (on_world m)"
  by (auto simp: preserves_def on_world_app)

lemma released: "preserves I (incident_release now inc cs)"
  unfolding incident_release_def mark_released_def
  by (intro preserves_intros preserves_modifyM ledger append) (simp_all add: frame)

lemma reparked: "preserves I (repark now inc cs)"
  unfolding repark_def repark_one_def
  by (intro preserves_intros preserves_modifyM ledger append cancel) (simp_all add: frame)

lemma state_set: "preserves I (setState now inc st k)"
  unfolding setState_def by (rule preserves_modifyM) (simp add: frame)

lemma ramped: "preserves (\<lambda>(s, w). I s) (release_step E cfg now inc h)"
  unfolding release_step_def breaker_step_def complete_step_def ramp_step_def log_step_def
    incident_get_def parkedCases_def Let_def
  by (intro preserves_intros io world ledger state_set released reparked)

lemma intent: "preserves I (ir_route E g now pid i ctx)"
  unfolding ir_route_def insert_promise_def Let_def
  by (cases i) (auto intro!: preserves_intros preserves_modifyM ledger outcome simp: frame)

lemma promises: "preserves I (reconcilePromises now)"
  unfolding reconcilePromises_def settle_promise_def
  by (intro preserves_intros preserves_modifyM ledger) (simp add: frame)

lemma webhook: "preserves I (handleWebhook E secret m now body sig)"
  unfolding handleWebhook_def accept_webhook_def settleIfPaid_def Let_def
  by (auto intro!: preserves_intros ledger settlement split: option.splits sum.splits err.splits prod.splits)

lemma completed: "preserves I (sched_complete now i)"
  unfolding sched_complete_def
  by (intro preserves_modifyM actions) (auto simp: done_row_def row_shape_def row_final_def)

lemma given_back: "preserves I (sched_release i)"
  unfolding sched_release_def
  by (intro preserves_modifyM actions) (auto simp: pending_row_def row_shape_def row_final_def)

lemma reclaimed: "preserves I (reclaimExpiredLeases now)"
  unfolding reclaimExpiredLeases_def
  by (intro preserves_intros preserves_modifyM actions)
     (auto simp: pending_row_def row_shape_def row_final_def lease_expired_def)

lemma locked: "preserves I (tryAcquire ttl now ob h)"
  by (simp add: preserves_tryAcquire frame)

lemma unlocked: "preserves I (Obligation_Lease.release ob h)"
  unfolding Obligation_Lease.release_def by (rule preserves_modifyM) (simp add: frame)

lemma authorized: "preserves I (Policy_Engine.authorize E p lib m now n ctx)"
  unfolding Policy_Engine.authorize_def pe_record_def persistToken_def Let_def
  by (intro preserves_intros preserves_modifyM)
     (simp_all add: frame preserves_def pe_evaluate_state)

lemma consumed: "preserves I (consumeContactBudget E p now cust ch)"
  unfolding consumeContactBudget_def consume_cap_def
  by (intro preserves_intros preserves_modifyM) (simp_all add: frame)

lemma executed: "preserves (\<lambda>(s, w). I s) (Executor.execute E ad lib m ttl now req)"
  unfolding Executor.execute_def admitted_def
  by (intro preserves_intros preserves_withLease io world burn attempt settle) (simp_all add: frame)

lemma reconciled: "preserves (\<lambda>(s, w). I s) (Executor.reconcile ad now)"
  unfolding Executor.reconcile_def reconcile_row_def
  by (intro preserves_intros io world settle)

lemma io_after: "preserves (\<lambda>(s, w). I s) m \<Longrightarrow> I s \<Longrightarrow> I (after_io w m s)"
  using preservesD [of "\<lambda>(s, w). I s" m "(s, w)"] by (simp add: after_io_def case_prod_unfold)

lemma case_step_keeps: "case_step s t \<Longrightarrow> I s \<Longrightarrow> I t"
proof (induction rule: case_step.induct)
  case (append ev s now c src)
  then have "preserves I (event_append now c ev src)" by (intro base) auto
  with append show ?case by (simp add: after_def preserves_def)
next
  case (ramp s w E rcfg now inc h)
  then show ?case using ramped [of E rcfg now inc h] by (blast intro: io_after)
qed (use base outcome exhausted intent webhook attached in \<open>auto simp: after_def preserves_def\<close>)

lemma queue_step_keeps: "queue_step s t \<Longrightarrow> I s \<Longrightarrow> I t"
  by (induction rule: queue_step.induct)
     (use schedule tick completed given_back reclaimed cancel in \<open>auto simp: after_def preserves_def\<close>)

lemma action_step_keeps: "action_step TYPE('w) s t \<Longrightarrow> I s \<Longrightarrow> I t"
proof (induction rule: action_step.induct)
  case (execute s w E ad lib m ttl now req)
  then show ?case using executed [of E ad lib m ttl now req] by (blast intro: io_after)
next
  case (reconcile s w ad now)
  then show ?case using reconciled [of ad now] by (blast intro: io_after)
qed (use authorized consumed locked unlocked in \<open>auto simp: after_def preserves_def\<close>)

lemma evidence_added: "preserves I (addEvidence now e)"
  unfolding addEvidence_def by (intro preserves_intros preserves_modifyM) (simp add: frame)

lemma run_recorded: "preserves I (recordRun r)"
  unfolding recordRun_def by (intro preserves_intros preserves_modifyM) (simp add: frame)

lemma routed: "preserves I (Blackboard.route E now rvn)"
  unfolding Blackboard.route_def liveClaims_def Let_def by (intro preserves_intros invalidate)

lemma touched: "preserves I (Checkout_Watcher.touch now ev)"
  unfolding Checkout_Watcher.touch_def by (intro preserves_intros preserves_modifyM) (simp_all add: frame)

lemma checkout_completed: "preserves I (checkout_complete now m ref)"
  unfolding checkout_complete_def by (rule preserves_modifyM) (simp add: frame)

lemma converted: "preserves I (markConverted E th now sid cid)"
  unfolding markConverted_def by (intro preserves_intros preserves_modifyM ledger) (simp add: frame)

lemma incident_opened: "preserves I (incident_open now i cand src)"
  unfolding incident_open_def by (intro preserves_intros preserves_modifyM ledger) (simp add: frame)

lemma rca_recorded: "preserves I (recordRca now inc rca)"
  unfolding recordRca_def by (intro preserves_intros preserves_modifyM ledger) (simp add: frame)

lemmas board = evidence_added run_recorded routed touched checkout_completed converted
  incident_opened rca_recorded promises claim label ledger

lemma board_step_keeps: "board_step s t \<Longrightarrow> I s \<Longrightarrow> I t"
  by (induction rule: board_step.induct) (use board in \<open>auto simp: after_def preserves_def\<close>)

lemma step_keeps: "sys_step w s t \<Longrightarrow> I s \<Longrightarrow> I t"
  unfolding sys_step_def
  using case_step_keeps queue_step_keeps action_step_keeps board_step_keeps by metis

lemma reachable_keeps: "(sys_step w)\<^sup>*\<^sup>* s t \<Longrightarrow> I s \<Longrightarrow> I t"
  by (induction rule: rtranclp_induct) (use step_keeps in blast)+

end

text \<open>An invariant that reads neither the cases nor the obligations has fewer laws to meet.\<close>

locale plain_invariant = bookkeeping +
  assumes plain: "I (s\<lparr>case_rows := y1\<rparr>) = I s" "I (s\<lparr>case_events := y2\<rparr>) = I s"
      "I (s\<lparr>case_revisions := y3\<rparr>) = I s" "I (s\<lparr>obligations := y4\<rparr>) = I s"
    and p_schedule: "preserves I (sched_schedule now sreq)"
    and p_actions: "\<And>P f. \<lbrakk>\<And>a. sa_id (f a) = sa_id a; \<And>a. P a \<Longrightarrow> row_shape a \<Longrightarrow> row_shape (f a);
        \<And>a. P a \<Longrightarrow> \<not> row_final (sa_state a)\<rbrakk> \<Longrightarrow> I s \<Longrightarrow> I (s\<lparr>scheduled_actions := update_where P f (scheduled_actions s)\<rparr>)"
    and p_tick: "preserves I (Scheduler.tick E leaseMs now locked owner limit)"
    and p_record: "preserves I (rc_record now ib)"
    and p_burn: "preserves I (burn now tok)"
    and p_attempt: "preserves I (record_attempt a)"
    and p_settle: "preserves I (settle now k st resp)"
    and p_claim: "preserves I (writeClaim now wc)"
    and p_invalidate: "preserves I (invalidateRoles now c roles)"
begin

lemma p_append: "preserves I (event_append now c ev src)"
  unfolding event_append_def insert_case_event_def insert_revision_def cancel_outstanding_def Let_def
  by (intro preserves_intros preserves_modifyM p_actions)
     (auto simp: plain cancel_row_def row_shape_def row_final_def outstanding_def)

lemma p_open: "preserves I (openOrAttach now req)"
  unfolding openOrAttach_def attach_or_insert_def upsert_obligation_def insert_case_def
  by (intro preserves_intros preserves_modifyM p_append) (simp_all add: plain)

lemma p_settlement: "preserves I (onSettlement now x)"
  unfolding onSettlement_def close_recovered_def settle_obligation_def settledAmount_def
  by (auto intro!: preserves_intros preserves_modifyM p_append p_record ledger simp: plain)

lemma p_label: "preserves I (label_case c g)"
  unfolding label_case_def by (rule preserves_modifyM) (simp add: plain)

end

sublocale plain_invariant \<subseteq> engine_invariant I
  by unfold_locales
     (use p_open p_append p_settlement p_schedule p_actions p_tick p_burn p_attempt p_settle p_claim p_invalidate p_label
      in \<open>auto simp: preserves_def\<close>)

text \<open>An invariant of the case tables alone has to hold over appends and insertions.\<close>

locale log_invariant = bookkeeping +
  assumes other: "I (s\<lparr>scheduled_actions := z1\<rparr>) = I s" "I (s\<lparr>next_sched_id := z2\<rparr>) = I s"
      "I (s\<lparr>claims := z3\<rparr>) = I s" "I (s\<lparr>token_burns := z4\<rparr>) = I s"
      "I (s\<lparr>action_attempts := z5\<rparr>) = I s" "I (s\<lparr>settlements := z6\<rparr>) = I s"
      "I (s\<lparr>obligations := z7\<rparr>) = I s"
    and l_append: "preserves I (event_append now c ev src)"
    and l_insert: "preserves I (attach_or_insert now req)"
    and l_label: "preserves I (label_case c g)"
begin

lemma l_open: "preserves I (openOrAttach now req)"
  unfolding openOrAttach_def by (intro preserves_intros l_append l_insert)

lemma l_settlement: "preserves I (onSettlement now x)"
  unfolding onSettlement_def close_recovered_def settle_obligation_def settledAmount_def
    rc_record_def insert_settlement_def
  by (auto intro!: preserves_intros preserves_modifyM l_append ledger simp: other split: option.splits)

lemma l_schedule: "preserves I (sched_schedule now req)"
  unfolding sched_schedule_def by (intro preserves_intros preserves_modifyM) (simp add: other)

lemma l_tick: "preserves I (Scheduler.tick E leaseMs now locked owner limit)"
  by (simp add: preserves_def tick_eval Let_def other)

lemma l_exec: "preserves I (burn now tok)" "preserves I (record_attempt a)" "preserves I (settle now k st resp)"
  by (auto simp: preserves_def monad_simps other)

lemma l_claim: "preserves I (writeClaim now wc)"
  unfolding writeClaim_def insert_claim_def by (intro preserves_intros preserves_modifyM) (simp_all add: other)

lemma l_invalidate: "preserves I (invalidateRoles now c roles)"
  by (simp add: preserves_def invalidateRoles_app other)

end

sublocale log_invariant \<subseteq> engine_invariant I
  by unfold_locales
     (use l_open l_append l_settlement l_schedule l_tick l_exec l_claim l_invalidate l_label
      in \<open>auto simp: preserves_def other\<close>)

text \<open>An operation keeps whatever does not read the tables it writes.\<close>

lemma frame_schedule:
  "(\<And>s x y. I (s\<lparr>scheduled_actions := x, next_sched_id := y\<rparr>) = I s) \<Longrightarrow> preserves I (sched_schedule now req)"
  unfolding sched_schedule_def by (intro preserves_intros preserves_modifyM) simp

lemma frame_tick:
  "(\<And>s x. I (s\<lparr>scheduled_actions := x\<rparr>) = I s) \<Longrightarrow> preserves I (Scheduler.tick E leaseMs now locked owner limit)"
  by (simp add: preserves_def tick_eval Let_def)

lemma frame_record:
  "(\<And>s x. I (s\<lparr>settlements := x\<rparr>) = I s) \<Longrightarrow> preserves I (rc_record now ib)"
  unfolding rc_record_def insert_settlement_def by (intro preserves_intros preserves_modifyM) simp

lemma frame_exec:
  assumes "\<And>s x. I (s\<lparr>token_burns := x\<rparr>) = I s" and "\<And>s x. I (s\<lparr>action_attempts := x\<rparr>) = I s"
  shows "preserves I (burn now tok)" "preserves I (record_attempt a)" "preserves I (settle now k st resp)"
  using assms by (auto simp: preserves_def monad_simps)

lemma frame_claims:
  assumes "\<And>s x. I (s\<lparr>claims := x\<rparr>) = I s"
  shows "preserves I (writeClaim now wc)" "preserves I (invalidateRoles now c roles)"
proof -
  show "preserves I (writeClaim now wc)"
    unfolding writeClaim_def insert_claim_def using assms by (intro preserves_intros preserves_modifyM) simp_all
  show "preserves I (invalidateRoles now c roles)"
    using assms by (simp add: preserves_def invalidateRoles_app)
qed

section \<open>The invariants of the engine\<close>

text \<open>Every idempotency key names one attempt, every nonce is burned once.\<close>

definition exec_inv :: "db \<Rightarrow> bool" where
  "exec_inv s \<longleftrightarrow> distinct (map at_idem (action_attempts s)) \<and> distinct (map tb_nonce (token_burns s))"

interpretation sched: plain_invariant sched_inv
proof unfold_locales
  show "sched_inv (s\<lparr>scheduled_actions := update_where P f (scheduled_actions s)\<rparr>)"
    if "\<And>a. sa_id (f a) = sa_id a" "\<And>a. P a \<Longrightarrow> row_shape a \<Longrightarrow> row_shape (f a)" "sched_inv s" for P f s
    by (rule sched_inv_update) (use that in auto)
  show "preserves sched_inv (rc_record now ib)" for now ib
    by (rule frame_record) (simp add: sched_inv_def)
  show "preserves sched_inv (burn now tok)" "preserves sched_inv (record_attempt a)"
    "preserves sched_inv (settle now k st resp)" for now tok a k st resp
    by (rule frame_exec; simp add: sched_inv_def)+
  show "preserves sched_inv (writeClaim now wc)" "preserves sched_inv (invalidateRoles now c roles)" for now wc c roles
    by (rule frame_claims; simp add: sched_inv_def)+
qed (auto simp: sched_inv_def intro: preserves_intros)

interpretation one_claim: plain_invariant claim_inv
proof unfold_locales
  show "preserves claim_inv (rc_record now ib)" for now ib
    by (rule frame_record) (simp add: claim_inv_def)
  show "preserves claim_inv (sched_schedule now req)" for now req
    by (rule frame_schedule) (simp add: claim_inv_def)
  show "preserves claim_inv (Scheduler.tick E leaseMs now locked owner limit)" for E leaseMs now locked owner limit
    by (rule frame_tick) (simp add: claim_inv_def)
  show "preserves claim_inv (burn now tok)" "preserves claim_inv (record_attempt a)"
    "preserves claim_inv (settle now k st resp)" for now tok a k st resp
    by (rule frame_exec; simp add: claim_inv_def)+
qed (auto simp: claim_inv_def intro: writeClaim_inv invalidateRoles_inv)

interpretation settled: plain_invariant settlement_keys
proof unfold_locales
  show "preserves settlement_keys (sched_schedule now req)" for now req
    by (rule frame_schedule) (simp add: settlement_keys_def)
  show "preserves settlement_keys (Scheduler.tick E leaseMs now locked owner limit)" for E leaseMs now locked owner limit
    by (rule frame_tick) (simp add: settlement_keys_def)
  show "preserves settlement_keys (burn now tok)" "preserves settlement_keys (record_attempt a)"
    "preserves settlement_keys (settle now k st resp)" for now tok a k st resp
    by (rule frame_exec; simp add: settlement_keys_def)+
  show "preserves settlement_keys (writeClaim now wc)" "preserves settlement_keys (invalidateRoles now c roles)" for now wc c roles
    by (rule frame_claims; simp add: settlement_keys_def)+
qed (auto simp: settlement_keys_def intro: rc_record_keys)

interpretation spent: plain_invariant exec_inv
proof unfold_locales
  show "preserves exec_inv (sched_schedule now req)" for now req
    by (rule frame_schedule) (simp add: exec_inv_def)
  show "preserves exec_inv (Scheduler.tick E leaseMs now locked owner limit)" for E leaseMs now locked owner limit
    by (rule frame_tick) (simp add: exec_inv_def)
  show "preserves exec_inv (rc_record now ib)" for now ib
    by (rule frame_record) (simp add: exec_inv_def)
  show "preserves exec_inv (burn now tok)" "preserves exec_inv (record_attempt a)"
    "preserves exec_inv (settle now k st resp)" for now tok a k st resp
    by (auto simp: preserves_def monad_simps exec_inv_def burned_def)
  show "preserves exec_inv (writeClaim now wc)" "preserves exec_inv (invalidateRoles now c roles)" for now wc c roles
    by (rule frame_claims; simp add: exec_inv_def)+
qed (auto simp: exec_inv_def)

text \<open>Opening a case: the obligation it adds only adds what can be covered, and the case is not recovered.\<close>

definition recovered_paid :: "db \<Rightarrow> bool" where
  "recovered_paid s \<longleftrightarrow> (\<forall>r \<in> set (case_rows s). cs_state r = RECOVERED \<longrightarrow> covered s (cs_obligation r))"

lemma paid_inv_parts: "paid_inv s \<longleftrightarrow> case_inv s \<and> recovered_paid s"
  by (simp add: paid_inv_def recovered_paid_def)

lemma attach_or_insert_recovered_paid: "preserves recovered_paid (attach_or_insert now req)"
  unfolding attach_or_insert_def upsert_obligation_def insert_case_def
  by (intro preserves_intros preserves_modifyM)
     (auto simp: recovered_paid_def covered_def settled_total_def)

lemma openOrAttach_paid: "preserves paid_inv (openOrAttach now req)"
proof -
  have "preserves paid_inv (attach_or_insert now req)"
    using attach_or_insert_recovered_paid attach_or_insert_case_inv
    unfolding preserves_def paid_inv_parts by blast
  then show ?thesis
    unfolding openOrAttach_def by (intro preserves_intros event_append_paid_other) auto
qed

lemma paid_frame:
  assumes "case_rows t = case_rows s" "case_events t = case_events s" "case_revisions t = case_revisions s"
    "obligations t = obligations s" "settlements t = settlements s"
  shows "paid_inv t = paid_inv s"
proof
  show "paid_inv s" if "paid_inv t"
    by (rule paid_inv_frame [OF that]) (simp_all only: assms settled_total_def order.refl)
  show "paid_inv t" if "paid_inv s"
    by (rule paid_inv_frame [OF that]) (simp_all only: assms settled_total_def order.refl)
qed

lemma paid_frame_simps:
  "paid_inv (s\<lparr>scheduled_actions := z1\<rparr>) = paid_inv s" "paid_inv (s\<lparr>next_sched_id := z2\<rparr>) = paid_inv s"
  "paid_inv (s\<lparr>claims := z3\<rparr>) = paid_inv s" "paid_inv (s\<lparr>token_burns := z4\<rparr>) = paid_inv s"
  "paid_inv (s\<lparr>action_attempts := z5\<rparr>) = paid_inv s" "paid_inv (s\<lparr>obligation_locks := z6\<rparr>) = paid_inv s"
  "paid_inv (s\<lparr>ledger := z7\<rparr>) = paid_inv s" "paid_inv (s\<lparr>evidence := z8\<rparr>) = paid_inv s"
  "paid_inv (s\<lparr>agent_runs := z9\<rparr>) = paid_inv s" "paid_inv (s\<lparr>capability_tokens := z10\<rparr>) = paid_inv s"
  "paid_inv (s\<lparr>contact_budgets := z11\<rparr>) = paid_inv s" "paid_inv (s\<lparr>policy_decisions := z12\<rparr>) = paid_inv s"
  "paid_inv (s\<lparr>incidents := z13\<rparr>) = paid_inv s" "paid_inv (s\<lparr>incident_members := z14\<rparr>) = paid_inv s"
  "paid_inv (s\<lparr>promises_to_pay := z15\<rparr>) = paid_inv s" "paid_inv (s\<lparr>checkout_sessions := z16\<rparr>) = paid_inv s"
  by (rule paid_frame; simp)+

text \<open>A label is not read by any invariant of the cases.\<close>

lemma label_row_fields [simp]:
  "cs_id (label_row g r) = cs_id r" "cs_obligation (label_row g r) = cs_obligation r"
  "cs_incident (label_row g r) = cs_incident r" "cs_state (label_row g r) = cs_state r"
  "cs_next_seq (label_row g r) = cs_next_seq r" "cs_closed_at (label_row g r) = cs_closed_at r"
  "cs_terminal_reason (label_row g r) = cs_terminal_reason r" "cs_holdout (label_row g r) = cs_holdout r"
  by (simp_all add: label_row_def split: prod.split)

lemma label_case_store_inv: "preserves store_inv (label_case c g)"
proof -
  have "case_ok (s\<lparr>case_rows := x\<rparr>) (label_row g r) = case_ok s r" "case_ok (s\<lparr>case_rows := x\<rparr>) r = case_ok s r" for s x r
    by (simp_all add: case_ok_def log_of_def revisions_of_def row_agrees_def)
  moreover have "has_case i (s\<lparr>case_rows := update_where P (label_row g) (case_rows s)\<rparr>) = has_case i s" for i P s
    by (simp add: has_case_def map_update_where flip: set_map)
  ultimately show ?thesis
    unfolding label_case_def
    by (intro preserves_modifyM) (auto simp: store_inv_def map_update_where set_update_where)
qed

lemma label_case_paid: "preserves paid_inv (label_case c g)"
proof -
  have "length (filter (live_on ob) (update_where P (label_row g) rows)) = length (filter (live_on ob) rows)" for ob P rows
    by (induction rows) (auto simp: live_on_def)
  then have "preserves one_live (label_case c g)"
    unfolding label_case_def by (intro preserves_modifyM) (simp add: one_live_def)
  moreover have "preserves (\<lambda>s. obligation_keys s \<and> recovered_paid s) (label_case c g)"
    unfolding label_case_def
    by (intro preserves_modifyM)
       (auto simp: obligation_keys_def recovered_paid_def set_update_where covered_def settled_total_def)
  ultimately show ?thesis
    using label_case_store_inv [of c g] unfolding preserves_def paid_inv_parts case_inv_def by blast
qed

interpretation paid: engine_invariant paid_inv
proof unfold_locales
  show "preserves paid_inv (event_append now c ev src)"
    if "\<And>why. ev \<noteq> terminal_reached RECOVERED why" for ev now c src
    by (rule event_append_paid_other) (use that in auto)
  show "preserves paid_inv (sched_schedule now req)" for now req
    by (rule frame_schedule) (simp add: paid_frame_simps)
  show "preserves paid_inv (Scheduler.tick E leaseMs now locked owner limit)" for E leaseMs now locked owner limit
    by (rule frame_tick) (simp add: paid_frame_simps)
  show "preserves paid_inv (burn now tok)" "preserves paid_inv (record_attempt a)"
    "preserves paid_inv (settle now k st resp)" for now tok a k st resp
    by (rule frame_exec; simp add: paid_frame_simps)+
  show "preserves paid_inv (writeClaim now wc)" "preserves paid_inv (invalidateRoles now c roles)" for now wc c roles
    by (rule frame_claims; simp add: paid_frame_simps)+
qed (simp_all add: paid_frame_simps openOrAttach_paid onSettlement_paid label_case_paid)

section \<open>What is never undone\<close>

text \<open>The event log is only appended to, and a closed case keeps its state.\<close>

definition log_from :: "StoredCaseEvent list \<Rightarrow> db \<Rightarrow> bool" where
  "log_from es s \<longleftrightarrow> (\<exists>new. case_events s = es @ new)"

lemma event_append_log_from: "preserves (log_from es) (event_append now c ev src)"
  unfolding event_append_def insert_case_event_def insert_revision_def cancel_outstanding_def Let_def
  by (intro preserves_intros preserves_modifyM) (auto simp: log_from_def)

interpretation history: log_invariant "log_from es" for es
proof unfold_locales
  show "preserves (log_from es) (event_append now c ev src)" for now c ev src
    by (rule event_append_log_from)
  show "preserves (log_from es) (attach_or_insert now req)" for now req
    unfolding attach_or_insert_def upsert_obligation_def insert_case_def
    by (intro preserves_intros preserves_modifyM) (simp_all add: log_from_def)
qed (simp_all add: log_from_def label_case_def preserves_def monad_simps)

definition ended :: "string \<Rightarrow> CaseState \<Rightarrow> db \<Rightarrow> bool" where
  "ended c st s \<longleftrightarrow> store_inv s \<and> (isTerminal st \<longrightarrow> (\<exists>r. case_of s c = Some r \<and> cs_state r = st))"

lemma event_append_ended: "preserves (ended c st) (event_append now c' ev src)"
proof (rule preservesI)
  fix s assume s: "ended c st s"
  then have inv: "store_inv s" by (simp add: ended_def)
  show "ended c st (snd (event_append now c' ev src s))"
  proof (cases "event_append now c' ev src s")
    case (Pair res t)
    show ?thesis
    proof (cases res)
      case (Inl e)
      with Pair have "t = s" by (simp add: event_append_rollback)
      with Pair s show ?thesis by simp
    next
      case (Inr x)
      obtain stored rvn where x: "x = (stored, rvn)" by (cases x)
      with Pair Inr have run: "event_append now c' ev src s = (Inr (stored, rvn), t)" by simp
      from event_append_Inr [OF inv run] obtain r where r: "case_of s c' = Some r"
        and t: "t = appended now c' stored rvn s" by blast
      have "canTransition (cs_state r) (rv_state rvn)" using append_legal [OF inv run r] by blast
      then have stay: "rv_state rvn = cs_state r" if "isTerminal (cs_state r)"
        using canTransition_terminal that by blast
      have "store_inv t" using event_append_store_inv [OF inv, of now c' ev src] run by simp
      moreover have "\<exists>r'. case_of t c = Some r' \<and> cs_state r' = st" if ended: "isTerminal st"
      proof -
        from s ended obtain q where q: "case_of s c = Some q" "cs_state q = st" by (auto simp: ended_def)
        then show ?thesis
          using r stay ended case_of_Some [OF q(1)]
          by (auto simp: t case_of_appended write_revision_def)
      qed
      ultimately show ?thesis using Pair by (simp add: ended_def)
    qed
  qed
qed

lemma attach_or_insert_ended: "preserves (ended c st) (attach_or_insert now req)"
proof -
  have "preserves (\<lambda>s. isTerminal st \<longrightarrow> (\<exists>r. case_of s c = Some r \<and> cs_state r = st)) (attach_or_insert now req)"
    unfolding attach_or_insert_def upsert_obligation_def insert_case_def
    by (intro preserves_intros preserves_modifyM) (auto simp: case_of_def find_append)
  moreover have "preserves store_inv (insert_case (new_case_row now req ob))" for ob
    by (auto simp: preserves_def insert_case_def monad_simps intro: insert_case_store_inv)
  then have "preserves store_inv (attach_or_insert now req)"
    unfolding attach_or_insert_def upsert_obligation_def
    by (intro preserves_intros preserves_modifyM) simp_all
  ultimately show ?thesis unfolding preserves_def ended_def by blast
qed

lemma label_case_ended: "preserves (ended c st) (label_case c' g)"
proof -
  have find: "find (\<lambda>r. cs_id r = c) (update_where P (label_row g) rows) =
      map_option (\<lambda>r. if P r then label_row g r else r) (find (\<lambda>r. cs_id r = c) rows)" for P rows
    by (induction rows) auto
  have "\<exists>q. case_of (s\<lparr>case_rows := update_where P (label_row g) (case_rows s)\<rparr>) c = Some q \<and> cs_state q = st"
    if "case_of s c = Some r" "cs_state r = st" for s r P
    using that by (simp add: case_of_def find del: map_option_eq_Some)
  then have "preserves (\<lambda>s. isTerminal st \<longrightarrow> (\<exists>r. case_of s c = Some r \<and> cs_state r = st)) (label_case c' g)"
    unfolding label_case_def by (intro preserves_modifyM) blast
  with label_case_store_inv [of c' g] show ?thesis unfolding preserves_def ended_def by blast
qed

interpretation final: log_invariant "ended c st" for c st
  by unfold_locales
     (use event_append_ended attach_or_insert_ended label_case_ended in \<open>simp_all add: ended_def case_of_def\<close>)

text \<open>A finished action stays as it is; a burned nonce and a used idempotency key stay used.\<close>

definition kept_row :: "sched_row \<Rightarrow> db \<Rightarrow> bool" where
  "kept_row a s \<longleftrightarrow> sched_inv s \<and> (row_final (sa_state a) \<longrightarrow> a \<in> set (scheduled_actions s))"

lemma tick_kept_row: "preserves (kept_row a) (Scheduler.tick E leaseMs now locked owner limit)"
proof (rule preservesI)
  fix s assume s: "kept_row a s"
  then have inv: "sched_inv s" by (simp add: kept_row_def)
  have "sched_inv (snd (Scheduler.tick E leaseMs now locked owner limit s))"
    using tick_inv inv by (rule preservesD)
  moreover have "a \<in> set (scheduled_actions (snd (Scheduler.tick E leaseMs now locked owner limit s)))"
    if final: "row_final (sa_state a)"
  proof -
    have a: "a \<in> set (scheduled_actions s)" using s final by (simp add: kept_row_def)
    have "sa_state a \<noteq> pending" using final by (auto simp: row_final_def)
    from tick_select_not_leased [OF inv a this]
    have "sa_id a \<notin> sa_id ` set (tick_select E now locked limit s)" by simp
    with a show ?thesis by (force simp: tick_eval Let_def set_update_where)
  qed
  ultimately show "kept_row a (snd (Scheduler.tick E leaseMs now locked owner limit s))"
    by (simp add: kept_row_def)
qed

interpretation finished: plain_invariant "kept_row a" for a
proof unfold_locales
  show "kept_row a (s\<lparr>scheduled_actions := update_where P f (scheduled_actions s)\<rparr>)"
    if "\<And>a. sa_id (f a) = sa_id a" "\<And>a. P a \<Longrightarrow> row_shape a \<Longrightarrow> row_shape (f a)"
      "\<And>a. P a \<Longrightarrow> \<not> row_final (sa_state a)" "kept_row a s" for P f s
  proof -
    have "sched_inv (s\<lparr>scheduled_actions := update_where P f (scheduled_actions s)\<rparr>)"
      by (rule sched_inv_update) (use that in \<open>auto simp: kept_row_def\<close>)
    with that(3,4) show ?thesis by (force simp: kept_row_def set_update_where)
  qed
  show "preserves (kept_row a) (Scheduler.tick E leaseMs now locked owner limit)" for E leaseMs now locked owner limit
    by (rule tick_kept_row)
  show "preserves (kept_row a) (sched_schedule now req)" for now req
    using preservesD [OF sched_schedule_inv, of _ now req]
    by (auto simp: preserves_def kept_row_def sched_schedule_def monad_simps)
  show "preserves (kept_row a) (rc_record now ib)" for now ib
    by (rule frame_record) (simp add: kept_row_def sched_inv_def)
  show "preserves (kept_row a) (burn now tok)" "preserves (kept_row a) (record_attempt at')"
    "preserves (kept_row a) (settle now k st resp)" for now tok at' k st resp
    by (rule frame_exec; simp add: kept_row_def sched_inv_def)+
  show "preserves (kept_row a) (writeClaim now wc)" "preserves (kept_row a) (invalidateRoles now c roles)" for now wc c roles
    by (rule frame_claims; simp add: kept_row_def sched_inv_def)+
qed (auto simp: kept_row_def sched_inv_def)

definition spent_keys :: "string set \<Rightarrow> string set \<Rightarrow> db \<Rightarrow> bool" where
  "spent_keys ns ks s \<longleftrightarrow> ns \<subseteq> tb_nonce ` set (token_burns s) \<and> ks \<subseteq> at_idem ` set (action_attempts s)"

interpretation used: plain_invariant "spent_keys ns ks" for ns ks
proof unfold_locales
  show "preserves (spent_keys ns ks) (sched_schedule now req)" for now req
    by (rule frame_schedule) (simp add: spent_keys_def)
  show "preserves (spent_keys ns ks) (Scheduler.tick E leaseMs now locked owner limit)" for E leaseMs now locked owner limit
    by (rule frame_tick) (simp add: spent_keys_def)
  show "preserves (spent_keys ns ks) (rc_record now ib)" for now ib
    by (rule frame_record) (simp add: spent_keys_def)
  show "preserves (spent_keys ns ks) (burn now tok)" "preserves (spent_keys ns ks) (record_attempt a)"
    "preserves (spent_keys ns ks) (settle now k st resp)" for now tok a k st resp
    by (auto simp: preserves_def monad_simps spent_keys_def)
  show "preserves (spent_keys ns ks) (writeClaim now wc)" "preserves (spent_keys ns ks) (invalidateRoles now c roles)" for now wc c roles
    by (rule frame_claims; simp add: spent_keys_def)+
qed (auto simp: spent_keys_def)

text \<open>The audit ledger is only appended to.\<close>

definition ledger_from :: "ledger_row list \<Rightarrow> db \<Rightarrow> bool" where
  "ledger_from ls s \<longleftrightarrow> (\<exists>new. ledger s = ls @ new)"

interpretation audit: plain_invariant "ledger_from ls" for ls
proof unfold_locales
  show "preserves (ledger_from ls) (sched_schedule now req)" for now req
    by (rule frame_schedule) (simp add: ledger_from_def)
  show "preserves (ledger_from ls) (Scheduler.tick E leaseMs now locked owner limit)" for E leaseMs now locked owner limit
    by (rule frame_tick) (simp add: ledger_from_def)
  show "preserves (ledger_from ls) (rc_record now ib)" for now ib
    by (rule frame_record) (simp add: ledger_from_def)
  show "preserves (ledger_from ls) (burn now tok)" "preserves (ledger_from ls) (record_attempt a)"
    "preserves (ledger_from ls) (settle now k st resp)" for now tok a k st resp
    by (rule frame_exec; simp add: ledger_from_def)+
  show "preserves (ledger_from ls) (writeClaim now wc)" "preserves (ledger_from ls) (invalidateRoles now c roles)" for now wc c roles
    by (rule frame_claims; simp add: ledger_from_def)+
qed (auto simp: ledger_from_def)

text \<open>A delivery that was acknowledged is remembered in every later state.\<close>

lemma webhook_seen_later:
  assumes "webhook_seen i s" and "(sys_step w)\<^sup>*\<^sup>* s t"
  shows "webhook_seen i t"
proof -
  have "ledger_from (ledger s) s" by (simp add: ledger_from_def)
  from audit.reachable_keeps [OF assms(2) this] assms(1) show ?thesis
    by (auto simp: ledger_from_def webhook_seen_def)
qed

section \<open>Every reachable state\<close>

definition seeded :: "string list \<Rightarrow> string list \<Rightarrow> db" where
  "seeded ms cs = empty_db\<lparr>merchants := ms, customers := cs\<rparr>"

definition reachable :: "'w itself \<Rightarrow> db \<Rightarrow> bool" where
  "reachable w s \<longleftrightarrow> (\<exists>ms cs. (sys_step w)\<^sup>*\<^sup>* (seeded ms cs) s)"

definition sys_inv :: "db \<Rightarrow> bool" where
  "sys_inv s \<longleftrightarrow> paid_inv s \<and> sched_inv s \<and> claim_inv s \<and> settlement_keys s \<and> exec_inv s"

lemma sys_inv_seeded: "sys_inv (seeded ms cs)"
  by (simp add: sys_inv_def seeded_def empty_db_def paid_inv_def case_inv_def store_inv_def one_live_def
      obligation_keys_def sched_inv_def claim_inv_def settlement_keys_def exec_inv_def)

lemma reachable_sys_inv: "reachable w s \<Longrightarrow> sys_inv s"
  unfolding reachable_def
proof (elim exE)
  fix ms cs assume run: "(sys_step w)\<^sup>*\<^sup>* (seeded ms cs) s"
  have "paid_inv (seeded ms cs)" "sched_inv (seeded ms cs)" "claim_inv (seeded ms cs)"
    "settlement_keys (seeded ms cs)" "exec_inv (seeded ms cs)"
    using sys_inv_seeded [of ms cs] by (simp_all only: sys_inv_def)
  then show "sys_inv s"
    unfolding sys_inv_def
    by (intro conjI paid.reachable_keeps [OF run] sched.reachable_keeps [OF run]
        one_claim.reachable_keeps [OF run] settled.reachable_keeps [OF run] spent.reachable_keeps [OF run])
qed

lemma reachable_step: "reachable w s \<Longrightarrow> sys_step w s t \<Longrightarrow> reachable w t"
  unfolding reachable_def by (meson rtranclp.rtrancl_into_rtrancl)

lemma reachable_seeded: "reachable w (seeded ms cs)"
  unfolding reachable_def by blast

end
