(* ===== verification/Sample.thy ===== *)
theory Sample
  imports System
begin

text \<open>
  A small concrete engine: one merchant, one customer, one case opened and planned, one
  action library, policy and token. The instances of the theorems are evaluated on it.
\<close>

text \<open>Printing an integer by its binary length, for evaluation.\<close>

fun pos_str :: "nat \<Rightarrow> int \<Rightarrow> string" where
  "pos_str 0 z = []"
| "pos_str (Suc f) z =
     (if z < 10 then [char_of (48 + nat z)] else pos_str f (z div 10) @ [char_of (48 + nat (z mod 10))])"

lemma pos_str_nat_str: "0 \<le> z \<Longrightarrow> z < 2 ^ Suc f \<Longrightarrow> pos_str (Suc f) z = nat_str (nat z)"
proof (induction f arbitrary: z)
  case 0
  then show ?case by (simp add: nat_str.simps [of "nat z"])
next
  case (Suc f)
  show ?case
  proof (cases "z < 10")
    case True
    with Suc.prems show ?thesis by (simp add: nat_str.simps [of "nat z"])
  next
    case False
    then have "z div 10 < 2 ^ Suc f" using Suc.prems by simp
    with False Suc.IH [of "z div 10"]
    have "pos_str (Suc f) (z div 10) = nat_str (nat z div 10)" by (simp add: nat_div_distrib)
    with False show ?thesis
      by (simp add: nat_str.simps [of "nat z"] nat_mod_distrib)
  qed
qed

fun num_len :: "num \<Rightarrow> nat" where
  "num_len num.One = 0"
| "num_len (num.Bit0 n) = Suc (num_len n)"
| "num_len (num.Bit1 n) = Suc (num_len n)"

lemma num_len_bound: "(numeral n :: int) < 2 ^ Suc (num_len n)"
proof (induction n)
  case (Bit0 n)
  have "(x :: int) + x < 2 * p" if "x < p" for x p using that by linarith
  from this [OF Bit0] show ?case by (simp only: numeral_Bit0 num_len.simps power_Suc)
next
  case (Bit1 n)
  have "(x :: int) + x + 1 < 2 * p" if "x < p" for x p using that by linarith
  from this [OF Bit1] show ?case by (simp only: numeral_Bit1 num_len.simps power_Suc)
qed simp

lemma int_str_code [code]:
  "int_str 0 = ''0''"
  "int_str (Int.Pos n) = pos_str (Suc (num_len n)) (Int.Pos n)"
  "int_str (Int.Neg n) = ''-'' @ pos_str (Suc (num_len n)) (Int.Pos n)"
proof -
  have "(char_of (48 :: nat) :: char) = CHR ''0''" by code_simp
  then show "int_str 0 = ''0''" by (simp add: int_str_def nat_str.simps [of 0])
  have n: "pos_str (Suc (num_len n)) (numeral n) = nat_str (nat (numeral n))"
    by (rule pos_str_nat_str) (simp_all only: num_len_bound zero_le_numeral)
  show "int_str (Int.Pos n) = pos_str (Suc (num_len n)) (Int.Pos n)"
    by (simp only: n Int.Pos_def int_str_def) simp
  show "int_str (Int.Neg n) = ''-'' @ pos_str (Suc (num_len n)) (Int.Pos n)"
    by (simp only: n Int.Pos_def Int.Neg_def int_str_def) simp
qed

definition sample_req :: OpenCaseRequest where
  "sample_req = \<lparr>oq_caseId = ''c1'', oq_merchantId = ''m'', oq_customerId = ''u'', oq_obligationId = ''o1'',
     oq_externalRef = ''inv1'', oq_domain = checkout_abandonment, oq_amountPaise = 500, oq_dueAt = 0, oq_holdout = False\<rparr>"

definition sample_seed :: db where
  "sample_seed = seeded [''m''] [''u'']"

definition sample_open :: db where
  "sample_open = after (openOrAttach 10 sample_req) sample_seed"

definition sample_settlement :: InboundSettlement where
  "sample_settlement = \<lparr>ib_id = ''s1'', ib_merchantId = ''m'', ib_amountPaise = 500, ib_source = ''bank'',
     ib_reference = Some ''inv1'', ib_idemKey = None, ib_virtualAccount = None\<rparr>"

definition sample_paid :: db where
  "sample_paid = after (onSettlement 20 sample_settlement) sample_open"

lemma sample_seed_reachable: "reachable TYPE(unit) sample_seed"
  unfolding sample_seed_def by (rule reachable_seeded)

lemma sample_open_reachable: "reachable TYPE(unit) sample_open"
  using reachable_step [OF sample_seed_reachable] case_step.open_case [of sample_seed 10 sample_req]
  by (simp add: sample_open_def sys_step_def)

lemma sample_paid_reachable: "reachable TYPE(unit) sample_paid"
  using reachable_step [OF sample_open_reachable] case_step.settlement [of sample_open 20 sample_settlement]
  by (simp add: sample_paid_def sys_step_def)

lemma sample_open_rows:
  "map (\<lambda>r. (cs_id r, cs_state r)) (case_rows sample_open) = [(''c1'', DETECTED)]"
  by code_simp

lemma sample_paid_rows:
  "map (\<lambda>r. (cs_id r, cs_obligation r, cs_state r)) (case_rows sample_paid) = [(''c1'', ''o1'', RECOVERED)]"
  by code_simp

section \<open>An authorised action\<close>

text \<open>An environment whose keyed hash is the length of the text.\<close>

definition sample_env :: env where
  "sample_env = env0\<lparr>hmac_sha256 := (\<lambda>k d. [of_nat (length d)]), sha256 := (\<lambda>d. [of_nat (length d)])\<rparr>"

definition sample_action :: ActionDef where
  "sample_action = \<lparr>ad_id = ''link'', ad_kind = capability, ad_capability = Some ''createPaymentLink'',
     ad_surface = simulated, ad_description = [], ad_rails = None, ad_params = [], ad_amountCapped = True,
     ad_consumesContactBudget = True, ad_quietHoursEnforced = True, ad_requiresApproval = False,
     ad_optimizerSelectable = True, ad_actionCostPaise = 0, ad_pRecoverDefault = None,
     ad_pRecoverByCause = [], ad_stopConditions = []\<rparr>"

definition sample_lib :: ActionLibrary where
  "sample_lib = newActionLibrary 1 [sample_action] []"

definition sample_policy :: Policy where
  "sample_policy = \<lparr>po_version = ''v7'', po_merchant = ''m'',
     po_quietHours = \<lparr>qh_start = ''21:00'', qh_end = ''08:00'', qh_timezone = ''Asia/Kolkata''\<rparr>,
     po_contactCaps = [\<lparr>cc_channel = ''sms'', cc_windowDays = 7, cc_max = 3\<rparr>], po_maxAttemptsPerCase = 4,
     po_requireApprovalAbovePaise = 1000, po_allowedActions = [(''card'', [''link''])]\<rparr>"

definition sample_minter :: CapabilityMinter where
  "sample_minter = \<lparr>mi_key = ''key'', mi_ttlMs = 120000\<rparr>"

text \<open>Ten in the morning of the first day, in the time zone of the environment.\<close>

definition sample_now :: int where
  "sample_now = 36000000"

definition sample_ctx :: EvaluationContext where
  "sample_ctx = \<lparr>ec_caseId = ''c1'', ec_obligationId = ''o1'', ec_customerId = ''u'', ec_rail = card,
     ec_actionId = ''link'', ec_params = [], ec_attemptNo = 0, ec_amountPaise = Some 500, ec_optedOut = False\<rparr>"

definition sample_authed :: db where
  "sample_authed = after (Policy_Engine.authorize sample_env sample_policy sample_lib sample_minter sample_now ''n1'' sample_ctx) sample_open"

definition sample_token :: CapabilityToken where
  "sample_token = mint sample_env sample_minter sample_now ''n1''
     (mint_input sample_env sample_policy sample_action sample_ctx ALLOWED)"

definition sample_call :: ExecuteRequest where
  "sample_call = \<lparr>xr_caseId = ''c1'', xr_obligationId = ''o1'', xr_customerId = ''u'', xr_actionId = ''link'',
     xr_attemptNo = 0, xr_params = [], xr_token = sample_token, xr_amountPaise = Some 500\<rparr>"

text \<open>A provider that accepts every payment link and counts them.\<close>

definition sample_adapter :: "nat PSPAdapter" where
  "sample_adapter = (let refused = (\<lambda>_ _. throwM (Error ''unsupported'')) in
     \<lparr>pa_name = ''sample'', pa_surface = simulated, pa_capabilities = [createPaymentLink],
      pa_createPaymentLink = (\<lambda>_ _ n. (Inr \<lparr>cr_ok = True, cr_reference = None, cr_detail = []\<rparr>, n + 1)),
      pa_resumeCheckout = refused, pa_requestPaymentMethodUpdate = refused, pa_sendApprovedTemplate = refused,
      pa_createOpsEscalation = refused,
      pa_fetchPaymentStatus = (\<lambda>_ n. (Inr \<lparr>ps_found = True, ps_captured = True, ps_amountPaise = None,
         ps_reference = None\<rparr>, n))\<rparr>)"

abbreviation sample_run :: "db \<times> nat \<Rightarrow> (err + ExecuteResult) \<times> (db \<times> nat)" where
  "sample_run \<equiv> Executor.execute sample_env sample_adapter sample_lib sample_minter 30000 sample_now sample_call"

lemma sample_authorized:
  "fst (Policy_Engine.authorize sample_env sample_policy sample_lib sample_minter sample_now ''n1'' sample_ctx sample_open) =
     Inr \<lparr>au_decision = decide sample_policy allow ALLOWED ''permitted on card within caps'', au_token = Some sample_token\<rparr>"
  by code_simp

definition sample_executed :: "db \<times> nat" where
  "sample_executed = snd (sample_run (sample_authed, 0))"

lemma sample_executes:
  "map_sum (\<lambda>e. e) (\<lambda>x. cr_ok (xs_result x)) (fst (sample_run (sample_authed, 0))) = Inr True"
  by code_simp

lemma sample_executed_world: "snd sample_executed = 1"
  by code_simp

end
