(* ===== verification/Recovery.thy ===== *)
theory Recovery
  imports Verifier Webhook
begin

text \<open>
  What closing a case does, across the reconciler, the verifier and the event store.
\<close>

lemma append_rvn:
  assumes inv: "store_inv s" and run: "event_append now c ev src s = (Inr (stored, rvn), t)"
  shows "\<exists>r0. reduceAll c (log_of c s) = Inr r0 \<and> rvn = next_revision r0 stored \<and> ev_event stored = ev"
proof -
  from event_append_Inr [OF inv run] obtain r where r: "case_of s c = Some r"
    and stored: "stored = new_event now c (cs_next_seq r) ev src"
    and red: "reduceAll c (log_of c s @ [stored]) = Inr rvn" by blast
  from red obtain r0 where "reduceAll c (log_of c s) = Inr r0" "reduce r0 stored = Inr rvn"
    by (auto simp: reduceAll_snoc bindE_eq_Inr)
  then show ?thesis using stored by (auto simp: reduce_Inr)
qed

lemma append_terminal:
  assumes inv: "store_inv s" and run: "event_append now c (terminal_reached st why) src s = (Inr (stored, rvn), t)"
    and st: "isTerminal st"
  shows "(\<exists>r. case_of t c = Some r \<and> cs_state r = st \<and> cs_closed_at r = Some now \<and> cs_terminal_reason r = Some why)
    \<and> (\<forall>a \<in> set (scheduled_actions t). \<not> outstanding c a)"
proof -
  from event_append_Inr [OF inv run] obtain r where r: "case_of s c = Some r"
    and t: "t = appended now c stored rvn s" by blast
  from append_rvn [OF inv run] obtain r0 where rvn: "rvn = next_revision r0 stored"
    and ev: "ev_event stored = terminal_reached st why" by blast
  have st': "rv_state rvn = st" "rv_terminalReason rvn = Some why"
    using ev by (simp_all add: rvn next_revision_def Let_def)
  have "case_of t c = Some (write_revision rvn now (r\<lparr>cs_next_seq := cs_next_seq r + 1\<rparr>))"
    using r case_of_Some [OF r] by (simp add: t case_of_appended)
  moreover have "\<forall>a \<in> set (scheduled_actions t). \<not> outstanding c a"
    using appended_terminal_none_outstanding [of rvn _ now c stored s] st st'(1) by (simp add: t)
  ultimately show ?thesis using st' by (auto simp: write_revision_def)
qed

lemma onSettlement_recovered:
  assumes inv: "paid_inv s" and run: "onSettlement now x s = (Inr (recovered n), t)"
  shows "\<exists>ob r. mr_obligationId (match_settlement x s) = Some ob \<and> open_case_for s ob = Some r
    \<and> n = settled_total t ob \<and> covered t ob
    \<and> (\<exists>r'. case_of t (cs_id r) = Some r' \<and> cs_state r' = RECOVERED \<and> cs_closed_at r' = Some now)
    \<and> (\<forall>a \<in> set (scheduled_actions t). \<not> outstanding (cs_id r) a)
    \<and> (\<forall>b \<in> set (obligations t). ob_id b = ob \<longrightarrow> ob_state b = ''settled'')"
proof -
  from run obtain m s1 where rec: "rc_record now x s = (Inr m, s1)"
    and rest: "(case mr_obligationId m of None \<Rightarrow> retM unmatched_outcome
       | Some ob \<Rightarrow> if ob = [] then retM unmatched_outcome
           else bindM (readM (\<lambda>s. live_case_owing s ob)) (\<lambda>row. case row of None \<Rightarrow> retM no_open_case
             | Some (c, owed) \<Rightarrow> bindM (settledAmount ob) (\<lambda>settled. if settled < owed
                   then thenM (ledger_append now c ''verifier'' ''partial_settlement'' (settlement_payload settled owed m))
                              (retM (partial settled owed))
                   else close_recovered now x m ob c settled owed))) s1 = (Inr (recovered n), t)"
    unfolding onSettlement_def bindM_Inr by blast
  have m: "m = match_settlement x s" using rc_record_Inr [OF rec] by blast
  have inv1: "paid_inv s1" using preserves_run [OF rc_record_paid rec inv] .
  from rest obtain ob where ob: "mr_obligationId m = Some ob"
    by (auto simp: retM_app split: option.splits)
  with rest obtain c owed where live: "live_case_owing s1 ob = Some (c, owed)"
    and enough: "owed \<le> settled_total s1 ob"
    and close: "close_recovered now x m ob c (settled_total s1 ob) owed s1 = (Inr (recovered n), t)"
    by (auto simp: retM_app bindM_app readM_app settledAmount_def thenM_app ledger_append_app
        split: if_splits option.splits)
  define s2 where "s2 = snd (settle_obligation ob s1)"
  have set: "settle_obligation ob s1 = (Inr (), s2)" by (simp add: s2_def settle_obligation_def modifyM_app)
  from close set obtain stored rvn s3 where
    app: "event_append now c (terminal_reached RECOVERED (''settled_via_'' @ strategy_str (mr_matchedBy m))) ''verifier'' s2
       = (Inr (stored, rvn), s3)"
    and n: "n = settled_total s1 ob"
    and t: "t = snd (ledger_append now c ''verifier'' ''recovered'' (settlement_payload (settled_total s1 ob) owed m
          @ [(''settlementId'', JStr (ib_id x))]) s3)"
    by (auto simp: close_recovered_def thenM_Inr retM_app ledger_append_app)
  have inv2: "paid_inv s2" using preserves_run [OF settle_obligation_paid set inv1] .
  then have store: "store_inv s2" by (simp add: paid_inv_def case_inv_def)
  from append_terminal [OF store app] have closed:
    "\<exists>r. case_of s3 c = Some r \<and> cs_state r = RECOVERED \<and> cs_closed_at r = Some now"
    "\<forall>a \<in> set (scheduled_actions s3). \<not> outstanding c a" by auto
  have t3: "case_of t c = case_of s3 c" "scheduled_actions t = scheduled_actions s3"
    "obligations t = obligations s3" "settlements t = settlements s3"
    by (simp_all add: t ledger_append_app case_of_def)
  from event_append_Inr [OF store app] have "s3 = appended now c stored rvn s2" by blast
  then have obs: "obligations t = update_where (\<lambda>b. ob_id b = ob) (\<lambda>b. b\<lparr>ob_state := ''settled''\<rparr>) (obligations s1)"
    "settled_total t = settled_total s1"
    using t3 by (auto simp: s2_def settle_obligation_def modifyM_app settled_total_def)
  from live_case_owing_Some [OF live] obtain r b where r: "cs_id r = c" "open_case_for s1 ob = Some r"
    and b: "b \<in> set (obligations s1)" "ob_id b = ob" "ob_amount b = owed" by blast
  have "b\<lparr>ob_state := ''settled''\<rparr> \<in> set (obligations t)"
    using b by (force simp: obs set_update_where)
  then have cov: "covered t ob"
    unfolding covered_def obs(2) by (rule rev_bexI) (use b enough in simp)
  have same: "case_rows s1 = case_rows s" using rc_record_frame [OF rec] by (elim conjE)
  from cov have "covered t ob" .
  moreover have "open_case_for s ob = Some r" using r(2) by (simp only: open_case_for_def same)
  moreover have "ob_state q = ''settled''" if "q \<in> set (obligations t)" "ob_id q = ob" for q
  proof -
    from that(1) obtain q0 where "q = (if ob_id q0 = ob then q0\<lparr>ob_state := ''settled''\<rparr> else q0)"
      unfolding obs(1) set_update_where by blast
    with that(2) show ?thesis by (simp split: if_splits)
  qed
  moreover have "n = settled_total t ob" by (simp only: n obs(2))
  moreover have "mr_obligationId (match_settlement x s) = Some ob" using ob by (simp only: m)
  moreover have "\<exists>r'. case_of t (cs_id r) = Some r' \<and> cs_state r' = RECOVERED \<and> cs_closed_at r' = Some now"
    using closed(1) by (simp only: t3 r(1))
  moreover have "\<forall>a \<in> set (scheduled_actions t). \<not> outstanding (cs_id r) a"
    using closed(2) by (simp only: t3 r(1))
  ultimately show ?thesis by blast
qed

text \<open>
  A dispute or an opt-out ends its case and cancels what that case has scheduled; when the append is refused nothing
  happened. Neither touches another case, an obligation, a settlement or an attempt.
\<close>

fun ending_state :: "OutcomeResult \<Rightarrow> CaseState option" where
  "ending_state disputed = Some DISPUTED"
| "ending_state opted_out = Some OPTED_OUT"
| "ending_state _ = None"

lemma ending_outcome:
  assumes inv: "store_inv s" and k: "ending_state (os_result sig) = Some st" and c: "os_caseId sig = c"
    and run: "onOutcome now sig s = (r, t)"
  shows "case r of Inl _ \<Rightarrow> t = s
    | Inr _ \<Rightarrow> obligations t = obligations s \<and> settlements t = settlements s \<and> action_attempts t = action_attempts s
        \<and> scheduled_actions t = update_where (outstanding c) (cancel_row now) (scheduled_actions s)
        \<and> (\<forall>c'. c' \<noteq> c \<longrightarrow> case_of t c' = case_of s c' \<and> log_of c' t = log_of c' s)
        \<and> (\<exists>row. case_of t c = Some row \<and> cs_state row = st \<and> cs_closed_at row = Some now)"
proof -
  let ?ev = "outcome_event (os_result sig)"
  obtain why where ev: "?ev = terminal_reached st why" and st: "isTerminal st"
    using k by (cases "os_result sig") auto
  obtain x s1 where app: "event_append now c ?ev ''verifier'' s = (x, s1)"
    by (cases "event_append now c ?ev ''verifier'' s")
  show ?thesis
  proof (cases x)
    case (Inl e)
    with app run c event_append_rollback [of now c ?ev "''verifier''" s e s1] show ?thesis
      by (auto simp: onOutcome_def monad_simps)
  next
    case (Inr y)
    obtain stored rvn where y: "y = (stored, rvn)" by (cases y)
    have app': "event_append now c (terminal_reached st why) ''verifier'' s = (Inr (stored, rvn), s1)"
      using app by (simp add: Inr y ev)
    have t: "t = s1\<lparr>ledger := ledger s1 @ [\<lparr>lg_case = c, lg_ts = now, lg_actor = ''verifier'',
        lg_type = ''outcome_'' @ result_str (os_result sig), lg_payload = dflt (os_detail sig) [], lg_policy = None\<rparr>]\<rparr>"
      and r: "r = Inr ()"
      using app run c by (simp_all add: onOutcome_def monad_simps Inr)
    from event_append_Inr [OF inv app'] have s1: "s1 = appended now c stored rvn s" by blast
    have new: "ev_caseId stored = c" using event_append_Inr [OF inv app'] by auto
    have "isTerminal (rv_state rvn)"
      using append_rvn [OF inv app'] st by (auto simp: next_revision_def Let_def)
    then have acts: "scheduled_actions t = update_where (outstanding c) (cancel_row now) (scheduled_actions s)"
      by (simp add: t s1 appended_actions)
    have own: "\<exists>row. case_of t c = Some row \<and> cs_state row = st \<and> cs_closed_at row = Some now"
      using append_terminal [OF inv app' st] by (auto simp: t case_of_def)
    have other: "case_of t c' = case_of s c'" "log_of c' t = log_of c' s" if "c' \<noteq> c" for c'
    proof -
      have "case_of s1 c' = case_of s c'"
        using that by (cases "case_of s c'") (auto simp: s1 case_of_appended dest: case_of_Some)
      then show "case_of t c' = case_of s c'" by (simp add: t case_of_def)
      have "log_of c' s1 = log_of c' s" using that new by (simp add: s1 log_of_appended)
      then show "log_of c' t = log_of c' s" by (simp add: t log_of_def)
    qed
    show ?thesis using acts own other by (simp add: r t s1 appended_def)
  qed
qed

end
