(* ===== verification/Execution.thy ===== *)
theory Execution
  imports System Recovery
begin

text \<open>
  The executor together with the token burner, the lease and the policy engine: what one
  execution does, and that a used token is refused for good.
\<close>

interpretation burns: spend_once "\<lambda>(now, tok). try_burn now tok" "\<lambda>(now, tok). tk_nonce tok" burned
  by unfold_locales
     (auto simp: try_burn_def burn_app burned_def split: prod.splits sum.splits if_splits)

lemma tryAcquire_burns: "token_burns (snd (tryAcquire ttl now ob h s)) = token_burns s"
  by (auto simp: tryAcquire_def monad_simps split: option.splits)

lemma acquire_burns: "token_burns (snd (acquire ttl now ob h s)) = token_burns s"
  using tryAcquire_burns [of ttl now ob h s]
  by (auto simp: acquire_def monad_simps split: option.splits prod.splits sum.splits)

text \<open>A burned token is refused before the provider is asked, whatever else holds.\<close>

lemma execute_burned:
  assumes "burned (tk_nonce (xr_token req)) s"
  shows "snd (snd (Executor.execute E ad lib m ttl now req (s, w))) = w
    \<and> isl (fst (Executor.execute E ad lib m ttl now req (s, w)))"
proof -
  have adm: "admitted ad now cap k req (s1, w) = (Inl (TokenReplayError (tk_nonce (xr_token req))), (s1, w))"
    if "token_burns s1 = token_burns s" for cap k s1
    by (rule admitted_replay) (use assms that in \<open>simp add: burned_def\<close>)
  have lease: "snd (snd (withLease ttl now ob h (admitted ad now cap k req) (s, w))) = w
      \<and> isl (fst (withLease ttl now ob h (admitted ad now cap k req) (s, w)))" for ob h cap k
  proof (cases "acquire ttl now ob h s")
    case (Pair r s1)
    then have "token_burns s1 = token_burns s" using acquire_burns [of ttl now ob h s] by simp
    from adm [OF this] Pair show ?thesis
      by (cases r) (simp_all add: withLease_def monad_simps Obligation_Lease.release_def)
  qed
  show ?thesis
    using lease by (auto simp: Executor.execute_def monad_simps split: sum.splits option.splits prod.splits)
qed

lemma execute_eval:
  assumes lib: "lib_get lib (xr_actionId req) = Inr a" "ad_kind a = capability"
      "capability_named (ad_capability a) = Some cap" "cap \<in> set (pa_capabilities ad)"
    and tok: "token_verify E m now (xr_token req) (token_call req) = Inr ()"
    and lease: "tryAcquire ttl now (xr_obligationId req) (''executor:'' @ xr_caseId req) s = (Inr True, s1)"
  shows "Executor.execute E ad lib m ttl now req (s, w) =
    (let k = idempotencyKey E (xr_caseId req) (xr_actionId req) (xr_attemptNo req) (xr_params req);
         (r, (t, w')) = admitted ad now cap k req (s1, w)
     in (r, (snd (Obligation_Lease.release (xr_obligationId req) (''executor:'' @ xr_caseId req) t), w')))"
  using lib tok withLease_run [OF lease]
  by (simp add: Executor.execute_def monad_simps Let_def case_prod_unfold prod_eq_iff on_state_def)

text \<open>Once the provider was asked, or a result returned, the nonce is burned.\<close>

lemma admitted_burns:
  assumes "admitted ad now cap k req (s, w) = (r, (t, w'))" and "w' \<noteq> w \<or> \<not> isl r"
  shows "burned (tk_nonce (xr_token req)) t"
proof (cases "burned (tk_nonce (xr_token req)) s")
  case True
  with admitted_replay [OF True, of ad now cap k w] assms show ?thesis by simp
next
  case False
  let ?s = "s\<lparr>token_burns := token_burns s @ [\<lparr>tb_nonce = tk_nonce (xr_token req), tb_case = tk_caseId (xr_token req),
     tb_action = tk_actionId (xr_token req), tb_at = now\<rparr>]\<rparr>"
  have "token_burns t = token_burns ?s"
    using assms(1) False
    by (auto simp: admitted_def monad_simps split: prod.splits sum.splits if_splits)
  then show ?thesis by (simp add: burned_def)
qed

lemma withLease_burns:
  assumes "withLease ttl now ob h (admitted ad now cap k req) (s, w) = (r, (t, w'))" and "w' \<noteq> w \<or> \<not> isl r"
  shows "burned (tk_nonce (xr_token req)) t"
proof (cases "acquire ttl now ob h s")
  case (Pair r1 s1)
  show ?thesis
  proof (cases r1)
    case (Inl e)
    with Pair assms show ?thesis by (auto simp: withLease_def thenM_app on_db_app)
  next
    case (Inr u)
    obtain r2 t2 w2 where adm: "admitted ad now cap k req (s1, w) = (r2, (t2, w2))" by (metis prod.exhaust)
    with Pair Inr assms(1) have "r = r2" "w' = w2" and t: "t = snd (Obligation_Lease.release ob h t2)"
      by (simp_all add: withLease_def monad_simps Obligation_Lease.release_def)
    with admitted_burns [OF adm] assms(2) have "burned (tk_nonce (xr_token req)) t2" by simp
    then show ?thesis by (simp add: t Obligation_Lease.release_def modifyM_app burned_def)
  qed
qed

lemma execute_burns:
  assumes "Executor.execute E ad lib m ttl now req (s, w) = (r, (t, w'))" and "w' \<noteq> w \<or> \<not> isl r"
  shows "burned (tk_nonce (xr_token req)) t"
  using assms
  by (auto simp: Executor.execute_def monad_simps split: sum.splits option.splits if_splits
      elim!: withLease_burns)

end
