(* ===== verification/Attribution.thy ===== *)
theory Attribution
  imports Mulberry Stats
begin

text \<open>
  \<open>packages/attribution/src\<close> and \<open>packages/sim/src/deterministic-random.ts\<close>: the holdout
  assignment, the balance of the two arms and the estimator of incremental recovery.
  Amounts are integers of paise, summed exactly (a double does so up to \<open>2 ^ 53\<close>); every
  other operation on doubles is rounded. Reading a property of \<open>undefined\<close> is the error
  \<open>TypeError\<close>. Shown here: the assignment is monotone in the rate, the balance counts every
  assignment once, an excluded outcome has no influence, and the bootstrap never leaves
  its samples and returns an ordered interval.
\<close>

section \<open>Draws from a digest\<close>

text \<open>\<open>digest.readUIntBE(0, 6) / 0xffffffffffff\<close>.\<close>

definition readUIntBE6 :: "byte list \<Rightarrow> nat" where
  "readUIntBE6 bs = fold (\<lambda>b n. n * 256 + unat b) (take 6 bs) 0"

definition digest_fraction :: "env \<Rightarrow> string \<Rightarrow> rat" where
  "digest_fraction E text = fdiv E (of_nat (readUIntBE6 (sha256 E text))) 281474976710655"

text \<open>\<open>draw(seed, ...parts)\<close>, the parts already turned into strings.\<close>

definition draw :: "env \<Rightarrow> int \<Rightarrow> string list \<Rightarrow> rat" where
  "draw E seed parts = digest_fraction E (int_str seed @ ''|'' @ join ''|'' parts)"

section \<open>The holdout\<close>

record StratumInput =
  si_caseId :: string
  si_cause :: string
  si_amountPaise :: int

definition VALUE_BANDS :: "(string \<times> int) list" where
  "VALUE_BANDS = [(''lt_1k'', 100000), (''1k_5k'', 500000), (''5k_25k'', 2500000),
     (''gt_25k'', 9007199254740991)]"

definition valueBand :: "int \<Rightarrow> err + string" where
  "valueBand amountPaise = (case find (\<lambda>b. amountPaise \<le> snd b) VALUE_BANDS of
     Some b \<Rightarrow> Inr (fst b) | None \<Rightarrow> Inl (Error ''TypeError''))"

definition stratumOf :: "StratumInput \<Rightarrow> err + string" where
  "stratumOf x = bindE (valueBand (si_amountPaise x)) (\<lambda>b. Inr (si_cause x @ '':'' @ b))"

definition assignHoldout :: "env \<Rightarrow> StratumInput \<Rightarrow> rat \<Rightarrow> int \<Rightarrow> err + bool" where
  "assignHoldout E x holdoutRate seed =
     bindE (stratumOf x) (\<lambda>stratum.
       Inr (digest_fraction E (int_str seed @ ''|'' @ stratum @ ''|'' @ si_caseId x) < holdoutRate))"

record StratumBalance =
  sb_stratum :: string
  sb_treated :: nat
  sb_holdout :: nat
  sb_holdoutShare :: rat

definition tally_arm :: "string \<times> bool \<Rightarrow> (string \<times> nat \<times> nat) list \<Rightarrow> (string \<times> nat \<times> nat) list" where
  "tally_arm a m =
     (let (t, h) = (case map_of m (fst a) of Some row \<Rightarrow> row | None \<Rightarrow> (0, 0))
      in AList.update (fst a) (if snd a then (t, h + 1) else (t + 1, h)) m)"

definition balance :: "env \<Rightarrow> (string \<times> bool) list \<Rightarrow> StratumBalance list" where
  "balance E assignments =
     sort_by (\<lambda>a b. locale_le E (sb_stratum a) (sb_stratum b))
       (map (\<lambda>(stratum, t, h). \<lparr>sb_stratum = stratum, sb_treated = t, sb_holdout = h,
          sb_holdoutShare = fdiv E (of_nat h) (of_nat (t + h))\<rparr>)
        (fold tally_arm assignments []))"

section \<open>The estimator\<close>

record CaseOutcome =
  co_caseId :: string
  co_holdout :: bool
  co_recovered :: bool
  co_amountPaise :: int
  co_recoveredAfterMs :: "int option"
  co_merchantDunning :: "bool option"

record EstimatorConfig =
  ec_naturalRecoveryWindowMs :: int
  ec_windowDays :: int
  ec_bootstrapSamples :: nat
  ec_seed :: int

definition DEFAULT_ESTIMATOR_CONFIG :: EstimatorConfig where
  "DEFAULT_ESTIMATOR_CONFIG = \<lparr>ec_naturalRecoveryWindowMs = 30 * 60000, ec_windowDays = 14,
     ec_bootstrapSamples = 2000, ec_seed = 20260902\<rparr>"

record Stratum =
  sm_band :: string
  sm_treatedN :: nat
  sm_holdoutN :: nat
  sm_lift :: rat
  sm_meanValuePaise :: int
  sm_incrementalPaise :: int
  sm_pooledFallback :: bool

record AttributionResult =
  at_treatedN :: nat
  at_holdoutN :: nat
  at_treatedRecovered :: nat
  at_holdoutRecovered :: nat
  at_treatedRate :: rat
  at_holdoutRate :: rat
  at_lift :: rat
  at_liftCi :: "rat \<times> rat"
  at_grossRecoveredPaise :: int
  at_incrementalPaise :: int
  at_incrementalCi :: "int \<times> int"
  at_incrementalStratifiedPaise :: int
  at_strata :: "Stratum list"
  at_excludedTreated :: nat
  at_excludedHoldout :: nat
  at_meanValueAtRiskPaise :: int

definition MIN_BAND_HOLDOUT :: nat where
  "MIN_BAND_HOLDOUT = 20"

text \<open>The sum of the amounts of some outcomes, and their mean.\<close>

definition total_value :: "CaseOutcome list \<Rightarrow> int" where
  "total_value os = foldl (\<lambda>s x. s + co_amountPaise x) 0 os"

definition mean_value :: "env \<Rightarrow> CaseOutcome list \<Rightarrow> rat" where
  "mean_value E os = fdiv E (of_int (total_value os)) (of_nat (length os))"

definition recovered_of :: "CaseOutcome list \<Rightarrow> CaseOutcome list" where
  "recovered_of os = filter co_recovered os"

definition arm_rate :: "env \<Rightarrow> CaseOutcome list \<Rightarrow> rat" where
  "arm_rate E os = rate E (int (length (recovered_of os))) (int (length os))"

definition band_row :: "env \<Rightarrow> CaseOutcome list \<Rightarrow> CaseOutcome list \<Rightarrow> rat \<Rightarrow> string \<Rightarrow> Stratum" where
  "band_row E treated holdout pooledLift band =
     (let t = filter (\<lambda>x. valueBand (co_amountPaise x) = Inr band) treated;
          h = filter (\<lambda>x. valueBand (co_amountPaise x) = Inr band) holdout;
          pooledFallback = length h < MIN_BAND_HOLDOUT;
          bandLift = (if pooledFallback then pooledLift else fsub E (arm_rate E t) (arm_rate E h));
          recoveredInBand = recovered_of t;
          meanValuePaise = (if recoveredInBand \<noteq> [] then mean_value E recoveredInBand
                            else if t \<noteq> [] then mean_value E t else 0)
      in \<lparr>sm_band = band, sm_treatedN = length t, sm_holdoutN = length h, sm_lift = bandLift,
          sm_meanValuePaise = js_round meanValuePaise,
          sm_incrementalPaise = js_round (fmul E (fmul E bandLift (of_nat (length t))) meanValuePaise),
          sm_pooledFallback = pooledFallback\<rparr>)"

text \<open>\<open>[...new Set(labels)].sort()\<close>: the distinct labels by code unit.\<close>

definition estimateByBand :: "env \<Rightarrow> CaseOutcome list \<Rightarrow> CaseOutcome list \<Rightarrow> rat \<Rightarrow> err + Stratum list" where
  "estimateByBand E treated holdout pooledLift =
     bindE (mapE (\<lambda>x. valueBand (co_amountPaise x)) (treated @ holdout)) (\<lambda>labels.
       Inr (map (band_row E treated holdout pooledLift) (sort_by code_le (remdups labels))))"

definition isExcluded :: "EstimatorConfig \<Rightarrow> CaseOutcome \<Rightarrow> bool" where
  "isExcluded c x =
     (if co_merchantDunning x = Some True then True
      else co_recovered x \<and> (case co_recoveredAfterMs x of
        None \<Rightarrow> False | Some ms \<Rightarrow> ms < ec_naturalRecoveryWindowMs c))"

subsection \<open>The bootstrap\<close>

text \<open>\<open>xs[Math.floor(rand() * xs.length)]!\<close> and the state of the generator after the draw.\<close>

definition pick :: "env \<Rightarrow> CaseOutcome list \<Rightarrow> rng \<Rightarrow> err + CaseOutcome \<times> rng" where
  "pick E xs r =
     (let (d, r') = mulberry_next r; i = nat \<lfloor>fmul E d (of_nat (length xs))\<rfloor>
      in if i < length xs then Inr (xs ! i, r') else Inl (Error ''TypeError''))"

text \<open>\<open>tGross\<close>, \<open>tRecoveredCount\<close> and \<open>tValue\<close> of the first inner loop.\<close>

fun resample_treated :: "env \<Rightarrow> CaseOutcome list \<Rightarrow> nat \<Rightarrow> int \<times> int \<times> int \<Rightarrow> rng \<Rightarrow> err + (int \<times> int \<times> int) \<times> rng" where
  "resample_treated E xs 0 acc r = Inr (acc, r)"
| "resample_treated E xs (Suc n) (gross, k, v) r =
     bindE (pick E xs r) (\<lambda>(x, r').
       resample_treated E xs n
         (if co_recovered x then (gross + co_amountPaise x, k + 1, v + co_amountPaise x)
          else (gross, k, v + co_amountPaise x)) r')"

text \<open>\<open>hRecovered\<close> and \<open>hValue\<close> of the second.\<close>

fun resample_holdout :: "env \<Rightarrow> CaseOutcome list \<Rightarrow> nat \<Rightarrow> int \<times> int \<Rightarrow> rng \<Rightarrow> err + (int \<times> int) \<times> rng" where
  "resample_holdout E xs 0 acc r = Inr (acc, r)"
| "resample_holdout E xs (Suc n) (k, v) r =
     bindE (pick E xs r) (\<lambda>(x, r').
       resample_holdout E xs n (if co_recovered x then (k + 1, v + co_amountPaise x) else (k, v)) r')"

definition bootstrap_sample :: "env \<Rightarrow> CaseOutcome list \<Rightarrow> CaseOutcome list \<Rightarrow> rng \<Rightarrow> err + rat \<times> rng" where
  "bootstrap_sample E treated holdout r =
     bindE (resample_treated E treated (length treated) (0, 0, 0) r) (\<lambda>((tGross, tRecoveredCount, tValue), r1).
     let tMeanValue = fdiv E (of_int tValue) (of_nat (length treated)) in
     bindE (resample_holdout E holdout (length holdout) (0, 0) r1) (\<lambda>((hRecovered, hValue), r2).
     let l = fsub E (fdiv E (of_int tRecoveredCount) (of_nat (length treated)))
                    (fdiv E (of_int hRecovered) (of_nat (length holdout)))
     in Inr (fmul E (fmul E l (of_nat (length treated))) tMeanValue, r2)))"

fun bootstrap_loop :: "env \<Rightarrow> CaseOutcome list \<Rightarrow> CaseOutcome list \<Rightarrow> nat \<Rightarrow> rng \<Rightarrow> err + rat list" where
  "bootstrap_loop E treated holdout 0 r = Inr []"
| "bootstrap_loop E treated holdout (Suc n) r =
     bindE (bootstrap_sample E treated holdout r) (\<lambda>(x, r').
     bindE (bootstrap_loop E treated holdout n r') (\<lambda>xs. Inr (x # xs)))"

text \<open>\<open>samples[Math.floor(q * samples.length)] ?? 0\<close>.\<close>

definition quantile :: "env \<Rightarrow> rat \<Rightarrow> rat list \<Rightarrow> rat" where
  "quantile E q xs =
     (let i = nat \<lfloor>fmul E (fl E q) (of_nat (length xs))\<rfloor> in if i < length xs then xs ! i else 0)"

definition bootstrapIncremental :: "env \<Rightarrow> CaseOutcome list \<Rightarrow> CaseOutcome list \<Rightarrow> EstimatorConfig \<Rightarrow> err + int \<times> int" where
  "bootstrapIncremental E treated holdout c =
     (if treated = [] \<or> holdout = [] then Inr (0, 0)
      else bindE (bootstrap_loop E treated holdout (ec_bootstrapSamples c) (mulberry32 (ec_seed c))) (\<lambda>samples.
        let sorted_samples = sort_by (\<le>) samples
        in Inr (js_round (quantile E (25 / 1000) sorted_samples), js_round (quantile E (975 / 1000) sorted_samples))))"

subsection \<open>The estimate\<close>

text \<open>The part of \<open>estimate\<close> after the arms are formed.\<close>

definition estimate_arms :: "env \<Rightarrow> EstimatorConfig \<Rightarrow> nat \<Rightarrow> nat \<Rightarrow> CaseOutcome list \<Rightarrow> CaseOutcome list \<Rightarrow> err + AttributionResult" where
  "estimate_arms E c excludedTreated excludedHoldout treated holdout =
     (let treatedRate = arm_rate E treated;
          holdoutRate = arm_rate E holdout;
          lift = fsub E treatedRate holdoutRate;
          meanValue = (if treated = [] then 0 else mean_value E treated);
          seTreated = (if treated = [] then 0
            else fdiv E (fmul E treatedRate (fsub E 1 treatedRate)) (of_nat (length treated)));
          seHoldout = (if holdout = [] then 0
            else fdiv E (fmul E holdoutRate (fsub E 1 holdoutRate)) (of_nat (length holdout)));
          se = js_sqrt E (fadd E seTreated seHoldout);
          half = fmul E (fl E (196 / 100)) se
      in bindE (estimateByBand E treated holdout lift) (\<lambda>strata.
         bindE (bootstrapIncremental E treated holdout c) (\<lambda>incrementalCi.
         Inr \<lparr>at_treatedN = length treated, at_holdoutN = length holdout,
              at_treatedRecovered = length (recovered_of treated),
              at_holdoutRecovered = length (recovered_of holdout),
              at_treatedRate = treatedRate, at_holdoutRate = holdoutRate, at_lift = lift,
              at_liftCi = (fsub E lift half, fadd E lift half),
              at_grossRecoveredPaise = total_value (recovered_of treated),
              at_incrementalPaise = js_round (fmul E (fmul E lift (of_nat (length treated))) meanValue),
              at_incrementalCi = incrementalCi,
              at_incrementalStratifiedPaise = foldl (\<lambda>acc s. acc + sm_incrementalPaise s) 0 strata,
              at_strata = strata, at_excludedTreated = excludedTreated, at_excludedHoldout = excludedHoldout,
              at_meanValueAtRiskPaise = js_round meanValue\<rparr>)))"

definition estimate :: "env \<Rightarrow> CaseOutcome list \<Rightarrow> EstimatorConfig \<Rightarrow> err + AttributionResult" where
  "estimate E outcomes c =
     (let excludedTreated = length (filter (\<lambda>x. \<not> co_holdout x \<and> isExcluded c x) outcomes);
          excludedHoldout = length (filter (\<lambda>x. co_holdout x \<and> isExcluded c x) outcomes);
          eligible = filter (\<lambda>x. \<not> isExcluded c x) outcomes
      in estimate_arms E c excludedTreated excludedHoldout
           (filter (\<lambda>x. \<not> co_holdout x) eligible) (filter co_holdout eligible))"

text \<open>The simulator's ground truth: an outcome with its latent \<open>willPayRegardless\<close>.\<close>

definition trueIncremental :: "(CaseOutcome \<times> bool) list \<Rightarrow> int" where
  "trueIncremental os = total_value (map fst (filter (\<lambda>(x, willPayRegardless).
     \<not> co_holdout x \<and> co_recovered x \<and> \<not> willPayRegardless) os))"

section \<open>The holdout assignment\<close>

lemma valueBand_total: "amount \<le> 9007199254740991 \<Longrightarrow> \<exists>b. valueBand amount = Inr b"
  by (simp add: valueBand_def VALUE_BANDS_def)

lemma valueBand_no_colon: "valueBand amount = Inr b \<Longrightarrow> CHR '':'' \<notin> set b"
  by (auto simp: valueBand_def VALUE_BANDS_def split: if_splits)

text \<open>A higher rate only adds cases to the holdout.\<close>

lemma assignHoldout_mono:
  "assignHoldout E x rate1 seed = Inr True \<Longrightarrow> rate1 \<le> rate2 \<Longrightarrow> assignHoldout E x rate2 seed = Inr True"
  by (cases "stratumOf x") (auto simp: assignHoldout_def)

section \<open>The balance\<close>

lemma tally_arm_lookup:
  "map_of (fold tally_arm as m) s =
     (if s \<in> fst ` set as \<or> s \<in> fst ` set m then
        (case map_of m s of None \<Rightarrow> Some (length (filter (\<lambda>a. a = (s, False)) as), length (filter (\<lambda>a. a = (s, True)) as))
         | Some (t, h) \<Rightarrow> Some (t + length (filter (\<lambda>a. a = (s, False)) as), h + length (filter (\<lambda>a. a = (s, True)) as)))
      else None)"
proof (induction as arbitrary: m)
  case Nil
  then show ?case by (auto simp: map_of_eq_None_iff split: option.split)
next
  case (Cons a as)
  obtain s' h' where a: "a = (s', h')" by (cases a)
  have "map_of (tally_arm a m) s = (if s = s'
      then (case map_of m s of None \<Rightarrow> Some (if h' then (0, 1) else (1, 0))
            | Some (t, h) \<Rightarrow> Some (if h' then (t, h + 1) else (t + 1, h))) else map_of m s)"
    by (auto simp: a tally_arm_def update_conv' split: option.split prod.split)
  moreover have "fst ` set (tally_arm a m) = insert s' (fst ` set m)"
    by (cases "case map_of m s' of Some row \<Rightarrow> row | None \<Rightarrow> (0 :: nat, 0 :: nat)")
      (simp add: a tally_arm_def dom_update)
  ultimately show ?case unfolding fold_simps comp_apply Cons.IH
    by (cases h'; cases "map_of m s'"; auto simp: a split: option.split)
qed

lemma tally_arm_distinct: "distinct (map fst m) \<Longrightarrow> distinct (map fst (fold tally_arm as m))"
  by (induction as arbitrary: m) (auto simp: tally_arm_def Let_def distinct_update split: prod.split)

lemma balance_rows:
  "b \<in> set (balance E as) \<longleftrightarrow> (\<exists>s t h. map_of (fold tally_arm as []) s = Some (t, h)
     \<and> b = \<lparr>sb_stratum = s, sb_treated = t, sb_holdout = h, sb_holdoutShare = fdiv E (of_nat h) (of_nat (t + h))\<rparr>)"
proof -
  have "distinct (map fst (fold tally_arm as []))" by (rule tally_arm_distinct) simp
  then have "map_of (fold tally_arm as []) s = Some (t, h) \<longleftrightarrow> (s, t, h) \<in> set (fold tally_arm as [])" for s t h
    by (rule map_of_eq_Some_iff)
  then show ?thesis unfolding balance_def set_sort_by set_map image_iff Bex_def by (auto simp del: of_nat_add)
qed

lemma balance_counts:
  "b \<in> set (balance E as) \<longleftrightarrow>
     sb_stratum b \<in> fst ` set as
     \<and> sb_treated b = length (filter (\<lambda>a. a = (sb_stratum b, False)) as)
     \<and> sb_holdout b = length (filter (\<lambda>a. a = (sb_stratum b, True)) as)
     \<and> sb_holdoutShare b = fdiv E (of_nat (sb_holdout b)) (of_nat (sb_treated b + sb_holdout b))"
  unfolding balance_rows tally_arm_lookup by (cases b) (auto simp del: of_nat_add)

section \<open>Excluded outcomes\<close>

text \<open>The estimate, apart from the two counts, is the one of the eligible outcomes.\<close>

lemma estimate_arms_counts:
  "estimate_arms E c 0 0 t h =
     map_sum id (\<lambda>r. r\<lparr>at_excludedTreated := 0, at_excludedHoldout := 0\<rparr>) (estimate_arms E c m n t h)"
  unfolding estimate_arms_def Let_def
  by (cases "estimateByBand E t h (fsub E (arm_rate E t) (arm_rate E h))"; cases "bootstrapIncremental E t h c") simp_all

lemma estimate_eligible:
  "estimate E (filter (\<lambda>x. \<not> isExcluded c x) os) c =
     map_sum id (\<lambda>r. r\<lparr>at_excludedTreated := 0, at_excludedHoldout := 0\<rparr>) (estimate E os c)"
proof -
  have none: "filter (\<lambda>x. P x \<and> isExcluded c x) (filter (\<lambda>x. \<not> isExcluded c x) os) = []" for P
    by (auto simp: filter_empty_conv)
  have twice: "filter P (filter P os) = filter P os" for P :: "CaseOutcome \<Rightarrow> bool" by simp
  show ?thesis unfolding estimate_def Let_def none twice list.size
    by (rule estimate_arms_counts)
qed

section \<open>The bootstrap\<close>

text \<open>
  IEEE doubles represent \<open>m / 2 ^ k\<close> exactly when \<open>m\<close> has at most 53 bits and \<open>k\<close> is
  small, so rounding leaves such a value alone.
\<close>

definition dyadic :: "(rat \<Rightarrow> rat) \<Rightarrow> bool" where
  "dyadic f \<longleftrightarrow> rounding f \<and> (\<forall>(m::int) (k::nat). \<bar>m\<bar> \<le> 2 ^ 53 \<and> k \<le> 1000 \<longrightarrow> f (of_int m / 2 ^ k) = of_int m / 2 ^ k)"

lemma dyadic_id: "dyadic (\<lambda>x. x)"
  by (simp add: dyadic_def rounding_id)

lemma dyadic_exact: "dyadic f \<Longrightarrow> \<bar>m\<bar> \<le> 2 ^ 53 \<Longrightarrow> k \<le> 1000 \<Longrightarrow> f (of_int m / 2 ^ k) = of_int m / 2 ^ k"
  by (simp add: dyadic_def)

text \<open>A draw is a multiple of \<open>2 ^ -32\<close> below 1, so that the index is within the list.\<close>

lemma draw_index:
  assumes f: "dyadic (fl E)" and n: "0 < n" "n \<le> 2 ^ 20"
  shows "nat \<lfloor>fmul E (fst (mulberry_next r)) (of_nat n)\<rfloor> < n"
proof -
  let ?d = "fst (mulberry_next r)"
  have range: "0 \<le> ?d" "?d < 1" using mulberry_range [of r] by simp_all
  obtain u :: nat where d: "?d = of_nat u / 4294967296"
    by (simp add: mulberry_next_def Let_def del: of_nat_unat)
  from \<open>?d < 1\<close> have "of_nat u < (of_nat 4294967296 :: rat)" by (simp add: d)
  then have u: "u < 2 ^ 32" by (simp only: of_nat_less_iff) simp
  let ?m = "int (u * n)"
  have "u * n \<le> 2 ^ 32 * 2 ^ 20" using u n(2) by (intro mult_mono) simp_all
  then have "u * n \<le> 4503599627370496" by simp
  then have "int (u * n) \<le> int 4503599627370496" by (rule of_nat_mono)
  then have "\<bar>?m\<bar> \<le> 2 ^ 53" by simp
  then have "fl E (of_int ?m / 2 ^ 32) = of_int ?m / 2 ^ 32" by (intro dyadic_exact [OF f]) simp_all
  then have prod: "fmul E ?d (of_nat n) = ?d * of_nat n" by (simp add: fmul_def d)
  have "?d * of_nat n < of_nat n" "0 \<le> ?d * of_nat n" using range n(1) by simp_all
  then show ?thesis unfolding prod by linarith
qed

lemma pick_Inr:
  assumes "dyadic (fl E)" and "xs \<noteq> []" "length xs \<le> 2 ^ 20"
  shows "\<exists>x r'. pick E xs r = Inr (x, r') \<and> x \<in> set xs"
  using draw_index [of E "length xs" r] assms
  by (auto simp: pick_def Let_def split: prod.split)

lemma resample_treated_Inr:
  assumes "dyadic (fl E)" "xs \<noteq> []" "length xs \<le> 2 ^ 20"
  shows "\<exists>g k v r'. resample_treated E xs n acc r = Inr ((g, k, v), r')"
proof (induction n arbitrary: acc r)
  case (Suc n)
  from pick_Inr [OF assms, of r] obtain x r' where "pick E xs r = Inr (x, r')" by blast
  then show ?case using Suc by (cases acc) simp
qed (metis prod_cases3 resample_treated.simps(1))

lemma resample_holdout_Inr:
  assumes "dyadic (fl E)" "xs \<noteq> []" "length xs \<le> 2 ^ 20"
  shows "\<exists>k v r'. resample_holdout E xs n acc r = Inr ((k, v), r')"
proof (induction n arbitrary: acc r)
  case (Suc n)
  from pick_Inr [OF assms, of r] obtain x r' where "pick E xs r = Inr (x, r')" by blast
  then show ?case using Suc by (cases acc) simp
qed (metis surj_pair resample_holdout.simps(1))

lemma bootstrap_loop_Inr:
  assumes "dyadic (fl E)" "t \<noteq> []" "length t \<le> 2 ^ 20" "h \<noteq> []" "length h \<le> 2 ^ 20"
  shows "\<exists>xs. bootstrap_loop E t h n r = Inr xs \<and> length xs = n"
proof (induction n arbitrary: r)
  case (Suc n)
  obtain g k v r1 where "resample_treated E t (length t) (0, 0, 0) r = Inr ((g, k, v), r1)"
    using resample_treated_Inr [OF assms(1,2,3)] by blast
  moreover obtain k' v' r2 where "resample_holdout E h (length h) (0, 0) r1 = Inr ((k', v'), r2)"
    using resample_holdout_Inr [OF assms(1,4,5)] by blast
  ultimately obtain y r3 where "bootstrap_sample E t h r = Inr (y, r3)"
    by (simp add: bootstrap_sample_def)
  with Suc [of r3] show ?case by auto
qed simp

text \<open>The two indices of the interval are inside a non-empty sample and in order.\<close>

lemma quantile_index:
  assumes f: "dyadic (fl E)" and n: "0 < n" "n \<le> 2 ^ 40" and q: "0 \<le> q" "q \<le> 63 / 64"
  shows "nat \<lfloor>fmul E (fl E q) (of_nat n)\<rfloor> < n"
proof -
  have r: "rounding (fl E)" using f by (simp add: dyadic_def)
  have "fl E q \<le> fl E (of_int 63 / 2 ^ 6)" using q by (intro rounding_mono [OF r]) simp
  also have "\<dots> = 63 / 64" using dyadic_exact [OF f, of 63 6] by simp
  finally have "fl E q * of_nat n \<le> 63 / 64 * of_nat n" by (rule mult_right_mono) simp
  then have "fmul E (fl E q) (of_nat n) \<le> fl E (of_int (63 * int n) / 2 ^ 6)"
    unfolding fmul_def by (intro rounding_mono [OF r]) simp
  also have "\<dots> = of_int (63 * int n) / 2 ^ 6"
    using n(2) by (intro dyadic_exact [OF f]) simp_all
  also have "\<dots> < of_nat n" using n(1) by simp
  finally have "\<lfloor>fmul E (fl E q) (of_nat n)\<rfloor> < int n" by linarith
  then show ?thesis using n(1) by linarith
qed

lemma bootstrap_ordered:
  assumes f: "dyadic (fl E)" and "length t \<le> 2 ^ 20" "length h \<le> 2 ^ 20" and n: "ec_bootstrapSamples c \<le> 2 ^ 40"
  shows "\<exists>lo hi. bootstrapIncremental E t h c = Inr (lo, hi) \<and> lo \<le> hi"
proof (cases "t = [] \<or> h = [] \<or> ec_bootstrapSamples c = 0")
  case True
  then show ?thesis by (auto simp: bootstrapIncremental_def quantile_def)
next
  case False
  then have nz: "t \<noteq> []" "h \<noteq> []" "0 < ec_bootstrapSamples c" by auto
  have r: "rounding (fl E)" using f by (simp add: dyadic_def)
  obtain xs where run: "bootstrap_loop E t h (ec_bootstrapSamples c) (mulberry32 (ec_seed c)) = Inr xs"
    and len: "length xs = ec_bootstrapSamples c"
    using bootstrap_loop_Inr [OF f nz(1) assms(2) nz(2) assms(3)] by blast
  let ?ys = "sort_by (\<le>) xs"
  let ?i = "\<lambda>q. nat \<lfloor>fmul E (fl E q) (of_nat (length ?ys))\<rfloor>"
  have "sorted ?ys" by (rule sorted_sort_by) (auto simp: total_preorder_def)
  moreover have "fl E (25 / 1000) \<le> fl E (975 / 1000)" by (intro rounding_mono [OF r]) simp
  then have "?i (25 / 1000) \<le> ?i (975 / 1000)"
    unfolding fmul_def by (intro nat_mono floor_mono rounding_mono [OF r] mult_right_mono) simp_all
  moreover have "?i (975 / 1000) < length ?ys" "?i (25 / 1000) < length ?ys"
    using n nz(3) by (intro quantile_index [OF f]; simp add: len)+
  ultimately have "quantile E (25 / 1000) ?ys \<le> quantile E (975 / 1000) ?ys"
    unfolding quantile_def Let_def by (simp add: sorted_nth_mono)
  then show ?thesis using nz by (simp add: bootstrapIncremental_def Let_def run js_round_mono)
qed

section \<open>The estimate\<close>

lemma arm_rate_range: "rounding (fl E) \<Longrightarrow> 0 \<le> arm_rate E xs \<and> arm_rate E xs \<le> 1"
proof (cases "xs = []")
  case False
  assume r: "rounding (fl E)"
  let ?q = "of_int (int (length (recovered_of xs))) / of_int (int (length xs)) :: rat"
  have "0 \<le> ?q" by simp
  moreover have "length (recovered_of xs) \<le> length xs" by (simp add: recovered_of_def)
  with False have "?q \<le> 1" by (simp add: divide_le_eq_1)
  ultimately show ?thesis
    using rounding_mono [OF r, of 0 ?q] rounding_mono [OF r, of ?q 1] rounding_0 [OF r] rounding_1 [OF r] False
    by (simp add: arm_rate_def rate_def fdiv_def)
qed (simp add: arm_rate_def rate_def)

lemma mapE_total: "(\<And>x. x \<in> set xs \<Longrightarrow> \<exists>y. f x = Inr y) \<Longrightarrow> \<exists>ys. mapE f xs = Inr ys"
  by (induction xs) fastforce+

lemma estimate_Inr:
  assumes f: "dyadic (fl E)" and amounts: "\<And>x. x \<in> set os \<Longrightarrow> co_amountPaise x \<le> 9007199254740991"
    and len: "length os \<le> 2 ^ 20" and n: "ec_bootstrapSamples c \<le> 2 ^ 40"
  shows "\<exists>r. estimate E os c = Inr r \<and> fst (at_incrementalCi r) \<le> snd (at_incrementalCi r)
    \<and> 0 \<le> at_treatedRate r \<and> at_treatedRate r \<le> 1 \<and> 0 \<le> at_holdoutRate r \<and> at_holdoutRate r \<le> 1
    \<and> -1 \<le> at_lift r \<and> at_lift r \<le> 1
    \<and> at_treatedN r + at_holdoutN r + at_excludedTreated r + at_excludedHoldout r = length os"
proof -
  define el where "el = filter (\<lambda>x. \<not> isExcluded c x) os"
  define t h where "t = filter (\<lambda>x. \<not> co_holdout x) el" and "h = filter co_holdout el"
  have r: "rounding (fl E)" using f by (simp add: dyadic_def)
  have "length t \<le> length os" "length h \<le> length os"
    unfolding t_def h_def el_def by (rule order_trans [OF length_filter_le length_filter_le])+
  then obtain lo hi where boot: "bootstrapIncremental E t h c = Inr (lo, hi)" "lo \<le> hi"
    using bootstrap_ordered [OF f _ _ n, of t h] len by force
  have "\<exists>y. valueBand (co_amountPaise x) = Inr y" if "x \<in> set (t @ h)" for x
    using that by (intro valueBand_total amounts) (auto simp: t_def h_def el_def)
  then obtain labels where labels: "mapE (\<lambda>x. valueBand (co_amountPaise x)) (t @ h) = Inr labels"
    using mapE_total [of "t @ h" "\<lambda>x. valueBand (co_amountPaise x)"] by blast
  have lift: "-1 \<le> fsub E (arm_rate E t) (arm_rate E h)" "fsub E (arm_rate E t) (arm_rate E h) \<le> 1"
    using arm_rate_range [OF r, of t] arm_rate_range [OF r, of h] rounding_int [OF r, of "-1"] rounding_1 [OF r]
      rounding_mono [OF r, of "-1" "arm_rate E t - arm_rate E h"] rounding_mono [OF r, of "arm_rate E t - arm_rate E h" 1]
    by (simp_all add: fsub_def)
  have "length t + length h = length el" unfolding t_def h_def using sum_length_filter_compl [of co_holdout el] by simp
  moreover have "length (filter (\<lambda>x. \<not> co_holdout x \<and> isExcluded c x) os) + length (filter (\<lambda>x. co_holdout x \<and> isExcluded c x) os)
      = length (filter (isExcluded c) os)"
    using sum_length_filter_compl [of co_holdout "filter (isExcluded c) os"] by (simp add: conj_commute)
  ultimately have "length t + length h + length (filter (\<lambda>x. \<not> co_holdout x \<and> isExcluded c x) os)
      + length (filter (\<lambda>x. co_holdout x \<and> isExcluded c x) os) = length os"
    unfolding el_def using sum_length_filter_compl [of "isExcluded c" os] by simp
  then show ?thesis using lift boot(2) arm_rate_range [OF r, of t] arm_rate_range [OF r, of h]
    unfolding estimate_def Let_def el_def [symmetric] t_def [symmetric] h_def [symmetric]
    by (simp add: estimate_arms_def Let_def estimateByBand_def labels boot(1))
qed

end
