(* ===== verification/Guarantees.thy ===== *)
theory Guarantees
  imports Sample Execution Detector Taxonomy Tier0 Attribution
begin

text \<open>
  What single components promise their callers: dispatch, authorisation and budgets,
  reconciliation, deduplication, incidents, routing and configuration.
\<close>

text \<open>
  C15. A scheduled action that was completed or cancelled is over: whatever the engine does
  next, its row stays exactly as it is and no tick returns it.
\<close>

theorem finished_action_stays:
  assumes "reachable (w :: 'w itself) s" and "a \<in> set (scheduled_actions s)"
    and "sa_state a = sched_done \<or> sa_state a = cancelled" and "(sys_step w)\<^sup>*\<^sup>* s t"
    and "fst (Scheduler.tick E leaseMs now locked owner limit t) = Inr xs"
  shows "a \<in> set (scheduled_actions t) \<and> sa_id a \<notin> sd_id ` set xs"
proof -
  have final: "row_final (sa_state a)" using assms(3) by (simp add: row_final_def)
  have "kept_row a s" using reachable_sys_inv [OF assms(1)] assms(2) by (simp add: kept_row_def sys_inv_def)
  from finished.reachable_keeps [OF assms(4) this] final
  have inv: "sched_inv t" and a: "a \<in> set (scheduled_actions t)" by (simp_all add: kept_row_def)
  have "sa_state a \<noteq> pending" using assms(3) by auto
  from tick_select_not_leased [OF inv a this, of E now locked limit]
  have "sa_id a \<notin> sa_id ` set (tick_select E now locked limit t)" by simp
  moreover have "sd_id ` set xs = sa_id ` set (tick_select E now locked limit t)"
    using assms(5) by (force simp: tick_eval Let_def scheduled_of_def)
  ultimately show ?thesis using a by simp
qed

definition sample_dropped :: db where
  "sample_dropped = after (cancelForCase 12 ''c1'') (after (sched_schedule 10 \<lparr>sr_caseId = ''c1'', sr_obligationId = ''o1'',
     sr_fireAt = 15, sr_actionRef = \<lparr>rf_actionId = ''link'', rf_params = [], rf_attemptNo = 0\<rparr>\<rparr>) sample_open)"

lemma sample_dropped_reachable: "reachable TYPE(unit) sample_dropped"
proof -
  have "sys_step TYPE(unit) sample_open (after (sched_schedule 10 \<lparr>sr_caseId = ''c1'', sr_obligationId = ''o1'',
     sr_fireAt = 15, sr_actionRef = \<lparr>rf_actionId = ''link'', rf_params = [], rf_attemptNo = 0\<rparr>\<rparr>) sample_open)"
    using queue_step.schedule by (simp add: sys_step_def)
  from reachable_step [OF reachable_step [OF sample_open_reachable this]] show ?thesis
    using queue_step.cancel by (simp add: sample_dropped_def sys_step_def)
qed

theorem finished_action_stays_witness:
  "\<exists>a \<in> set (scheduled_actions sample_dropped). sa_id a = 1 \<and> sa_state a = cancelled \<and>
     (\<forall>xs. fst (Scheduler.tick env0 1000 20 [] ''w'' 5 sample_dropped) = Inr xs \<longrightarrow> 1 \<notin> sd_id ` set xs)"
proof -
  have "map (\<lambda>a. (sa_id a, sa_state a)) (scheduled_actions sample_dropped) = [(1, cancelled)]" by code_simp
  then obtain a where a: "a \<in> set (scheduled_actions sample_dropped)" "sa_id a = 1" "sa_state a = cancelled" by auto
  from finished_action_stays [OF sample_dropped_reachable a(1) disjI2 [OF a(3)] rtranclp.rtrancl_refl]
  have "1 \<notin> sd_id ` set xs" if "fst (Scheduler.tick env0 1000 20 [] ''w'' 5 sample_dropped) = Inr xs" for xs
    using that a(2) by simp
  with a show ?thesis by blast
qed

section \<open>Authorisation\<close>

text \<open>
  C16. A token is minted exactly when policy permits the action: it is allowed on the rail, the
  customer has not opted out of contact, the attempt is under the cap, it is not quiet
  hours, every contact cap has room, and the amount needs no approval. The token is the
  one for the context: its case, obligation, action, parameters and attempt number are those decided on, its cap
  is the amount if the action is capped, and it names the policy's version and rule, carries the nonce and the time it
  ends, and is signed. It is the one row added to the tokens. Deciding writes the decision and spends no contact budget.
\<close>

theorem token_iff_permitted:
  assumes "Policy_Engine.authorize E p lib m now n ctx s = (Inr au, t)" and "lib_get lib (ec_actionId ctx) = Inr a"
  shows "((au_token au \<noteq> None) \<longleftrightarrow>
      actionAllowedOnRail p (ec_rail ctx) (ec_actionId ctx)
      \<and> \<not> (ec_optedOut ctx \<and> ad_consumesContactBudget a)
      \<and> ec_attemptNo ctx < po_maxAttemptsPerCase p
      \<and> \<not> (ad_quietHoursEnforced a \<and> inQuietHours E now p)
      \<and> (ad_consumesContactBudget a \<longrightarrow>
           (\<forall>c. Some c \<in> set (caps_for p (channel_of E (ec_params ctx))) \<longrightarrow> cap_room E now (ec_customerId ctx) c s))
      \<and> (\<forall>amt. ec_amountPaise ctx = Some amt \<longrightarrow> amt \<le> po_requireApprovalAbovePaise p))
    \<and> (\<forall>tok. au_token au = Some tok \<longrightarrow>
        tk_caseId tok = ec_caseId ctx \<and> tk_obligationId tok = ec_obligationId ctx \<and> tk_actionId tok = ec_actionId ctx
        \<and> tk_paramsHash tok = hashParams E (ec_params ctx) \<and> tk_attemptNo tok = ec_attemptNo ctx
        \<and> tk_amountCapPaise tok = (if ad_amountCapped a then Some (dflt (ec_amountPaise ctx) 0) else None)
        \<and> tk_policyVersion tok = po_version p \<and> tk_ruleId tok = RULES ALLOWED \<and> tk_nonce tok = n
        \<and> tk_notAfter tok = to_iso E (now + mi_ttlMs m) \<and> tk_hmac tok = token_sign E m tok)
    \<and> capability_tokens t = capability_tokens s @ (case au_token au of None \<Rightarrow> []
        | Some tok \<Rightarrow> [\<lparr>ct_case = ec_caseId ctx, ct_obligation = ec_obligationId ctx, ct_token = tok, ct_minted = now\<rparr>])
    \<and> contact_budgets t = contact_budgets s
    \<and> policy_decisions t = policy_decisions s @
        [\<lparr>dr_case = ec_caseId ctx, dr_action = ec_actionId ctx, dr_decision = au_decision au, dr_at = now\<rparr>]"
proof -
  note au = authorize_Inr [OF assms(1)]
  have eval: "pe_evaluate E p lib now ctx s = (Inr (au_decision au), s)" using au by blast
  have "au_token au \<noteq> None \<longleftrightarrow> pd_outcome (au_decision au) = allow" using au by fastforce
  also have "\<dots> \<longleftrightarrow> permitted E p a now ctx s"
    using pe_evaluate_allow [OF eval] pe_evaluate_permitted [OF assms(2)] eval assms(2) by fastforce
  finally have iff: "au_token au \<noteq> None \<longleftrightarrow> permitted E p a now ctx s" .
  have minted: "tok = mint E m now n (mint_input E p a ctx ALLOWED)" if tok: "au_token au = Some tok" for tok
  proof -
    have "pd_outcome (au_decision au) = allow" using au tok by fastforce
    with au pe_evaluate_allow [OF eval] assms(2) tok show ?thesis by auto
  qed
  have fields: "\<forall>tok. au_token au = Some tok \<longrightarrow>
        tk_caseId tok = ec_caseId ctx \<and> tk_obligationId tok = ec_obligationId ctx \<and> tk_actionId tok = ec_actionId ctx
        \<and> tk_paramsHash tok = hashParams E (ec_params ctx) \<and> tk_attemptNo tok = ec_attemptNo ctx
        \<and> tk_amountCapPaise tok = (if ad_amountCapped a then Some (dflt (ec_amountPaise ctx) 0) else None)
        \<and> tk_policyVersion tok = po_version p \<and> tk_ruleId tok = RULES ALLOWED \<and> tk_nonce tok = n
        \<and> tk_notAfter tok = to_iso E (now + mi_ttlMs m) \<and> tk_hmac tok = token_sign E m tok"
    using minted by (auto simp: mint_input_def mint_hmac)
  have rows: "contact_budgets t = contact_budgets s" "policy_decisions t = policy_decisions s @
        [\<lparr>dr_case = ec_caseId ctx, dr_action = ec_actionId ctx, dr_decision = au_decision au, dr_at = now\<rparr>]"
    using au by blast+
  show ?thesis
    by (intro conjI iff [unfolded permitted_def] fields authorize_stored [OF assms(1)] rows)
qed

theorem token_iff_permitted_witness:
  "actionAllowedOnRail sample_policy card ''link'' \<and> 500 \<le> po_requireApprovalAbovePaise sample_policy
     \<and> tk_obligationId sample_token = ''o1'' \<and> tk_amountCapPaise sample_token = Some 500"
proof -
  obtain t where "Policy_Engine.authorize sample_env sample_policy sample_lib sample_minter sample_now ''n1'' sample_ctx sample_open
    = (Inr \<lparr>au_decision = decide sample_policy allow ALLOWED ''permitted on card within caps'', au_token = Some sample_token\<rparr>, t)"
    using sample_authorized by (metis prod.collapse)
  moreover have "lib_get sample_lib (ec_actionId sample_ctx) = Inr sample_action" by code_simp
  ultimately show ?thesis
    using token_iff_permitted by (fastforce simp: sample_ctx_def sample_action_def dflt_def)
qed

text \<open>
  C17. The token authorises that action and no other: it verifies, at any later instant and
  for any call, exactly when it has not outlived its time to live, the call names the
  authorised action, its parameters hash the same, and, for an amount-capped
  action, the amount is at most the authorised one.
\<close>

theorem token_covers_exactly:
  assumes "Policy_Engine.authorize E p lib m now n ctx s = (Inr au, t)" and "au_token au = Some tok"
    and "lib_get lib (ec_actionId ctx) = Inr a" and "iso_roundtrip E"
  shows "token_verify E m now' tok call = Inr () \<longleftrightarrow>
    now' \<le> now + mi_ttlMs m \<and> tc_actionId call = ec_actionId ctx
    \<and> hashParams E (tc_params call) = hashParams E (ec_params ctx)
    \<and> (ad_amountCapped a \<longrightarrow> (\<forall>amt. tc_amountPaise call = Some amt \<longrightarrow> amt \<le> dflt (ec_amountPaise ctx) 0))"
proof -
  have "tok = mint E m now n (mint_input E p a ctx (pd_ruleId (au_decision au)))"
    using authorize_Inr [OF assms(1)] assms(2,3) by (cases "pd_outcome (au_decision au) = allow") auto
  then show ?thesis
    by (simp only: token_verify_mint [OF assms(4)] input_covers_def mint_input_def MintInput.simps) auto
qed

theorem token_covers_exactly_witness:
  "token_verify sample_env sample_minter sample_now sample_token
     \<lparr>tc_actionId = ''link'', tc_params = [], tc_amountPaise = Some 501\<rparr> \<noteq> Inr ()"
proof -
  obtain t where t: "Policy_Engine.authorize sample_env sample_policy sample_lib sample_minter sample_now ''n1'' sample_ctx sample_open
     = (Inr \<lparr>au_decision = decide sample_policy allow ALLOWED ''permitted on card within caps'', au_token = Some sample_token\<rparr>, t)"
    using sample_authorized by (metis prod.collapse)
  have lib: "lib_get sample_lib (ec_actionId sample_ctx) = Inr sample_action" by code_simp
  have iso: "iso_roundtrip sample_env" using iso_roundtrip_env0 by (simp add: iso_roundtrip_def sample_env_def)
  show ?thesis
    by (subst token_covers_exactly [OF t _ lib iso]) (simp_all add: sample_action_def sample_ctx_def dflt_def)
qed

text \<open>
  C18. Contact caps hold for contacts taken one after the other: over any sequence of turns, each of which either leaves
  the counters alone or authorises one contact (on a channel not named \<open>*\<close>) and counts it in the same instant with nothing in
  between, no counter of a customer, a window and a channel of the policy, the global one included, ever goes over the cap
  it started within. (Authorisations made before an earlier one is counted are not turns, and exceed the caps.)
\<close>

theorem contact_caps_hold:
  assumes "(contact_turn E p lib m)\<^sup>*\<^sup>* s u"
    and "capFor p ch = Some c" and "used_in cust ch w s \<le> cc_max c"
  shows "used_in cust ch w u \<le> cc_max c"
  by (rule contact_turns_keep_caps [OF assms])

theorem contact_caps_hold_witness:
  "used_in ''u'' ''sms'' 0 (after (consumeContactBudget sample_env sample_policy sample_now ''u'' ''sms'') sample_authed) \<le> 3"
proof -
  let ?u = "after (consumeContactBudget sample_env sample_policy sample_now ''u'' ''sms'') sample_authed"
  have auth: "Policy_Engine.authorize sample_env sample_policy sample_lib sample_minter sample_now ''n1'' sample_ctx sample_open
     = (Inr \<lparr>au_decision = decide sample_policy allow ALLOWED ''permitted on card within caps'', au_token = Some sample_token\<rparr>, sample_authed)"
    using sample_authorized by (simp add: sample_authed_def after_def prod_eq_iff)
  have lib: "lib_get sample_lib (ec_actionId sample_ctx) = Inr sample_action" by code_simp
  have ch: "channel_of sample_env (ec_params sample_ctx) = ''sms''" by code_simp
  have run: "consumeContactBudget sample_env sample_policy sample_now (ec_customerId sample_ctx)
      (channel_of sample_env (ec_params sample_ctx)) sample_authed = (Inr (), ?u)"
  proof -
    have "fst (consumeContactBudget sample_env sample_policy sample_now ''u'' ''sms'' sample_authed) = Inr ()" by code_simp
    moreover have "ec_customerId sample_ctx = ''u''" by (simp add: sample_ctx_def)
    ultimately show ?thesis unfolding ch by (simp add: after_def prod_eq_iff)
  qed
  have "contact_turn sample_env sample_policy sample_lib sample_minter sample_open ?u"
    by (rule contact_turn.contact [OF auth _ lib _ _ run]) (simp_all add: ch sample_action_def)
  then have turns: "(contact_turn sample_env sample_policy sample_lib sample_minter)\<^sup>*\<^sup>* sample_open ?u" by (rule r_into_rtranclp)
  have cap: "capFor sample_policy ''sms'' = Some \<lparr>cc_channel = ''sms'', cc_windowDays = 7, cc_max = 3\<rparr>" by code_simp
  have none: "used_in ''u'' ''sms'' 0 sample_open = 0" by code_simp
  show ?thesis using contact_caps_hold [OF turns cap, of "''u''" 0] none by simp
qed

section \<open>Crash recovery and settlement\<close>

text \<open>
  C19. After a crash, reconciling asks the provider about each attempt still in flight and
  settles exactly those it knows: the two counts are the known and the unknown ones,
  every other attempt row is untouched, and the provider is not asked to act.
\<close>

theorem crash_recovery:
  assumes "reachable (v :: 'v itself) s" and "\<And>k. pa_fetchPaymentStatus ad k w = (Inr (st k), w)"
  shows "\<exists>t. Executor.reconcile ad now (s, w) =
      (Inr (length (filter (\<lambda>a. ps_found (st (at_idem a))) (in_flight_rows s)),
            length (filter (\<lambda>a. \<not> ps_found (st (at_idem a))) (in_flight_rows s))), (t, w))
    \<and> action_attempts t = map (\<lambda>a. if at_state a = in_flight \<and> ps_found (st (at_idem a))
         then a\<lparr>at_state := reconciled, at_response := Some (status_json (st (at_idem a))), at_settled := Some now\<rparr>
         else a) (action_attempts s)"
  using reconcile_eval [OF assms(2), of s now] reachable_sys_inv [OF assms(1)]
  by (auto simp: sys_inv_def exec_inv_def reconciled_row_def [abs_def])

definition sample_crash :: db where
  "sample_crash = after_io (0 :: nat) (Executor.execute sample_env
     (sample_adapter\<lparr>pa_createPaymentLink := (\<lambda>_ _ n. (Inl (Error ''timeout''), n + 1))\<rparr>)
     sample_lib sample_minter 30000 sample_now sample_call) sample_authed"

lemma sample_authed_reachable: "reachable TYPE(nat) sample_authed"
proof -
  have "reachable TYPE(nat) sample_open"
    using reachable_step [OF reachable_seeded [of "TYPE(nat)" "[''m'']" "[''u'']"]]
      case_step.open_case [of "seeded [''m''] [''u'']" 10 sample_req]
    by (simp add: sample_open_def sample_seed_def sys_step_def)
  then show ?thesis unfolding sample_authed_def
    by (rule reachable_step) (simp add: sys_step_def action_step.authorize)
qed

lemma sample_crash_reachable: "reachable TYPE(nat) sample_crash"
  unfolding sample_crash_def
  by (rule reachable_step [OF sample_authed_reachable]) (simp add: sys_step_def action_step.execute)

theorem crash_recovery_witness:
  "\<exists>t. Executor.reconcile sample_adapter 99 (sample_crash, 1) = (Inr (1, 0), (t, 1))"
proof -
  let ?st = "\<lambda>k :: string. \<lparr>ps_found = True, ps_captured = True, ps_amountPaise = None, ps_reference = None\<rparr>"
  have fetch: "pa_fetchPaymentStatus sample_adapter k 1 = (Inr (?st k), 1)" for k
    by (simp add: sample_adapter_def Let_def)
  have "length (in_flight_rows sample_crash) = 1" by code_simp
  with crash_recovery [OF sample_crash_reachable fetch, of 99] show ?thesis by auto
qed

text \<open>
  C20. A settlement is counted once: recording one raises the settled total of the obligation
  it is matched to by its amount, of no other, and only if its id is new; recording it again,
  however often and whenever, changes nothing.
\<close>

theorem settlement_counted_once:
  assumes "rc_record now x s = (Inr m, t)"
  shows "settled_total t ob = settled_total s ob +
      (if ib_id x \<notin> st_id ` set (settlements s) \<and> mr_obligationId m = Some ob then ib_amountPaise x else 0)
    \<and> rc_record now2 x t = (Inr (match_settlement x t), t)"
proof -
  have "0 < ib_amountPaise x" "ib_id x \<in> st_id ` set (settlements t)"
    using rc_record_Inr [OF assms] by (auto split: if_splits)
  then show ?thesis using rc_record_total [OF assms] rc_record_redelivered by blast
qed

theorem settlement_counted_once_witness:
  "settled_total (after (rc_record 20 sample_settlement) sample_open) ''o1'' = 500
   \<and> after (rc_record 21 sample_settlement) (after (rc_record 20 sample_settlement) sample_open)
     = after (rc_record 20 sample_settlement) sample_open"
proof -
  have m: "fst (rc_record 20 sample_settlement sample_open) =
    Inr \<lparr>mr_settlementId = ''s1'', mr_obligationId = Some ''o1'', mr_matchedBy = by_reference\<rparr>" by code_simp
  then have run: "rc_record 20 sample_settlement sample_open =
    (Inr \<lparr>mr_settlementId = ''s1'', mr_obligationId = Some ''o1'', mr_matchedBy = by_reference\<rparr>,
     after (rc_record 20 sample_settlement) sample_open)" by (simp add: after_def prod_eq_iff)
  have "settled_total sample_open ''o1'' = 0" "ib_id sample_settlement \<notin> st_id ` set (settlements sample_open)"
    "ib_amountPaise sample_settlement = 500" by code_simp+
  with settlement_counted_once [OF run, of "''o1''" 21] show ?thesis by (simp add: after_def)
qed

text \<open>
  C21. Triggers deduplicate: once a trigger for an obligation was taken, a later one for the
  same merchant and external reference, with any case id, attaches to the case that is open
  and changes nothing.
\<close>

lemma opened_live:
  assumes inv: "case_inv s" and run: "openOrAttach now req s = (Inr res, t)"
  shows "case_inv t \<and> (\<exists>o' r. obligation_by_ref t (oq_merchantId req) (oq_externalRef req) = Some o'
    \<and> r \<in> set (case_rows t) \<and> live_on (ob_id o') r \<and> cs_id r = or_caseId res)"
proof -
  have inv_t: "case_inv t" using preserves_run [OF openOrAttach_case_inv run inv] .
  from run obtain existing s2 where a: "attach_or_insert now req s = (Inr existing, s2)"
    unfolding openOrAttach_def bindM_Inr by blast
  then obtain ob s1 where up: "upsert_obligation req s = (Inr ob, s1)"
    and rest: "(case open_case_for s1 ob of Some r \<Rightarrow> retM \<lparr>or_caseId = cs_id r, or_attached = True\<rparr>
      | None \<Rightarrow> thenM (insert_case (new_case_row now req ob)) (retM \<lparr>or_caseId = oq_caseId req, or_attached = False\<rparr>)) s1
      = (Inr existing, s2)"
    unfolding attach_or_insert_def transactM_Inr bindM_Inr by (auto simp: readM_app)
  from upsert_Inr_ref [OF up] obtain o' where o': "obligation_by_ref s1 (oq_merchantId req) (oq_externalRef req) = Some o'"
    "ob_id o' = ob" by blast
  show ?thesis
  proof (cases "open_case_for s1 ob")
    case (Some r)
    with rest have "existing = \<lparr>or_caseId = cs_id r, or_attached = True\<rparr>" "s2 = s1" by (simp_all add: retM_app)
    with run a have "t = s1" "or_caseId res = cs_id r" by (auto simp: openOrAttach_def monad_simps)
    with o' open_case_for_Some [OF Some] inv_t show ?thesis by auto
  next
    case None
    with rest have new: "\<not> has_case (oq_caseId req) s1"
      by (auto simp: insert_case_def monad_simps split: if_splits)
    from openOrAttach_new [OF inv up None new, where now = now] run obtain stored rvn where
      t: "t = appended now (oq_caseId req) stored rvn (s1\<lparr>case_rows := case_rows s1 @ [new_case_row now req ob]\<rparr>)"
      and res: "or_caseId res = oq_caseId req" and rvn: "rv_terminalReason rvn = None" by auto
    let ?r = "write_revision rvn now (new_case_row now req ob\<lparr>cs_next_seq := cs_next_seq (new_case_row now req ob) + 1\<rparr>)"
    have "?r \<in> set (case_rows t)" by (simp add: t set_update_where)
    moreover have "live_on (ob_id o') ?r" using rvn o'(2) by (simp add: live_on_def write_revision_def)
    moreover have "obligation_by_ref t (oq_merchantId req) (oq_externalRef req) = Some o'"
      using o'(1) by (simp add: t obligation_by_ref_def)
    ultimately show ?thesis using inv_t res by (intro conjI exI [of _ o'] exI [of _ ?r]) simp_all
  qed
qed

theorem trigger_deduplicated:
  assumes "reachable (w :: 'w itself) s" and "openOrAttach now req s = (Inr res, t)"
    and "oq_merchantId req2 = oq_merchantId req" and "oq_externalRef req2 = oq_externalRef req"
    and "0 \<le> oq_amountPaise req2"
  shows "openOrAttach now2 req2 t = (Inr \<lparr>or_caseId = or_caseId res, or_attached = True\<rparr>, t)"
proof -
  have "case_inv s" using reachable_sys_inv [OF assms(1)] by (simp add: sys_inv_def paid_inv_def)
  from opened_live [OF this assms(2)] obtain o' r where
    "one_live t" "obligation_by_ref t (oq_merchantId req2) (oq_externalRef req2) = Some o'"
    "r \<in> set (case_rows t)" "live_on (ob_id o') r" "cs_id r = or_caseId res"
    unfolding assms(3,4) case_inv_def by blast
  with openOrAttach_attaches [of t req2 o' r now2] assms(5) show ?thesis by simp
qed

theorem trigger_deduplicated_witness:
  "openOrAttach 50 (sample_req\<lparr>oq_caseId := ''c2''\<rparr>) sample_open = (Inr \<lparr>or_caseId = ''c1'', or_attached = True\<rparr>, sample_open)"
proof -
  have "fst (openOrAttach 10 sample_req sample_seed) = Inr \<lparr>or_caseId = ''c1'', or_attached = False\<rparr>" by code_simp
  then have run: "openOrAttach 10 sample_req sample_seed = (Inr \<lparr>or_caseId = ''c1'', or_attached = False\<rparr>, sample_open)"
    by (simp add: sample_open_def after_def prod_eq_iff)
  from trigger_deduplicated [OF sample_seed_reachable run, of "sample_req\<lparr>oq_caseId := ''c2''\<rparr>" 50] show ?thesis
    by (simp add: sample_req_def)
qed

text \<open>
  C22. The estimator is total and its figures are in range. For doubles that round to nearest,
  amounts a double holds exactly, at most \<open>2 ^ 20\<close> outcomes and \<open>2 ^ 40\<close> bootstrap samples, it returns a
  result: no resampling index is ever outside its arm, the rates are in \<open>[0, 1]\<close>, the lift in
  \<open>[-1, 1]\<close>, the interval of the incremental amount is ordered, and every outcome is counted in exactly one
  of the two arms or the two exclusions.
\<close>

theorem estimate_sound:
  assumes "dyadic (fl E)" and "\<And>x. x \<in> set os \<Longrightarrow> co_amountPaise x \<le> 9007199254740991"
    and "length os \<le> 2 ^ 20" and "ec_bootstrapSamples c \<le> 2 ^ 40"
  shows "\<exists>r. estimate E os c = Inr r \<and> fst (at_incrementalCi r) \<le> snd (at_incrementalCi r)
    \<and> 0 \<le> at_treatedRate r \<and> at_treatedRate r \<le> 1 \<and> 0 \<le> at_holdoutRate r \<and> at_holdoutRate r \<le> 1
    \<and> -1 \<le> at_lift r \<and> at_lift r \<le> 1
    \<and> at_treatedN r + at_holdoutN r + at_excludedTreated r + at_excludedHoldout r = length os"
  by (rule estimate_Inr [OF assms])

definition sample_outcomes :: "CaseOutcome list" where
  "sample_outcomes =
     [\<lparr>co_caseId = ''a'', co_holdout = False, co_recovered = True, co_amountPaise = 50000,
       co_recoveredAfterMs = Some 7200000, co_merchantDunning = None\<rparr>,
      \<lparr>co_caseId = ''b'', co_holdout = True, co_recovered = False, co_amountPaise = 90000,
       co_recoveredAfterMs = None, co_merchantDunning = None\<rparr>,
      \<lparr>co_caseId = ''c'', co_holdout = False, co_recovered = True, co_amountPaise = 70000,
       co_recoveredAfterMs = Some 1000, co_merchantDunning = None\<rparr>]"

theorem estimate_sound_witness:
  "\<exists>r. estimate sample_env sample_outcomes DEFAULT_ESTIMATOR_CONFIG = Inr r
    \<and> fst (at_incrementalCi r) \<le> snd (at_incrementalCi r)"
proof -
  have "dyadic (fl sample_env)" using dyadic_id by (simp add: sample_env_def env0_def)
  moreover have "co_amountPaise x \<le> 9007199254740991" if "x \<in> set sample_outcomes" for x
    using that by (auto simp: sample_outcomes_def)
  moreover have "length sample_outcomes \<le> 2 ^ 20" by (simp add: sample_outcomes_def)
  moreover have "ec_bootstrapSamples DEFAULT_ESTIMATOR_CONFIG \<le> 2 ^ 40" by (simp add: DEFAULT_ESTIMATOR_CONFIG_def)
  ultimately show ?thesis using estimate_sound [of sample_env sample_outcomes DEFAULT_ESTIMATOR_CONFIG] by blast
qed

text \<open>
  C23. An excluded outcome has no influence: leaving the outcomes of the merchant's own dunning
  and the early natural recoveries out of the input of either arm changes nothing of the result but
  the two counts of exclusions, not even the bootstrap.
\<close>

theorem excluded_outcomes_ignored:
  "estimate E (filter (\<lambda>x. \<not> isExcluded c x) os) c =
     map_sum id (\<lambda>r. r\<lparr>at_excludedTreated := 0, at_excludedHoldout := 0\<rparr>) (estimate E os c)"
  by (rule estimate_eligible)

end
