(* ===== verification/Messages.thy ===== *)
theory Messages
  imports Json_Text
begin

text \<open>
  The messages of the error classes of the packages (\<open>(err as Error).message\<close>), and
  \<open>JSON.stringify\<close> of a value without a property list. The ellipsis and the arrow in two of the
  messages are written in ASCII, and the message of an error of the data base is its constraint.
\<close>

fun state_str :: "CaseState \<Rightarrow> string" where
  "state_str DETECTED = ''DETECTED''"
| "state_str DIAGNOSING = ''DIAGNOSING''"
| "state_str PLANNING = ''PLANNING''"
| "state_str AWAITING_APPROVAL = ''AWAITING_APPROVAL''"
| "state_str EXECUTING = ''EXECUTING''"
| "state_str OBSERVING = ''OBSERVING''"
| "state_str SCHEDULED = ''SCHEDULED''"
| "state_str SUPPRESSED_BY_INCIDENT = ''SUPPRESSED_BY_INCIDENT''"
| "state_str RECOVERED = ''RECOVERED''"
| "state_str UNRECOVERABLE = ''UNRECOVERABLE''"
| "state_str CANCELLED = ''CANCELLED''"
| "state_str DISPUTED = ''DISPUTED''"
| "state_str OPTED_OUT = ''OPTED_OUT''"
| "state_str STOPPED_HUMAN = ''STOPPED_HUMAN''"

fun rejection_str :: "TokenRejection \<Rightarrow> string" where
  "rejection_str bad_signature = ''bad_signature''"
| "rejection_str expired = ''expired''"
| "rejection_str action_mismatch = ''action_mismatch''"
| "rejection_str params_mismatch = ''params_mismatch''"
| "rejection_str amount_exceeds_cap = ''amount_exceeds_cap''"

definition dquoted :: "string \<Rightarrow> string" where
  "dquoted s = [CHR 0x22] @ s @ [CHR 0x22]"

fun err_message :: "err \<Rightarrow> string" where
  "err_message (IllegalTransitionError frm to cause) =
     ''illegal case transition '' @ state_str frm @ '' -> '' @ state_str to @ '' (caused by '' @ cause @ '')''"
| "err_message (CaseEventOrderError expect got) =
     ''case events must apply in order: expected seq '' @ int_str expect @ '', got '' @ int_str got"
| "err_message (ForbiddenActionError i reason) =
     ''action '' @ dquoted i @ '' is forbidden by the library: '' @ js_trim reason"
| "err_message (UnknownActionError i) = ''action '' @ dquoted i @ '' is not in the action library''"
| "err_message (TokenRejectedError r detail) =
     ''capability token rejected: '' @ rejection_str r @ (if detail = [] then [] else '' ('' @ detail @ '')'')"
| "err_message (TokenReplayError nonce) = ''capability token '' @ take 8 nonce @ ''... has already been burned''"
| "err_message (DuplicateAttemptError k) = ''attempt '' @ take 12 k @ ''... already exists; refusing to repeat it''"
| "err_message (ScheduleActionNotExecutableError i) =
     i @ '' is a schedule action: it writes a scheduled_actions row, not a connector call''"
| "err_message (UnsupportedCapabilityError adapter capability) = adapter @ '' does not support '' @ capability"
| "err_message (LeaseUnavailableError ob holder) = ''obligation '' @ ob @ '' is leased by '' @ holder"
| "err_message UnverifiedWebhookError = ''webhook signature did not verify; refusing to process''"
| "err_message (ProviderUnavailableError provider cause) = provider @ '' unavailable: '' @ cause"
| "err_message (SchemaValidationError schemaName detail) =
     ''response failed '' @ schemaName @ '' validation: '' @ detail"
| "err_message (RangeError m) = m"
| "err_message (Error m) = m"
| "err_message (UniqueViolation k) = k"
| "err_message (ForeignKeyViolation k) = k"
| "err_message (CheckViolation k) = k"

text \<open>\<open>JSON.stringify(v)\<close>.\<close>

fun json_text :: "env \<Rightarrow> json \<Rightarrow> string" where
  "json_text E JNull = ''null''"
| "json_text E (JBool b) = (if b then ''true'' else ''false'')"
| "json_text E (JNum q) = num_str E q"
| "json_text E (JStr s) = json_quote s"
| "json_text E (JArr xs) = ''['' @ join '','' (map (json_text E) xs) @ '']''"
| "json_text E (JObj fs) = ''{'' @ join '','' (map (\<lambda>(k, v). json_quote k @ '':'' @ json_text E v) fs) @ ''}''"

text \<open>The property \<open>k\<close> of an object literal that is left out when the value is undefined.\<close>

definition jprop :: "string \<Rightarrow> json option \<Rightarrow> params" where
  "jprop k v = (case v of None \<Rightarrow> [] | Some x \<Rightarrow> [(k, x)])"

abbreviation JStrs :: "string list \<Rightarrow> json" where
  "JStrs xs \<equiv> JArr (map JStr xs)"

end
