(* ===== verification/Providers.thy ===== *)
theory Providers
  imports Messages Roles Razorpay
begin

text \<open>
  The model providers of \<open>packages/agents/src\<close>: the seam of \<open>provider.ts\<close>, the schemas of
  \<open>claims.ts\<close>, the two implementations over HTTP, the cache in front of them and the choice
  between them. The network is a parameter on the outside world's state; the clock reads it.
  The type parameter of \<open>complete<T>\<close> is the parameter \<open>'v\<close> of a response.
\<close>

section \<open>The provider seam\<close>

datatype Effort = effort_none | effort_low | effort_medium | effort_high

datatype PromptRole = specialist_role RoleId | deliberation_reducer

fun prompt_role_str :: "PromptRole \<Rightarrow> string" where
  "prompt_role_str (specialist_role r) = role_str r"
| "prompt_role_str deliberation_reducer = ''deliberation_reducer''"

fun effort_str :: "Effort \<Rightarrow> string" where
  "effort_str effort_none = ''none''"
| "effort_str effort_low = ''low''"
| "effort_str effort_medium = ''medium''"
| "effort_str effort_high = ''high''"

record ProviderRequest =
  pq_role :: PromptRole
  pq_instructions :: string
  pq_input :: string
  pq_schema :: json
  pq_schemaName :: string
  pq_schemaVersion :: string
  pq_model :: string
  pq_effort :: Effort
  pq_cacheKey :: string
  pq_timeoutMs :: int

record ProviderUsage =
  pu_inputTokens :: json
  pu_outputTokens :: json
  pu_cachedInputTokens :: json

record 'v ProviderResponse =
  pr_value :: 'v
  pr_provider :: string
  pr_model :: string
  pr_responseId :: json
  pr_latencyMs :: int
  pr_usage :: ProviderUsage
  pr_validated :: bool

record ('w, 'v) LLMProvider =
  lp_name :: string
  lp_complete :: "ProviderRequest \<Rightarrow> ('w, 'v ProviderResponse) psp"

section \<open>Schemas\<close>

definition schema_object :: "string list \<Rightarrow> params \<Rightarrow> json" where
  "schema_object required properties =
     JObj [(''type'', JStr ''object''), (''additionalProperties'', JBool False),
           (''required'', JStrs required), (''properties'', JObj properties)]"

definition schema_type :: "string \<Rightarrow> json" where
  "schema_type t = JObj [(''type'', JStr t)]"

definition schema_nullable :: json where
  "schema_nullable = JObj [(''type'', JStrs [''string'', ''null''])]"

definition schema_enum :: "string list \<Rightarrow> json" where
  "schema_enum xs = JObj [(''type'', JStr ''string''), (''enum'', JStrs xs)]"

definition schema_num :: "rat \<Rightarrow> rat \<Rightarrow> json" where
  "schema_num lo hi = JObj [(''type'', JStr ''number''), (''minimum'', JNum lo), (''maximum'', JNum hi)]"

definition INTENTS :: "string list" where
  "INTENTS = [''will_pay'', ''will_update'', ''dispute'', ''opt_out'', ''missing_po'', ''unknown'']"

definition LANGUAGES :: "string list" where
  "LANGUAGES = [''en'', ''hi'', ''hinglish'']"

definition DIAGNOSIS_SCHEMA :: json where
  "DIAGNOSIS_SCHEMA = schema_object
     [''primaryCause'', ''confidence'', ''alternatives'', ''ruleId'', ''evidenceRefs'']
     [(''primaryCause'', schema_type ''string''), (''confidence'', schema_num 0 1),
      (''alternatives'', JObj [(''type'', JStr ''array''), (''items'', schema_object [''cause'', ''confidence'']
         [(''cause'', schema_type ''string''), (''confidence'', schema_num 0 1)])]),
      (''ruleId'', schema_nullable),
      (''evidenceRefs'', JObj [(''type'', JStr ''array''), (''items'', schema_type ''string''), (''minItems'', JInt 1)])]"

definition CONTEXT_SCHEMA :: json where
  "CONTEXT_SCHEMA = schema_object [''intent'', ''optedOut'', ''language'', ''priorContacts'']
     [(''intent'', schema_enum INTENTS), (''optedOut'', schema_type ''boolean''),
      (''language'', schema_enum LANGUAGES),
      (''priorContacts'', JObj [(''type'', JStr ''integer''), (''minimum'', JInt 0)])]"

definition INCIDENT_SCHEMA :: json where
  "INCIDENT_SCHEMA = schema_object [''attach'', ''incidentId'', ''suppress'', ''rationale'']
     [(''attach'', schema_type ''boolean''), (''incidentId'', schema_nullable), (''suppress'', schema_type ''boolean''),
      (''rationale'', JObj [(''type'', JStr ''string''), (''maxLength'', JInt 600)])]"

definition COMMUNICATION_SCHEMA :: json where
  "COMMUNICATION_SCHEMA = schema_object [''templateId'', ''language'', ''slots'']
     [(''templateId'', schema_type ''string''), (''language'', schema_enum LANGUAGES),
      (''slots'', JObj [(''type'', JStr ''object''), (''additionalProperties'', schema_type ''string'')])]"

definition STRATEGY_SCHEMA :: json where
  "STRATEGY_SCHEMA = schema_object [''selectedCause'', ''confidence'', ''rationale'', ''rejected'']
     [(''selectedCause'', schema_type ''string''), (''confidence'', schema_num 0 1),
      (''rationale'', JObj [(''type'', JStr ''string''), (''maxLength'', JInt 800)]),
      (''rejected'', JObj [(''type'', JStr ''array''), (''items'', schema_object [''cause'', ''why'']
         [(''cause'', schema_type ''string''), (''why'', schema_type ''string'')])])]"

definition SCHEMA_VERSION :: string where
  "SCHEMA_VERSION = ''1''"

section \<open>The implementations\<close>

text \<open>
  The transport takes the timeout and the request; a network error or the timeout is an error
  of it. \<open>res.json().catch(() => ({}))\<close>: a body that is not an object reads as empty.
\<close>

type_synonym 'w llm_http = "int \<Rightarrow> HttpRequest \<Rightarrow> ('w, HttpResponse) psp"

definition chat_body :: "ProviderRequest \<Rightarrow> json" where
  "chat_body req = JObj
     [(''model'', JStr (pq_model req)),
      (''messages'', JArr [JObj [(''role'', JStr ''system''), (''content'', JStr (pq_instructions req))],
                           JObj [(''role'', JStr ''user''), (''content'', JStr (pq_input req))]]),
      (''response_format'', JObj [(''type'', JStr ''json_schema''),
         (''json_schema'', JObj [(''name'', JStr (pq_schemaName req)), (''strict'', JBool True), (''schema'', pq_schema req)])]),
      (''temperature'', JInt 0)]"

definition chat_headers :: "string \<Rightarrow> (string \<times> string) list" where
  "chat_headers key =
     [(''Authorization'', ''Bearer '' @ key), (''Content-Type'', ''application/json''),
      (''HTTP-Referer'', ''https://github.com/revenue-recovery-agent''),
      (''X-Title'', ''Revenue Recovery Agent'')]"

text \<open>\<open>body.choices?.[0]?.message?.content\<close>, and its use as a text that must not be empty.\<close>

definition chat_content :: "params \<Rightarrow> json option" where
  "chat_content body =
     (case map_of body ''choices'' of
        Some (JArr (c # cs)) \<Rightarrow> prop_of (prop_of (Some c) ''message'') ''content''
      | _ \<Rightarrow> None)"

definition required_text :: "string \<Rightarrow> json option \<Rightarrow> err + string" where
  "required_text schemaName raw =
     (case raw of Some (JStr t) \<Rightarrow> if t = [] then Inl (SchemaValidationError schemaName ''empty response'') else Inr t
      | _ \<Rightarrow> Inl (SchemaValidationError schemaName ''empty response''))"

definition parsed_value :: "env \<Rightarrow> string \<Rightarrow> string \<Rightarrow> err + json" where
  "parsed_value E schemaName t =
     (case parse_json E t of None \<Rightarrow> Inl (SchemaValidationError schemaName ''response was not valid JSON'')
      | Some v \<Rightarrow> Inr v)"

definition or_zero :: "json option \<Rightarrow> json" where
  "or_zero v = (case nullish v (Some (JInt 0)) of Some x \<Rightarrow> x | None \<Rightarrow> JInt 0)"

definition id_or_unknown :: "params \<Rightarrow> json" where
  "id_or_unknown body = (case nullish (map_of body ''id'') (Some (JStr ''unknown'')) of Some x \<Rightarrow> x | None \<Rightarrow> JNull)"

definition unavailable :: "string \<Rightarrow> ('w, 'a) psp \<Rightarrow> ('w, 'a) psp" where
  "unavailable name call = catchM call (\<lambda>err. throwM (ProviderUnavailableError name (err_message err)))"

definition openrouter_complete ::
  "env \<Rightarrow> string \<Rightarrow> string \<Rightarrow> ('w \<Rightarrow> int) \<Rightarrow> 'w llm_http \<Rightarrow> ProviderRequest \<Rightarrow> ('w, json ProviderResponse) psp" where
  "openrouter_complete E key baseUrl clock http req =
     bindM (readM clock) (\<lambda>started.
     bindM (unavailable ''openrouter'' (http (pq_timeoutMs req)
        \<lparr>hq_url = baseUrl @ ''/chat/completions'', hq_method = ''POST'', hq_headers = chat_headers key,
         hq_body = Some (chat_body req)\<rparr>)) (\<lambda>res.
     let body = (case hs_json res of Inr b \<Rightarrow> b | Inl _ \<Rightarrow> []) in
     if \<not> hs_ok res
     then throwM (ProviderUnavailableError ''openrouter'' (int_str (hs_status res) @ '': '' @
            (case nullish (prop_of (map_of body ''error'') ''message'') None of
               Some m \<Rightarrow> js_String E m | None \<Rightarrow> ''HTTP '' @ int_str (hs_status res))))
     else bindM (liftE (required_text (pq_schemaName req) (chat_content body))) (\<lambda>raw.
          bindM (liftE (parsed_value E (pq_schemaName req) raw)) (\<lambda>value.
          bindM (readM clock) (\<lambda>ended.
          let usage = map_of body ''usage'' in
          retM \<lparr>pr_value = value, pr_provider = ''openrouter'', pr_model = pq_model req,
                pr_responseId = id_or_unknown body, pr_latencyMs = ended - started,
                pr_usage = \<lparr>pu_inputTokens = or_zero (prop_of usage ''prompt_tokens''),
                            pu_outputTokens = or_zero (prop_of usage ''completion_tokens''),
                            pu_cachedInputTokens = JInt 0\<rparr>,
                pr_validated = True\<rparr>)))))"

definition models_of :: "params \<Rightarrow> string list" where
  "models_of body = (case map_of body ''data'' of
     Some (JArr ms) \<Rightarrow> List.map_filter (\<lambda>m. case prop_of (Some m) ''id'' of
        Some (JStr i) \<Rightarrow> if i = [] then None else Some i | _ \<Rightarrow> None) ms
   | _ \<Rightarrow> [])"

definition listModels :: "string \<Rightarrow> string \<Rightarrow> 'w http \<Rightarrow> ('w, string list) psp" where
  "listModels key baseUrl http =
     bindM (http \<lparr>hq_url = baseUrl @ ''/models'', hq_method = ''GET'', hq_headers = chat_headers key, hq_body = None\<rparr>) (\<lambda>res.
       if \<not> hs_ok res then retM []
       else bindM (liftE (hs_json res)) (\<lambda>body. retM (models_of body)))"

text \<open>The client of the OpenAI package takes the timeout and the parameters of the request.\<close>

definition responses_params :: "ProviderRequest \<Rightarrow> params" where
  "responses_params req =
     [(''model'', JStr (pq_model req)), (''instructions'', JStr (pq_instructions req)), (''input'', JStr (pq_input req)),
      (''text'', JObj [(''format'', JObj [(''type'', JStr ''json_schema''), (''name'', JStr (pq_schemaName req)),
                                          (''schema'', pq_schema req), (''strict'', JBool True)])])]
     @ (if pq_effort req = effort_none then []
        else [(''reasoning'', JObj [(''effort'', JStr (effort_str (pq_effort req)))])])
     @ [(''prompt_cache_key'', JStr (pq_cacheKey req))]"

definition openai_complete ::
  "env \<Rightarrow> ('w \<Rightarrow> int) \<Rightarrow> (int \<Rightarrow> params \<Rightarrow> ('w, params) psp) \<Rightarrow> ProviderRequest \<Rightarrow> ('w, json ProviderResponse) psp" where
  "openai_complete E clock client req =
     bindM (readM clock) (\<lambda>started.
     bindM (unavailable ''openai'' (client (pq_timeoutMs req) (responses_params req))) (\<lambda>res.
     bindM (liftE (required_text (pq_schemaName req) (map_of res ''output_text''))) (\<lambda>raw.
     bindM (liftE (parsed_value E (pq_schemaName req) raw)) (\<lambda>value.
     bindM (readM clock) (\<lambda>ended.
     let usage = map_of res ''usage'' in
     retM \<lparr>pr_value = value, pr_provider = ''openai'', pr_model = pq_model req,
           pr_responseId = id_or_unknown res, pr_latencyMs = ended - started,
           pr_usage = \<lparr>pu_inputTokens = or_zero (prop_of usage ''input_tokens''),
                       pu_outputTokens = or_zero (prop_of usage ''output_tokens''),
                       pu_cachedInputTokens = or_zero (prop_of (prop_of usage ''input_tokens_details'') ''cached_tokens'')\<rparr>,
           pr_validated = True\<rparr>)))))"

end
