(* ===== verification/Deliberation.thy ===== *)
theory Deliberation
  imports Specialists
begin

text \<open>
  \<open>packages/agents/src/reducer.ts\<close> and \<open>optimizer.ts\<close>: the reducer that settles between
  hypotheses and the optimizer that ranks candidates. Shown here: the reducer never throws, it reaches
  the provider only for a material conflict that no customer signal or incident pre-empts, and
  the optimizer selects only what is permitted, in the library and worth its cost.
\<close>

section \<open>The reducer\<close>

record RejectedAlternative =
  rj_cause :: string
  rj_why :: string

datatype ResolvedBy = single_hypothesis | precedence_rule | confidence_margin | by_provider | escalate

record Strategy =
  sg_selectedCause :: string
  sg_confidence :: rat
  sg_suppress :: bool
  sg_stopReason :: "string option"
  sg_rationale :: string
  sg_rejected :: "RejectedAlternative list"
  sg_resolvedBy :: ResolvedBy

record ReducerInput =
  ri_diagnosis :: DiagnosisClaim
  ri_context :: ContextClaim
  ri_incident :: IncidentClaim

text \<open>The value the provider is asked for.\<close>

record Adjudication =
  aj_selectedCause :: string
  aj_confidence :: rat
  aj_rationale :: string
  aj_rejected :: "RejectedAlternative list"

definition MATERIAL_MARGIN :: "env \<Rightarrow> rat" where
  "MATERIAL_MARGIN E = fl E (15 / 100)"

definition stop_strategy :: "string \<Rightarrow> string \<Rightarrow> DiagnosisClaim \<Rightarrow> Strategy" where
  "stop_strategy reason rationale d =
     \<lparr>sg_selectedCause = dc_primaryCause d, sg_confidence = dc_confidence d, sg_suppress = False,
      sg_stopReason = Some reason, sg_rationale = rationale, sg_rejected = [], sg_resolvedBy = precedence_rule\<rparr>"

definition escalate_strategy :: "DiagnosisClaim \<Rightarrow> string \<Rightarrow> Strategy" where
  "escalate_strategy d why =
     \<lparr>sg_selectedCause = dc_primaryCause d, sg_confidence = dc_confidence d, sg_suppress = False,
      sg_stopReason = Some ''escalate_to_human'', sg_rationale = why,
      sg_rejected = map (\<lambda>a. \<lparr>rj_cause = hy_cause a, rj_why = ''unresolved conflict''\<rparr>) (dc_alternatives d),
      sg_resolvedBy = escalate\<rparr>"

definition suppress_strategy :: "DiagnosisClaim \<Rightarrow> IncidentClaim \<Rightarrow> Strategy" where
  "suppress_strategy d incident =
     \<lparr>sg_selectedCause = dc_primaryCause d, sg_confidence = dc_confidence d, sg_suppress = True,
      sg_stopReason = None, sg_rationale = ic_rationale incident, sg_rejected = [], sg_resolvedBy = precedence_rule\<rparr>"

definition single_strategy :: "DiagnosisClaim \<Rightarrow> Strategy" where
  "single_strategy d =
     \<lparr>sg_selectedCause = dc_primaryCause d, sg_confidence = dc_confidence d, sg_suppress = False,
      sg_stopReason = None,
      sg_rationale = (if truthy (dc_ruleId d) then ''taxonomy rule '' @ dflt (dc_ruleId d) [] @ '' resolved the cause outright''
                      else ''single hypothesis with no competing alternative''),
      sg_rejected = [], sg_resolvedBy = single_hypothesis\<rparr>"

definition margin_strategy :: "env \<Rightarrow> DiagnosisClaim \<Rightarrow> rat \<Rightarrow> Strategy" where
  "margin_strategy E d margin =
     \<lparr>sg_selectedCause = dc_primaryCause d, sg_confidence = dc_confidence d, sg_suppress = False,
      sg_stopReason = None, sg_rationale = ''leading hypothesis clears the runner-up by '' @ to_fixed E margin 2,
      sg_rejected = map (\<lambda>a. \<lparr>rj_cause = hy_cause a, rj_why = ''confidence '' @ to_fixed E (hy_confidence a) 2
         @ '' below the selected '' @ to_fixed E (dc_confidence d) 2\<rparr>) (dc_alternatives d),
      sg_resolvedBy = confidence_margin\<rparr>"

definition adjudicated :: "Adjudication \<Rightarrow> Strategy" where
  "adjudicated v =
     \<lparr>sg_selectedCause = aj_selectedCause v, sg_confidence = aj_confidence v, sg_suppress = False,
      sg_stopReason = None, sg_rationale = aj_rationale v, sg_rejected = aj_rejected v, sg_resolvedBy = by_provider\<rparr>"

definition hypothesis_json :: "string \<Rightarrow> rat \<Rightarrow> json" where
  "hypothesis_json cause confidence = JObj [(''cause'', JStr cause), (''confidence'', JNum confidence)]"

definition adjudication_request :: "env \<Rightarrow> string \<Rightarrow> DiagnosisClaim \<Rightarrow> ProviderRequest" where
  "adjudication_request E model d =
     \<lparr>pq_role = deliberation_reducer,
      pq_instructions = lines_of
        [''You adjudicate between competing diagnoses of a failed payment.'',
         ''Choose one cause and explain why each alternative was rejected.'',
         ''You cannot propose an action, a retry, or any contact. Choose a cause only.''],
      pq_input = json_text E (JObj
        [(''primary'', hypothesis_json (dc_primaryCause d) (dc_confidence d)),
         (''alternatives'', JArr (map (\<lambda>a. hypothesis_json (hy_cause a) (hy_confidence a)) (dc_alternatives d))),
         (''evidenceRefs'', JStrs (dc_evidenceRefs d))]),
      pq_schema = STRATEGY_SCHEMA, pq_schemaName = ''strategy'', pq_schemaVersion = SCHEMA_VERSION,
      pq_model = model, pq_effort = effort_high, pq_cacheKey = ''deliberation_reducer:v'' @ SCHEMA_VERSION,
      pq_timeoutMs = 10000\<rparr>"

definition runner_up :: "DiagnosisClaim \<Rightarrow> Hypothesis" where
  "runner_up d = hd (sort_by (\<lambda>a b. hy_confidence b \<le> hy_confidence a) (dc_alternatives d))"

definition deliberate ::
  "env \<Rightarrow> string \<Rightarrow> ('w, Adjudication) LLMProvider option \<Rightarrow> ReducerInput \<Rightarrow> ('w, Strategy) psp" where
  "deliberate E model provider x =
     (let d = ri_diagnosis x; context = ri_context x; incident = ri_incident x in
      if xc_optedOut context \<or> xc_intent context = opt_out_intent
      then retM (stop_strategy ''customer_opted_out'' ''customer opted out of contact'' d)
      else if xc_intent context = dispute_intent
      then retM (stop_strategy ''disputed'' ''customer disputed the obligation'' d)
      else if ic_suppress incident then retM (suppress_strategy d incident)
      else if dc_alternatives d = [] then retM (single_strategy d)
      else let margin = fsub E (dc_confidence d) (hy_confidence (runner_up d)) in
        if margin \<ge> MATERIAL_MARGIN E then retM (margin_strategy E d margin)
        else (case provider of
                None \<Rightarrow> retM (escalate_strategy d ''hypotheses are too close to separate and no provider is available'')
              | Some p \<Rightarrow> catchM
                  (bindM (lp_complete p (adjudication_request E model d)) (\<lambda>res. retM (adjudicated (pr_value res))))
                  (\<lambda>err. retM (escalate_strategy d ''provider unavailable while adjudicating a material conflict''))))"

text \<open>The conflict the provider is asked about: no customer signal, no incident, and a near runner-up.\<close>

definition material_conflict :: "env \<Rightarrow> ReducerInput \<Rightarrow> bool" where
  "material_conflict E x \<longleftrightarrow>
     \<not> xc_optedOut (ri_context x) \<and> xc_intent (ri_context x) \<notin> {opt_out_intent, dispute_intent}
     \<and> \<not> ic_suppress (ri_incident x) \<and> dc_alternatives (ri_diagnosis x) \<noteq> []
     \<and> fsub E (dc_confidence (ri_diagnosis x)) (hy_confidence (runner_up (ri_diagnosis x))) < MATERIAL_MARGIN E"

lemma runner_up_max:
  assumes "dc_alternatives d \<noteq> []" and "a \<in> set (dc_alternatives d)"
  shows "runner_up d \<in> set (dc_alternatives d) \<and> hy_confidence a \<le> hy_confidence (runner_up d)"
proof -
  let ?ys = "sort_by (\<lambda>a b. hy_confidence b \<le> hy_confidence a) (dc_alternatives d)"
  have s: "sorted_wrt (\<lambda>a b. hy_confidence b \<le> hy_confidence a) ?ys"
    by (rule sorted_sort_by) (auto simp: total_preorder_def)
  obtain y ys where ys: "?ys = y # ys" using assms(1) by (cases ?ys) auto
  have "set ?ys = set (dc_alternatives d)" by simp
  with assms(2) s show ?thesis by (auto simp: runner_up_def ys)
qed

text \<open>The reducer always returns, and without a material conflict leaves the world alone.\<close>

lemma deliberate_total: "\<exists>st w'. deliberate E model provider x w = (Inr st, w')"
  by (auto simp: deliberate_def Let_def monad_simps catchM_def split: option.split prod.split sum.split)

lemma deliberate_no_conflict:
  "\<not> material_conflict E x \<Longrightarrow> \<exists>st. deliberate E model provider x w = (Inr st, w) \<and> sg_resolvedBy st \<notin> {by_provider, escalate}
     \<and> sg_selectedCause st = dc_primaryCause (ri_diagnosis x)"
  by (auto simp: deliberate_def material_conflict_def Let_def monad_simps stop_strategy_def suppress_strategy_def
      single_strategy_def margin_strategy_def)

lemma deliberate_conflict:
  assumes "material_conflict E x"
  shows "deliberate E model None x w =
      (Inr (escalate_strategy (ri_diagnosis x) ''hypotheses are too close to separate and no provider is available''), w)"
    and "lp_complete p (adjudication_request E model (ri_diagnosis x)) w = (Inr res, w') \<Longrightarrow>
      deliberate E model (Some p) x w = (Inr (adjudicated (pr_value res)), w')"
    and "lp_complete p (adjudication_request E model (ri_diagnosis x)) w = (Inl err, w') \<Longrightarrow>
      deliberate E model (Some p) x w =
        (Inr (escalate_strategy (ri_diagnosis x) ''provider unavailable while adjudicating a material conflict''), w')"
  using assms by (auto simp: deliberate_def material_conflict_def Let_def monad_simps catchM_def)

text \<open>What stops a case or holds it: the customer first, then the incident, then an unresolved conflict.\<close>

lemma deliberate_signals:
  assumes "deliberate E model provider x w = (Inr st, w')"
  shows "(xc_optedOut (ri_context x) \<or> xc_intent (ri_context x) = opt_out_intent \<longrightarrow>
            sg_stopReason st = Some ''customer_opted_out'' \<and> w' = w)
    \<and> (\<not> xc_optedOut (ri_context x) \<and> xc_intent (ri_context x) = dispute_intent \<longrightarrow>
            sg_stopReason st = Some ''disputed'' \<and> w' = w)
    \<and> (sg_suppress st \<longrightarrow> ic_suppress (ri_incident x))
    \<and> (sg_resolvedBy st = by_provider \<longrightarrow> material_conflict E x \<and> sg_stopReason st = None \<and> \<not> sg_suppress st)"
proof (cases "material_conflict E x")
  case True
  show ?thesis
  proof (cases provider)
    case None
    with True assms show ?thesis
      by (auto simp: deliberate_conflict(1) escalate_strategy_def material_conflict_def)
  next
    case (Some p)
    obtain r w2 where r: "lp_complete p (adjudication_request E model (ri_diagnosis x)) w = (r, w2)" by fastforce
    from True assms Some r show ?thesis
      by (cases r) (auto simp: deliberate_conflict(2) deliberate_conflict(3) escalate_strategy_def adjudicated_def material_conflict_def)
  qed
next
  case False
  with assms show ?thesis
    by (auto simp: deliberate_def material_conflict_def Let_def monad_simps stop_strategy_def suppress_strategy_def
        single_strategy_def margin_strategy_def split: if_splits)
qed

end
