(* ===== verification/Optimizer.thy ===== *)
theory Optimizer
  imports Specialists
begin

text \<open>
  \<open>packages/agents/src/optimizer.ts\<close>: the constrained optimizer. It ranks the candidates of the
  economics claim; shown here: every candidate ends up ranked or rejected, and the selected one is permitted,
  in the library, of positive score and of the highest score.
\<close>

record ScoredAction =
  sc_candidate :: EconomicsCandidate
  sc_modelCostPaise :: int
  sc_riskPenaltyPaise :: int
  sc_score :: int
  sc_rank :: nat

record OptimizerRejection =
  or_actionId :: string
  or_why :: string

record OptimizerResult =
  os_selected :: "ScoredAction option"
  os_ranked :: "ScoredAction list"
  os_rejected :: "OptimizerRejection list"

record OptimizerConstraints =
  oc_permitted :: "string list"
  oc_priorContacts :: int
  oc_modelSpendPaise :: int

definition scored_of :: "int \<Rightarrow> OptimizerConstraints \<Rightarrow> EconomicsCandidate \<Rightarrow> ActionDef \<Rightarrow> ScoredAction" where
  "scored_of fatigue c cand action =
     (let riskPenaltyPaise = (if ad_consumesContactBudget action then oc_priorContacts c * fatigue else 0)
      in \<lparr>sc_candidate = cand, sc_modelCostPaise = oc_modelSpendPaise c, sc_riskPenaltyPaise = riskPenaltyPaise,
          sc_score = en_expectedValuePaise cand - oc_modelSpendPaise c - riskPenaltyPaise, sc_rank = 0\<rparr>)"

text \<open>One round of the loop: the candidate is rejected with a reason or scored.\<close>

definition consider_candidate :: "ActionLibrary \<Rightarrow> int \<Rightarrow> OptimizerConstraints \<Rightarrow> EconomicsCandidate \<Rightarrow> OptimizerRejection + ScoredAction" where
  "consider_candidate lib fatigue c cand =
     (if en_actionId cand \<notin> set (oc_permitted c)
      then Inl \<lparr>or_actionId = en_actionId cand, or_why = ''not permitted by policy for this case''\<rparr>
      else (case lib_get lib (en_actionId cand) of
              Inl err \<Rightarrow> Inl \<lparr>or_actionId = en_actionId cand, or_why = err_message err\<rparr>
            | Inr action \<Rightarrow> Inr (scored_of fatigue c cand action)))"

fun score_loop :: "ActionLibrary \<Rightarrow> int \<Rightarrow> OptimizerConstraints \<Rightarrow> EconomicsCandidate list
    \<Rightarrow> OptimizerRejection list \<times> ScoredAction list \<Rightarrow> OptimizerRejection list \<times> ScoredAction list" where
  "score_loop lib fatigue c [] acc = acc"
| "score_loop lib fatigue c (cand # cs) (rejected, scored) =
     score_loop lib fatigue c cs (case consider_candidate lib fatigue c cand of
        Inl r \<Rightarrow> (rejected @ [r], scored) | Inr s \<Rightarrow> (rejected, scored @ [s]))"

definition score_le :: "env \<Rightarrow> ScoredAction \<Rightarrow> ScoredAction \<Rightarrow> bool" where
  "score_le E a b \<longleftrightarrow> sc_score b < sc_score a
     \<or> (sc_score a = sc_score b \<and> locale_le E (en_actionId (sc_candidate a)) (en_actionId (sc_candidate b)))"

text \<open>\<open>scored.forEach((s, i) => (s.rank = i + 1))\<close>.\<close>

definition with_ranks :: "ScoredAction list \<Rightarrow> ScoredAction list" where
  "with_ranks ss = map2 (\<lambda>i s. s\<lparr>sc_rank := i + 1\<rparr>) [0..<length ss] ss"

definition optimizer_rank :: "env \<Rightarrow> ActionLibrary \<Rightarrow> int \<Rightarrow> EconomicsCandidate list \<Rightarrow> OptimizerConstraints \<Rightarrow> OptimizerResult" where
  "optimizer_rank E lib contactFatiguePaise candidates c =
     (let (rejected, scored) = score_loop lib contactFatiguePaise c candidates ([], []);
          ranked = with_ranks (sort_by (score_le E) scored);
          positive = filter (\<lambda>s. sc_score s > 0) ranked;
          unprofitable = map (\<lambda>s. \<lparr>or_actionId = en_actionId (sc_candidate s),
             or_why = ''expected value '' @ int_str (sc_score s) @ '' is not positive''\<rparr>) (filter (\<lambda>s. sc_score s \<le> 0) ranked)
      in \<lparr>os_selected = (case positive of [] \<Rightarrow> None | s # _ \<Rightarrow> Some s), os_ranked = ranked,
          os_rejected = rejected @ unprofitable\<rparr>)"

definition CONTACT_FATIGUE :: int where
  "CONTACT_FATIGUE = 1500"

section \<open>The loop\<close>

definition scores :: "ActionLibrary \<Rightarrow> int \<Rightarrow> OptimizerConstraints \<Rightarrow> EconomicsCandidate list \<Rightarrow> ScoredAction list" where
  "scores lib f c cs = List.map_filter (\<lambda>x. case consider_candidate lib f c x of Inl _ \<Rightarrow> None | Inr s \<Rightarrow> Some s) cs"

definition refusals :: "ActionLibrary \<Rightarrow> int \<Rightarrow> OptimizerConstraints \<Rightarrow> EconomicsCandidate list \<Rightarrow> OptimizerRejection list" where
  "refusals lib f c cs = List.map_filter (\<lambda>x. case consider_candidate lib f c x of Inl r \<Rightarrow> Some r | Inr _ \<Rightarrow> None) cs"

lemma scores_Cons:
  "scores lib f c (x # cs) = (case consider_candidate lib f c x of Inl _ \<Rightarrow> [] | Inr s \<Rightarrow> [s]) @ scores lib f c cs"
  "refusals lib f c (x # cs) = (case consider_candidate lib f c x of Inl r \<Rightarrow> [r] | Inr _ \<Rightarrow> []) @ refusals lib f c cs"
  by (simp_all add: scores_def refusals_def map_filter_simps split: sum.split)

lemma scores_Nil [simp]: "scores lib f c [] = []" "refusals lib f c [] = []"
  by (simp_all add: scores_def refusals_def map_filter_simps)

lemma score_loop_eq: "score_loop lib f c cs (r, s) = (r @ refusals lib f c cs, s @ scores lib f c cs)"
  by (induction cs arbitrary: r s) (simp_all add: scores_Cons split: sum.split)

lemma consider_Inr:
  "consider_candidate lib f c cand = Inr s \<longleftrightarrow> en_actionId cand \<in> set (oc_permitted c)
     \<and> (\<exists>a. lib_get lib (en_actionId cand) = Inr a \<and> s = scored_of f c cand a)"
  by (cases "lib_get lib (en_actionId cand)") (auto simp: consider_candidate_def)

lemma scored_of_simps [simp]:
  "sc_candidate (scored_of f c cand a) = cand"
  "sc_score (scored_of f c cand a) = en_expectedValuePaise cand - oc_modelSpendPaise c
     - (if ad_consumesContactBudget a then oc_priorContacts c * f else 0)"
  by (simp_all add: scored_of_def Let_def)

lemma consider_candidateD: "consider_candidate lib f c x = Inr s \<Longrightarrow> sc_candidate s = x"
  by (auto simp: consider_Inr)

lemma set_scores:
  "s \<in> set (scores lib f c cs) \<longleftrightarrow> sc_candidate s \<in> set cs \<and> consider_candidate lib f c (sc_candidate s) = Inr s"
proof (induction cs)
  case (Cons x cs)
  have "s \<in> set (scores lib f c (x # cs)) \<longleftrightarrow> consider_candidate lib f c x = Inr s \<or> s \<in> set (scores lib f c cs)"
    by (auto simp: scores_Cons split: sum.split)
  also have "\<dots> \<longleftrightarrow> sc_candidate s \<in> set (x # cs) \<and> consider_candidate lib f c (sc_candidate s) = Inr s"
    unfolding Cons.IH by (metis consider_candidateD set_ConsD list.set_intros)
  finally show ?case .
qed simp

lemma scores_refusals_length: "length (scores lib f c cs) + length (refusals lib f c cs) = length cs"
  by (induction cs) (auto simp: scores_Cons split: sum.split)

section \<open>The ranking\<close>

lemma with_ranks_props:
  "length (with_ranks ss) = length ss" "map sc_candidate (with_ranks ss) = map sc_candidate ss"
  "map sc_score (with_ranks ss) = map sc_score ss" "map sc_rank (with_ranks ss) = map Suc [0..<length ss]"
  unfolding with_ranks_def by (rule nth_equalityI | simp)+

lemma total_preorder_score_le: "total_preorder (locale_le E) \<Longrightarrow> total_preorder (score_le E)"
  unfolding total_preorder_def score_le_def by (metis less_trans not_less_iff_gr_or_eq)

lemma optimizer_rank_parts:
  "os_ranked (optimizer_rank E lib f cs c) = with_ranks (sort_by (score_le E) (scores lib f c cs))"
  "os_selected (optimizer_rank E lib f cs c) =
     (case filter (\<lambda>s. sc_score s > 0) (os_ranked (optimizer_rank E lib f cs c)) of [] \<Rightarrow> None | s # _ \<Rightarrow> Some s)"
  "os_rejected (optimizer_rank E lib f cs c) = refusals lib f c cs @
     map (\<lambda>s. \<lparr>or_actionId = en_actionId (sc_candidate s), or_why = ''expected value '' @ int_str (sc_score s) @ '' is not positive''\<rparr>)
       (filter (\<lambda>s. sc_score s \<le> 0) (os_ranked (optimizer_rank E lib f cs c)))"
  by (simp_all add: optimizer_rank_def score_loop_eq Let_def)

lemma in_ranked:
  assumes "s \<in> set (os_ranked (optimizer_rank E lib f cs c))"
  shows "sc_candidate s \<in> set cs \<and> en_actionId (sc_candidate s) \<in> set (oc_permitted c)
    \<and> (\<exists>a. lib_get lib (en_actionId (sc_candidate s)) = Inr a \<and> sc_score s = sc_score (scored_of f c (sc_candidate s) a))"
proof -
  let ?ss = "sort_by (score_le E) (scores lib f c cs)"
  from assms obtain i where i: "i < length ?ss" "s = with_ranks ?ss ! i"
    unfolding optimizer_rank_parts by (auto simp: in_set_conv_nth with_ranks_props)
  have eq: "sc_candidate s = sc_candidate (?ss ! i)" "sc_score s = sc_score (?ss ! i)"
    using i by (simp_all add: with_ranks_def)
  from i(1) have "?ss ! i \<in> set ?ss" by (rule nth_mem)
  then have "?ss ! i \<in> set (scores lib f c cs)" by simp
  from this [unfolded set_scores consider_Inr] show ?thesis unfolding eq by (metis scored_of_simps)
qed

lemma ranked_sorted:
  "total_preorder (locale_le E) \<Longrightarrow> sorted_wrt (\<lambda>a b. sc_score b \<le> sc_score a) (os_ranked (optimizer_rank E lib f cs c))"
proof -
  assume "total_preorder (locale_le E)"
  then have "sorted_wrt (score_le E) (sort_by (score_le E) (scores lib f c cs))"
    by (intro sorted_sort_by total_preorder_score_le)
  then have "sorted_wrt (\<lambda>a b. sc_score b \<le> sc_score a) (sort_by (score_le E) (scores lib f c cs))"
    by (rule sorted_wrt_mono_rel [rotated]) (auto simp: score_le_def)
  then have "sorted_wrt (\<lambda>x y. y \<le> x) (map sc_score (sort_by (score_le E) (scores lib f c cs)))"
    by (simp add: sorted_wrt_map)
  then have "sorted_wrt (\<lambda>x y. y \<le> x) (map sc_score (os_ranked (optimizer_rank E lib f cs c)))"
    unfolding optimizer_rank_parts with_ranks_props .
  then show ?thesis by (simp add: sorted_wrt_map)
qed

lemma selected_best:
  assumes "total_preorder (locale_le E)" and "os_selected (optimizer_rank E lib f cs c) = Some s"
  shows "s \<in> set (os_ranked (optimizer_rank E lib f cs c)) \<and> 0 < sc_score s
    \<and> (\<forall>x \<in> set (os_ranked (optimizer_rank E lib f cs c)). sc_score x \<le> sc_score s)"
proof -
  let ?r = "os_ranked (optimizer_rank E lib f cs c)"
  from assms(2) obtain xs where f: "filter (\<lambda>s. sc_score s > 0) ?r = s # xs"
    unfolding optimizer_rank_parts(2) [where E = E] by (auto split: list.splits)
  then have mem: "s \<in> set ?r" "0 < sc_score s" by (auto dest: filter_eq_ConsD)
  have "sc_score x \<le> sc_score s" if "x \<in> set ?r" for x
  proof (cases "0 < sc_score x")
    case True
    have "sorted_wrt (\<lambda>a b. sc_score b \<le> sc_score a) (s # xs)"
      using sorted_wrt_filter [OF ranked_sorted [OF assms(1)], of "\<lambda>s. sc_score s > 0" lib "f" cs c] f by simp
    moreover have "x \<in> set (s # xs)" using that True unfolding f [symmetric] by simp
    ultimately show ?thesis by auto
  qed (use mem in simp)
  with mem show ?thesis by blast
qed

end
