(* ===== verification/Agent_Runtime.thy ===== *)
theory Agent_Runtime
  imports Deliberation Optimizer Blackboard Case_Store
begin

text \<open>
  \<open>packages/agents/src/runtime.ts\<close>: the run of the roles a revision selected. The roles' work is done
  in their order (each runs to its provider call when it is started, and none reads what another
  writes); whether the timer of a role fires before its answer is an argument. Random identifiers
  are drawn from a supply. Shown here: a role whose promise is rejected, or that is late, leaves a run row and no claim,
  and discards nothing of the others; the valuation of actions, which is called outside a promise, rejects the whole run
  when it throws.
\<close>

datatype RoleClaim = diagnosis_claim DiagnosisClaim | context_claim ContextClaim
  | incident_claim IncidentClaim | economics_claim EconomicsClaim | communication_claim CommunicationClaim

record RunClaims =
  rn_diagnosis :: "DiagnosisClaim option"
  rn_context :: "ContextClaim option"
  rn_incident :: "IncidentClaim option"
  rn_economics :: "EconomicsClaim option"

record RunResult =
  rn_revision :: int
  rn_ran :: "RoleId list"
  rn_failed :: "(RoleId \<times> string) list"
  rn_providerCalls :: nat
  rn_claims :: RunClaims

text \<open>The provider at the two types it is asked for, and the models of the roles.\<close>

record 'w AgentProvider =
  ap_diagnosis :: "('w, DiagnosisClaim) LLMProvider"
  ap_context :: "('w, ContextClaim) LLMProvider"

section \<open>Payloads\<close>

fun intent_str :: "Intent \<Rightarrow> string" where
  "intent_str will_pay = ''will_pay''"
| "intent_str will_update = ''will_update''"
| "intent_str dispute_intent = ''dispute''"
| "intent_str opt_out_intent = ''opt_out''"
| "intent_str missing_po = ''missing_po''"
| "intent_str unknown_intent = ''unknown''"

fun language_str :: "Language \<Rightarrow> string" where
  "language_str lang_en = ''en''"
| "language_str lang_hi = ''hi''"
| "language_str lang_hinglish = ''hinglish''"

fun claim_payload :: "RoleClaim \<Rightarrow> params" where
  "claim_payload (diagnosis_claim d) =
     [(''primaryCause'', JStr (dc_primaryCause d)), (''confidence'', JNum (dc_confidence d)),
      (''alternatives'', JArr (map (\<lambda>a. hypothesis_json (hy_cause a) (hy_confidence a)) (dc_alternatives d))),
      (''ruleId'', jopt (dc_ruleId d)), (''evidenceRefs'', JStrs (dc_evidenceRefs d))]"
| "claim_payload (context_claim c) =
     [(''intent'', JStr (intent_str (xc_intent c))), (''optedOut'', JBool (xc_optedOut c)),
      (''language'', JStr (language_str (xc_language c))), (''priorContacts'', JInt (xc_priorContacts c))]"
| "claim_payload (incident_claim c) =
     [(''attach'', JBool (ic_attach c)), (''incidentId'', jopt (ic_incidentId c)),
      (''suppress'', JBool (ic_suppress c)), (''rationale'', JStr (ic_rationale c))]"
| "claim_payload (economics_claim c) =
     [(''candidates'', JArr (map (\<lambda>x. JObj [(''actionId'', JStr (en_actionId x)), (''pRecover'', JNum (en_pRecover x)),
        (''valueAtRiskPaise'', JInt (en_valueAtRiskPaise x)), (''actionCostPaise'', JInt (en_actionCostPaise x)),
        (''expectedValuePaise'', JInt (en_expectedValuePaise x))]) (ek_candidates c)))]"
| "claim_payload (communication_claim c) =
     [(''templateId'', JStr (co_templateId c)), (''language'', JStr (language_str (co_language c))),
      (''slots'', JObj (map (\<lambda>(k, v). (k, JStr v)) (co_slots c)))]"

text \<open>The input in the order of its interface; an absent property is left out.\<close>

definition specialist_json :: "SpecialistInput \<Rightarrow> json" where
  "specialist_json x = JObj
     ([(''caseId'', JStr (sx_caseId x)), (''domain'', JStr (domain_str (sx_domain x))), (''rail'', JStr (rail_str (sx_rail x))),
       (''code'', JStr (sx_code x)), (''attemptNo'', JInt (sx_attemptNo x)), (''amountPaise'', JInt (sx_amountPaise x)),
       (''evidenceRefs'', JStrs (sx_evidenceRefs x))]
      @ jprop ''customerReply'' (map_option JStr (sx_customerReply x))
      @ [(''priorContacts'', JInt (sx_priorContacts x)), (''optedOut'', JBool (sx_optedOut x)),
         (''language'', JStr (language_str (sx_language x)))]
      @ jprop ''incidentId'' (map_option JStr (sx_incidentId x))
      @ jprop ''segmentDegraded'' (map_option JBool (sx_segmentDegraded x))
      @ jprop ''context'' (map_option JObj (sx_context x)))"

definition inputHash :: "env \<Rightarrow> RoleId \<Rightarrow> SpecialistInput \<Rightarrow> string list \<Rightarrow> string" where
  "inputHash E role x allowed = take 32 (hex_encode (sha256 E (json_text E (JObj
     [(''role'', JStr (role_str role)), (''input'', specialist_json x), (''allowedActionIds'', JStrs allowed)]))))"

section \<open>One role\<close>

definition map_claim :: "('u \<Rightarrow> 'v) \<Rightarrow> 'u SpecialistOutcome \<Rightarrow> 'v SpecialistOutcome" where
  "map_claim f r = \<lparr>so_claim = f (so_claim r), so_usedProvider = so_usedProvider r, so_provider = so_provider r,
     so_model = so_model r, so_latencyMs = so_latencyMs r, so_cachedInputTokens = so_cachedInputTokens r\<rparr>"

text \<open>
  Calling an \<open>async\<close> function never throws: whatever goes wrong in it settles the promise it returned. A plain
  function whose result is handed to \<open>Promise.resolve\<close> throws to its caller. So the work of a role
  either throws at once (the outer \<^verbatim>\<open>Inl\<close>) or gives a promise, represented by what it settles to
  (rejected, the inner \<^verbatim>\<open>Inl\<close>, or fulfilled).
\<close>

type_synonym role_promise = "err + RoleClaim SpecialistOutcome"

definition async_call :: "('w, 'v) psp \<Rightarrow> ('w, err + 'v) psp" where
  "async_call m w = (case m w of (r, w') \<Rightarrow> (Inr r, w'))"

definition role_work ::
  "env \<Rightarrow> ActionLibrary \<Rightarrow> DeclineTaxonomy \<Rightarrow> 'w AgentProvider option \<Rightarrow> string \<Rightarrow> string \<Rightarrow> RoleId \<Rightarrow> SpecialistInput \<Rightarrow> string list
     \<Rightarrow> ('w, role_promise) psp" where
  "role_work E lib tx provider model_diagnosis model_context role x allowed =
     (case role of
        payment_diagnosis \<Rightarrow>
          async_call (bindM (diagnose E model_diagnosis x tx (map_option ap_diagnosis provider)) (\<lambda>r. retM (map_claim diagnosis_claim r)))
      | customer_context \<Rightarrow>
          async_call (bindM (readContext model_context x (map_option ap_context provider)) (\<lambda>r. retM (map_claim context_claim r)))
      | incident_intelligence \<Rightarrow> retM (Inr (map_claim incident_claim (correlateIncident x)))
      | recovery_economics \<Rightarrow>
          bindM (liftE (valueActions E x lib (sx_code x) allowed)) (\<lambda>r. retM (Inr (map_claim economics_claim r)))
      | communication \<Rightarrow>
          retM (Inr (deterministic (communication_claim
            \<lparr>co_templateId = ''WA_GENERIC_DUE'', co_language = sx_language x, co_slots = []\<rparr>))))"

text \<open>
  \<open>#invoke\<close>: a role whose contract forbids a provider gets none; its work is called before \<open>withTimeout\<close>, so
  that a throw passes by the timer, and a promise races it.
\<close>

definition timeout_error :: "RoleId \<Rightarrow> err" where
  "timeout_error role = Error (''role '' @ role_str role @ '' timeout after '' @ int_str (rc_timeoutMs (ROLE_REGISTRY role)) @ ''ms'')"

definition invoke_role ::
  "env \<Rightarrow> ActionLibrary \<Rightarrow> DeclineTaxonomy \<Rightarrow> 'w AgentProvider option \<Rightarrow> string \<Rightarrow> string \<Rightarrow> (RoleId \<Rightarrow> bool)
     \<Rightarrow> SpecialistInput \<Rightarrow> string list \<Rightarrow> RoleId \<Rightarrow> ('w, role_promise) psp" where
  "invoke_role E lib tx provider md mc late x allowed role =
     (let p = (if rc_mayUseProvider (ROLE_REGISTRY role) then provider else None) in
      bindM (role_work E lib tx p md mc role x allowed) (\<lambda>promise.
        retM (if late role then Inl (timeout_error role) else promise)))"

text \<open>
  \<open>roles.map\<close> invokes the roles in order, and the first throw leaves it, with the roles before it already
  started; \<open>Promise.allSettled\<close> then gives every outcome, rejected or not, in the order of the roles.
\<close>

fun settle_all :: "(RoleId \<Rightarrow> ('w, 'o) psp) \<Rightarrow> RoleId list \<Rightarrow> ('w, (RoleId \<times> 'o) list) psp" where
  "settle_all f [] = retM []"
| "settle_all f (r # rs) =
     bindM (f r) (\<lambda>x. bindM (settle_all f rs) (\<lambda>xs. retM ((r, x) # xs)))"

section \<open>The run\<close>

text \<open>\<open>/timeout/i.test(error)\<close>.\<close>

definition mentions_timeout :: "string \<Rightarrow> bool" where
  "mentions_timeout s = list_ex (\<lambda>n. map to_lower (take 7 (drop n s)) = ''timeout'') [0..<length s]"

definition failed_run :: "int \<Rightarrow> string \<Rightarrow> SpecialistInput \<Rightarrow> int \<Rightarrow> RoleId \<Rightarrow> string \<Rightarrow> string \<Rightarrow> run_row" where
  "failed_run now runId x revision role hash error =
     \<lparr>ar_id = runId, ar_case = sx_caseId x, ar_revision = revision, ar_role = role,
      ar_status = (if mentions_timeout error then run_timeout else run_error), ar_inputHash = hash,
      ar_provider = None, ar_model = None, ar_latency = None, ar_cost = None, ar_started = now\<rparr>"

definition ok_run :: "int \<Rightarrow> string \<Rightarrow> SpecialistInput \<Rightarrow> int \<Rightarrow> RoleId \<Rightarrow> string \<Rightarrow> RoleClaim SpecialistOutcome \<Rightarrow> run_row" where
  "ok_run now runId x revision role hash value =
     \<lparr>ar_id = runId, ar_case = sx_caseId x, ar_revision = revision, ar_role = role,
      ar_status = run_ok, ar_inputHash = hash, ar_provider = so_provider value, ar_model = so_model value,
      ar_latency = so_latencyMs value, ar_cost = None, ar_started = now\<rparr>"

definition run_claim :: "string \<Rightarrow> string \<Rightarrow> SpecialistInput \<Rightarrow> int \<Rightarrow> RoleId \<Rightarrow> RoleClaim SpecialistOutcome \<Rightarrow> WriteClaim" where
  "run_claim claimId runId x revision role value =
     \<lparr>wc_id = claimId, wc_caseId = sx_caseId x, wc_revision = revision, wc_role = role, wc_confidence = None,
      wc_payload = claim_payload (so_claim value), wc_evidenceRefs = Some (sx_evidenceRefs x), wc_agentRunId = Some runId\<rparr>"

definition keep_claim :: "RoleClaim \<Rightarrow> RunClaims \<Rightarrow> RunClaims" where
  "keep_claim claim cs = (case claim of
     diagnosis_claim d \<Rightarrow> cs\<lparr>rn_diagnosis := Some d\<rparr> | context_claim c \<Rightarrow> cs\<lparr>rn_context := Some c\<rparr>
   | incident_claim c \<Rightarrow> cs\<lparr>rn_incident := Some c\<rparr> | economics_claim c \<Rightarrow> cs\<lparr>rn_economics := Some c\<rparr>
   | communication_claim c \<Rightarrow> cs)"

definition agent_actor :: "RoleId \<Rightarrow> string" where
  "agent_actor role = ''agent:'' @ role_str role"

text \<open>One round of the loop over the settled outcomes; \<open>ids i\<close> are the run's and the claim's identifier.\<close>

definition record_outcome ::
  "env \<Rightarrow> int \<Rightarrow> (nat \<Rightarrow> string \<times> string) \<Rightarrow> SpecialistInput \<Rightarrow> int \<Rightarrow> string list \<Rightarrow> nat
     \<Rightarrow> RoleId \<times> (err + RoleClaim SpecialistOutcome) \<Rightarrow> RunResult \<Rightarrow> RunResult dbm" where
  "record_outcome E now ids x revision allowed i out res =
     (let role = fst out; runId = fst (ids i); hash = inputHash E role x allowed in
      case snd out of
        Inl err \<Rightarrow> let error = err_message err in
          thenM (recordRun (failed_run now runId x revision role hash error))
         (thenM (ledger_append now (sx_caseId x) (agent_actor role) ''agent_run_failed''
                   [(''revision'', JInt revision), (''error'', JStr error)])
                (retM (res\<lparr>rn_failed := rn_failed res @ [(role, error)]\<rparr>)))
      | Inr value \<Rightarrow>
          thenM (recordRun (ok_run now runId x revision role hash value))
         (thenM (writeClaim now (run_claim (snd (ids i)) runId x revision role value))
         (thenM (ledger_append now (sx_caseId x) (agent_actor role) ''claim_written''
                   [(''revision'', JInt revision), (''usedProvider'', JBool (so_usedProvider value)),
                    (''provider'', jopt (so_provider value)), (''model'', jopt (so_model value)),
                    (''cachedInputTokens'', case so_cachedInputTokens value of None \<Rightarrow> JNull | Some t \<Rightarrow> t)])
                (retM (res\<lparr>rn_ran := rn_ran res @ [role],
                           rn_providerCalls := rn_providerCalls res + (if so_usedProvider value then 1 else 0),
                           rn_claims := keep_claim (so_claim value) (rn_claims res)\<rparr>)))))"

fun record_outcomes ::
  "env \<Rightarrow> int \<Rightarrow> (nat \<Rightarrow> string \<times> string) \<Rightarrow> SpecialistInput \<Rightarrow> int \<Rightarrow> string list \<Rightarrow> nat
     \<Rightarrow> (RoleId \<times> (err + RoleClaim SpecialistOutcome)) list \<Rightarrow> RunResult \<Rightarrow> RunResult dbm" where
  "record_outcomes E now ids x revision allowed i [] res = retM res"
| "record_outcomes E now ids x revision allowed i (out # outs) res =
     bindM (record_outcome E now ids x revision allowed i out res) (\<lambda>res'.
       record_outcomes E now ids x revision allowed (Suc i) outs res')"

definition empty_run :: "int \<Rightarrow> RunResult" where
  "empty_run revision = \<lparr>rn_revision = revision, rn_ran = [], rn_failed = [], rn_providerCalls = 0,
     rn_claims = \<lparr>rn_diagnosis = None, rn_context = None, rn_incident = None, rn_economics = None\<rparr>\<rparr>"

definition run_roles ::
  "env \<Rightarrow> ActionLibrary \<Rightarrow> DeclineTaxonomy \<Rightarrow> 'w AgentProvider option \<Rightarrow> string \<Rightarrow> string \<Rightarrow> (RoleId \<Rightarrow> bool)
     \<Rightarrow> int \<Rightarrow> (nat \<Rightarrow> string \<times> string) \<Rightarrow> int \<Rightarrow> RoleId list \<Rightarrow> SpecialistInput \<Rightarrow> string list \<Rightarrow> ('w, RunResult) iom" where
  "run_roles E lib tx provider md mc late now ids revision roles x allowed =
     bindM (on_world (settle_all (invoke_role E lib tx provider md mc late x allowed) roles)) (\<lambda>outs.
       on_db (record_outcomes E now ids x revision allowed 0 outs (empty_run revision)))"

section \<open>What a run leaves\<close>

definition live_of :: "string \<Rightarrow> RoleId \<Rightarrow> db \<Rightarrow> claim_row list" where
  "live_of c r s = filter (live_claim c r) (claims s)"

text \<open>The identifiers from the \<open>i\<close>-th on are not in use.\<close>

definition fresh_ids :: "(nat \<Rightarrow> string \<times> string) \<Rightarrow> nat \<Rightarrow> db \<Rightarrow> bool" where
  "fresh_ids ids i s \<longleftrightarrow> inj (fst \<circ> ids) \<and> inj (snd \<circ> ids)
     \<and> (\<forall>j \<ge> i. fst (ids j) \<notin> ar_id ` set (agent_runs s) \<and> snd (ids j) \<notin> cm_id ` set (claims s))"

lemma record_failed:
  assumes "has_case (sx_caseId x) s" and "fresh_ids ids i s"
  shows "record_outcome E now ids x rvn allowed i (role, Inl err) res s =
    (Inr (res\<lparr>rn_failed := rn_failed res @ [(role, err_message err)]\<rparr>),
     s\<lparr>agent_runs := agent_runs s @ [failed_run now (fst (ids i)) x rvn role (inputHash E role x allowed) (err_message err)],
       ledger := ledger s @ [\<lparr>lg_case = sx_caseId x, lg_ts = now, lg_actor = agent_actor role, lg_type = ''agent_run_failed'',
         lg_payload = [(''revision'', JInt rvn), (''error'', JStr (err_message err))], lg_policy = None\<rparr>]\<rparr>)"
  using assms by (simp add: record_outcome_def Let_def recordRun_def fk_case_def monad_simps fresh_ids_def failed_run_def has_case_def)

abbreviation run_made where
  "run_made E now ids x rvn allowed i role v \<equiv> ok_run now (fst (ids i)) x rvn role (inputHash E role x allowed) v"

abbreviation claim_made where
  "claim_made now ids x rvn i role v \<equiv> new_claim now (run_claim (snd (ids i)) (fst (ids i)) x rvn role v)"

lemma record_ok:
  assumes "has_case (sx_caseId x) s" and "fresh_ids ids i s"
  shows "\<exists>l. record_outcome E now ids x rvn allowed i (role, Inr v) res s =
    (Inr (res\<lparr>rn_ran := rn_ran res @ [role], rn_providerCalls := rn_providerCalls res + (if so_usedProvider v then 1 else 0),
              rn_claims := keep_claim (so_claim v) (rn_claims res)\<rparr>),
     s\<lparr>agent_runs := agent_runs s @ [run_made E now ids x rvn allowed i role v],
       claims := update_where (live_claim (sx_caseId x) role) (invalidate_row now) (claims s) @ [claim_made now ids x rvn i role v],
       ledger := l\<rparr>)"
proof -
  let ?s1 = "s\<lparr>agent_runs := agent_runs s @ [run_made E now ids x rvn allowed i role v]\<rparr>"
  let ?c = "run_claim (snd (ids i)) (fst (ids i)) x rvn role v"
  have run: "recordRun (run_made E now ids x rvn allowed i role v) s = (Inr (), ?s1)"
    using assms by (simp add: recordRun_def fk_case_def monad_simps fresh_ids_def ok_run_def has_case_def)
  have "writeClaim now ?c ?s1 = (Inr (), ?s1\<lparr>claims :=
      update_where (live_claim (sx_caseId x) role) (invalidate_row now) (claims s) @ [new_claim now ?c]\<rparr>)"
    unfolding writeClaim_Inr using assms by (simp add: run_claim_def fresh_ids_def has_case_def ok_run_def)
  with run show ?thesis
    by (intro exI [of _ "ledger s @ [\<lparr>lg_case = sx_caseId x, lg_ts = now, lg_actor = agent_actor role, lg_type = ''claim_written'',
         lg_payload = [(''revision'', JInt rvn), (''usedProvider'', JBool (so_usedProvider v)),
                    (''provider'', jopt (so_provider v)), (''model'', jopt (so_model v)),
                    (''cachedInputTokens'', case so_cachedInputTokens v of None \<Rightarrow> JNull | Some t \<Rightarrow> t)], lg_policy = None\<rparr>]"])
      (simp add: record_outcome_def Let_def monad_simps)
qed

lemma fresh_ids_next:
  assumes "fresh_ids ids i s" and sub: "ar_id ` set (agent_runs t) \<subseteq> insert (fst (ids i)) (ar_id ` set (agent_runs s))"
    "cm_id ` set (claims t) \<subseteq> insert (snd (ids i)) (cm_id ` set (claims s))"
  shows "fresh_ids ids (Suc i) t"
proof -
  have inj: "inj (fst \<circ> ids)" "inj (snd \<circ> ids)" using assms(1) by (simp_all only: fresh_ids_def)
  have "fst (ids j) \<notin> ar_id ` set (agent_runs t) \<and> snd (ids j) \<notin> cm_id ` set (claims t)" if j: "Suc i \<le> j" for j
  proof -
    have "j \<noteq> i" using j by simp
    then have "fst (ids j) \<noteq> fst (ids i)" "snd (ids j) \<noteq> snd (ids i)" using inj by (auto simp: inj_def)
    moreover have "fst (ids j) \<notin> ar_id ` set (agent_runs s)" "snd (ids j) \<notin> cm_id ` set (claims s)"
      using assms(1) j by (simp_all add: fresh_ids_def)
    ultimately have "fst (ids j) \<notin> insert (fst (ids i)) (ar_id ` set (agent_runs s))"
      "snd (ids j) \<notin> insert (snd (ids i)) (cm_id ` set (claims s))" by simp_all
    then show ?thesis by (intro conjI contra_subsetD [OF sub(1)] contra_subsetD [OF sub(2)])
  qed
  with inj show ?thesis unfolding fresh_ids_def by simp
qed

text \<open>The rows of a run and the claim a role has after it.\<close>

definition run_row_of :: "SpecialistInput \<Rightarrow> int \<Rightarrow> RoleId \<times> (err + RoleClaim SpecialistOutcome) \<Rightarrow> RoleId \<times> string \<times> int \<times> bool" where
  "run_row_of x rvn out = (fst out, sx_caseId x, rvn, \<not> isl (snd out))"

definition row_view :: "run_row \<Rightarrow> RoleId \<times> string \<times> int \<times> bool" where
  "row_view a = (ar_role a, ar_case a, ar_revision a, ar_status a = run_ok)"

definition claim_view :: "claim_row \<Rightarrow> int \<times> params" where
  "claim_view a = (cm_revision a, cm_payload a)"

lemma row_view_simps [simp]:
  "row_view (failed_run now i x rvn role h e) = run_row_of x rvn (role, Inl err)"
  "row_view (ok_run now i x rvn role h v) = run_row_of x rvn (role, Inr v)"
  by (simp_all add: row_view_def run_row_of_def failed_run_def ok_run_def)

lemma live_of_append:
  "claims t = update_where (live_claim c role) (invalidate_row now) (claims s) @ [new_claim now w] \<Longrightarrow>
     wc_caseId w = c \<Longrightarrow> wc_role w = role \<Longrightarrow>
     live_of c r t = (if r = role then [new_claim now w] else live_of c r s)"
  by (auto simp: live_of_def filter_live_invalidated live_new_claim intro!: filter_cong) (auto simp: live_claim_def)

lemma record_outcomes_run:
  assumes "has_case (sx_caseId x) s" and "fresh_ids ids i s" and "distinct (map fst outs)"
  shows "\<exists>res' t. record_outcomes E now ids x rvn allowed i outs res s = (Inr res', t)
    \<and> rn_ran res' = rn_ran res @ map fst (filter (\<lambda>out. \<not> isl (snd out)) outs)
    \<and> map fst (rn_failed res') = map fst (rn_failed res) @ map fst (filter (\<lambda>out. isl (snd out)) outs)
    \<and> (\<exists>new. agent_runs t = agent_runs s @ new \<and> map row_view new = map (run_row_of x rvn) outs)
    \<and> (\<forall>r v. map_of outs r = Some (Inr v) \<longrightarrow> map claim_view (live_of (sx_caseId x) r t) = [(rvn, claim_payload (so_claim v))])
    \<and> (\<forall>r. \<not> (\<exists>v. map_of outs r = Some (Inr v)) \<longrightarrow> live_of (sx_caseId x) r t = live_of (sx_caseId x) r s)"
  using assms
proof (induction outs arbitrary: i res s)
  case Nil
  then show ?case by (simp add: monad_simps)
next
  case (Cons out outs)
  obtain role o1 where out: "out = (role, o1)" by (cases out)
  show ?case
  proof (cases o1)
    case (Inl err)
    let ?f = "failed_run now (fst (ids i)) x rvn role (inputHash E role x allowed) (err_message err)"
    obtain res1 s1 where step: "record_outcome E now ids x rvn allowed i out res s = (Inr res1, s1)"
      and res1: "rn_ran res1 = rn_ran res" "map fst (rn_failed res1) = map fst (rn_failed res) @ [role]"
      and s1: "agent_runs s1 = agent_runs s @ [?f]" "claims s1 = claims s" "case_rows s1 = case_rows s"
      using record_failed [OF Cons.prems(1,2), of E now rvn allowed role err res] by (auto simp: out Inl)
    have "has_case (sx_caseId x) s1" "fresh_ids ids (Suc i) s1"
      using Cons.prems(1) fresh_ids_next [OF Cons.prems(2), of s1] by (auto simp: has_case_def s1 failed_run_def)
    from Cons.IH [OF this, of res1] Cons.prems(3) obtain res' t new where
      rest: "record_outcomes E now ids x rvn allowed (Suc i) outs res1 s1 = (Inr res', t)"
        "rn_ran res' = rn_ran res1 @ map fst (filter (\<lambda>out. \<not> isl (snd out)) outs)"
        "map fst (rn_failed res') = map fst (rn_failed res1) @ map fst (filter (\<lambda>out. isl (snd out)) outs)"
        "agent_runs t = agent_runs s1 @ new" "map row_view new = map (run_row_of x rvn) outs"
        "\<forall>r v. map_of outs r = Some (Inr v) \<longrightarrow> map claim_view (live_of (sx_caseId x) r t) = [(rvn, claim_payload (so_claim v))]"
        "\<forall>r. \<not> (\<exists>v. map_of outs r = Some (Inr v)) \<longrightarrow> live_of (sx_caseId x) r t = live_of (sx_caseId x) r s1"
      by auto
    have live: "live_of c r s1 = live_of c r s" for c r by (simp add: live_of_def s1)
    have "map_of outs role = None" using Cons.prems(3) by (simp add: out map_of_eq_None_iff)
    with rest step res1 s1 live show ?thesis
      by (intro exI [of _ res'] exI [of _ t]) (auto simp: out Inl monad_simps)
  next
    case (Inr v)
    let ?c = "claim_made now ids x rvn i role v"
    obtain res1 s1 where step: "record_outcome E now ids x rvn allowed i out res s = (Inr res1, s1)"
      and res1: "rn_ran res1 = rn_ran res @ [role]" "rn_failed res1 = rn_failed res"
      and s1: "agent_runs s1 = agent_runs s @ [run_made E now ids x rvn allowed i role v]" "case_rows s1 = case_rows s"
        "claims s1 = update_where (live_claim (sx_caseId x) role) (invalidate_row now) (claims s) @ [?c]"
      using record_ok [OF Cons.prems(1,2), of E now rvn allowed role v res] by (auto simp: out Inr)
    have "cm_id ` set (claims s1) = insert (snd (ids i)) (cm_id ` set (claims s))"
      using arg_cong [OF map_update_where [of cm_id "invalidate_row now" "live_claim (sx_caseId x) role" "claims s"], of set]
      by (simp add: s1 run_claim_def)
    then have "has_case (sx_caseId x) s1" "fresh_ids ids (Suc i) s1"
      using Cons.prems(1) fresh_ids_next [OF Cons.prems(2), of s1] by (auto simp: has_case_def s1 ok_run_def)
    from Cons.IH [OF this, of res1] Cons.prems(3) obtain res' t new where
      rest: "record_outcomes E now ids x rvn allowed (Suc i) outs res1 s1 = (Inr res', t)"
        "rn_ran res' = rn_ran res1 @ map fst (filter (\<lambda>out. \<not> isl (snd out)) outs)"
        "map fst (rn_failed res') = map fst (rn_failed res1) @ map fst (filter (\<lambda>out. isl (snd out)) outs)"
        "agent_runs t = agent_runs s1 @ new" "map row_view new = map (run_row_of x rvn) outs"
        "\<forall>r v. map_of outs r = Some (Inr v) \<longrightarrow> map claim_view (live_of (sx_caseId x) r t) = [(rvn, claim_payload (so_claim v))]"
        "\<forall>r. \<not> (\<exists>v. map_of outs r = Some (Inr v)) \<longrightarrow> live_of (sx_caseId x) r t = live_of (sx_caseId x) r s1"
      by auto
    have live: "live_of (sx_caseId x) r s1 = (if r = role then [?c] else live_of (sx_caseId x) r s)" for r
      using live_of_append [OF s1(3)] by (simp add: run_claim_def)
    have none: "map_of outs role = None" using Cons.prems(3) by (simp add: out map_of_eq_None_iff)
    have view: "claim_view ?c = (rvn, claim_payload (so_claim v))"
      by (simp add: claim_view_def new_claim_def run_claim_def)
    from rest step res1 s1 live none view show ?thesis
      by (intro exI [of _ res'] exI [of _ t]) (auto simp: out Inr monad_simps)
  qed
qed

lemma async_call_app [monad_simps]: "async_call m w = (Inr (fst (m w)), snd (m w))"
  by (simp add: async_call_def split: prod.split)

lemma bindM_fst_Inl: "fst (bindM m k s) = Inl e \<longleftrightarrow>
    fst (m s) = Inl e \<or> (\<exists>y. fst (m s) = Inr y \<and> fst (k y (snd (m s))) = Inl e)"
  by (cases "m s"; cases "fst (m s)") (auto simp: bindM_def)

text \<open>The only throw of an invocation is that of the valuation; every other failure is a rejection.\<close>

lemma invoke_throws:
  "fst (invoke_role E lib tx provider md mc late x allowed role w) = Inl e \<longleftrightarrow>
     role = recovery_economics \<and> valueActions E x lib (sx_code x) allowed = Inl e"
  by (cases role; cases "valueActions E x lib (sx_code x) allowed")
    (simp_all add: invoke_role_def role_work_def Let_def bindM_fst_Inl monad_simps)

lemma settle_throws:
  assumes "\<And>r w e. fst (f r w) = Inl e \<longleftrightarrow> r = q \<and> m = Inl e"
  shows "fst (settle_all f roles w) = Inl e \<longleftrightarrow> q \<in> set roles \<and> m = Inl e"
proof (induction roles arbitrary: w)
  case Nil
  then show ?case by (simp add: retM_app)
next
  case (Cons r rs)
  show ?case
  proof (cases "fst (f r w)")
    case (Inl e')
    with assms [of r w e'] have "r = q" "m = Inl e'" by simp_all
    with Inl show ?thesis by (auto simp: bindM_fst_Inl)
  next
    case (Inr x)
    with assms [of r w e] have "\<not> (r = q \<and> m = Inl e)" by simp
    with Inr Cons.IH [of "snd (f r w)"] show ?thesis by (auto simp: bindM_fst_Inl retM_app)
  qed
qed

lemma settle_all_roles: "settle_all f roles w = (Inr outs, w') \<Longrightarrow> map fst outs = roles"
  by (induction roles arbitrary: w outs w') (auto simp: bindM_Inr retM_app)

lemma run_roles_records:
  assumes "has_case (sx_caseId x) s" and "fresh_ids ids 0 s" and "distinct roles"
    and "settle_all (invoke_role E lib tx provider md mc late x allowed) roles w = (Inr outs, w')"
  shows "\<exists>res t. run_roles E lib tx provider md mc late now ids rvn roles x allowed (s, w) = (Inr res, (t, w'))
    \<and> rn_ran res = filter (\<lambda>r. \<exists>v. map_of outs r = Some (Inr v)) roles
    \<and> map fst (rn_failed res) = filter (\<lambda>r. \<exists>e. map_of outs r = Some (Inl e)) roles
    \<and> (\<exists>new. agent_runs t = agent_runs s @ new \<and> map row_view new = map (run_row_of x rvn) outs)
    \<and> (\<forall>r v. map_of outs r = Some (Inr v) \<longrightarrow> map claim_view (live_of (sx_caseId x) r t) = [(rvn, claim_payload (so_claim v))])
    \<and> (\<forall>r. \<not> (\<exists>v. map_of outs r = Some (Inr v)) \<longrightarrow> live_of (sx_caseId x) r t = live_of (sx_caseId x) r s)"
proof -
  have roles: "map fst outs = roles" using settle_all_roles [OF assms(4)] .
  have look: "map_of outs (fst out) = Some (snd out)" if "out \<in> set outs" for out
    using that assms(3) roles by (simp add: map_of_is_SomeI)
  have "filter (\<lambda>r. \<exists>v. map_of outs r = Some (Inr v)) (map fst outs) = map fst (filter (\<lambda>out. \<not> isl (snd out)) outs)"
  proof -
    have "(\<exists>v. map_of outs (fst out) = Some (Inr v)) \<longleftrightarrow> \<not> isl (snd out)" if "out \<in> set outs" for out
      by (cases "snd out") (simp_all add: look [OF that])
    then show ?thesis unfolding filter_map comp_def by (intro arg_cong [of _ _ "map fst"] filter_cong) simp_all
  qed
  moreover have "filter (\<lambda>r. \<exists>e. map_of outs r = Some (Inl e)) (map fst outs) = map fst (filter (\<lambda>out. isl (snd out)) outs)"
  proof -
    have "(\<exists>e. map_of outs (fst out) = Some (Inl e)) \<longleftrightarrow> isl (snd out)" if "out \<in> set outs" for out
      by (cases "snd out") (simp_all add: look [OF that])
    then show ?thesis unfolding filter_map comp_def by (intro arg_cong [of _ _ "map fst"] filter_cong) simp_all
  qed
  moreover obtain res t where "record_outcomes E now ids x rvn allowed 0 outs (empty_run rvn) s = (Inr res, t)"
    "rn_ran res = map fst (filter (\<lambda>out. \<not> isl (snd out)) outs)" "map fst (rn_failed res) = map fst (filter (\<lambda>out. isl (snd out)) outs)"
    "\<exists>new. agent_runs t = agent_runs s @ new \<and> map row_view new = map (run_row_of x rvn) outs"
    "\<forall>r v. map_of outs r = Some (Inr v) \<longrightarrow> map claim_view (live_of (sx_caseId x) r t) = [(rvn, claim_payload (so_claim v))]"
    "\<forall>r. \<not> (\<exists>v. map_of outs r = Some (Inr v)) \<longrightarrow> live_of (sx_caseId x) r t = live_of (sx_caseId x) r s"
    using record_outcomes_run [OF assms(1,2), of outs E now rvn allowed "empty_run rvn"] assms(3) roles
    by (auto simp: empty_run_def)
  ultimately show ?thesis unfolding roles
    by (intro exI [of _ res] exI [of _ t]) (simp add: run_roles_def monad_simps assms(4))
qed

text \<open>A valuation that throws rejects the run before anything is recorded.\<close>

lemma run_roles_throws:
  assumes "recovery_economics \<in> set roles" and "valueActions E x lib (sx_code x) allowed = Inl e"
  shows "\<exists>w'. run_roles E lib tx provider md mc late now ids rvn roles x allowed (s, w) = (Inl e, (s, w'))"
proof -
  have "fst (settle_all (invoke_role E lib tx provider md mc late x allowed) roles w) = Inl e"
    using assms by (simp add: settle_throws [of _ recovery_economics, OF invoke_throws])
  then show ?thesis by (simp add: run_roles_def monad_simps)
qed

lemma settle_all_settles:
  assumes "\<not> (recovery_economics \<in> set roles \<and> isl (valueActions E x lib (sx_code x) allowed))"
  obtains outs w' where "settle_all (invoke_role E lib tx provider md mc late x allowed) roles w = (Inr outs, w')"
proof -
  let ?m = "settle_all (invoke_role E lib tx provider md mc late x allowed) roles w"
  have "fst ?m \<noteq> Inl e" for e
    using assms by (auto simp: settle_throws [of _ recovery_economics, OF invoke_throws])
  then obtain outs where "fst ?m = Inr outs" by (cases "fst ?m") auto
  then have "?m = (Inr outs, snd ?m)" by (simp add: prod_eq_iff)
  then show ?thesis by (rule that)
qed

end
