(* ===== verification/Claim_Cache.thy ===== *)
theory Claim_Cache
  imports Providers
begin

text \<open>
  \<open>packages/agents/src/cached-provider.ts\<close> and \<open>select-provider.ts\<close>: the cache of validated
  answers in front of a provider, and the choice of the provider from the credentials in the process
  environment. The table and the counters are the state; the wrapped provider has its own.
  Shown here: a hit does not reach the provider, and a validated answer is repeated for ever after.
\<close>

section \<open>The cache\<close>

record 'v cache_row =
  ck_key :: string
  ck_role :: string
  ck_input_hash :: string
  ck_schema_version :: string
  ck_model :: string
  ck_payload :: 'v
  ck_usage :: ProviderUsage
  ck_latency :: int
  ck_created :: int
  ck_hits :: nat
  ck_last_hit :: "int option"

record ('w, 'v) cached =
  cw_rows :: "'v cache_row list"
  cw_hits :: nat
  cw_misses :: nat
  cw_inner :: 'w

definition keyFor :: "env \<Rightarrow> ProviderRequest \<Rightarrow> string" where
  "keyFor E req = hex_encode (sha256 E (join '' ''
     [prompt_role_str (pq_role req), pq_schemaName req, pq_schemaVersion req, pq_model req,
      pq_instructions req, pq_input req]))"

definition cached_row :: "string \<Rightarrow> 'v cache_row list \<Rightarrow> 'v cache_row option" where
  "cached_row key rows = find (\<lambda>r. ck_key r = key) rows"

definition count_hit :: "int \<Rightarrow> string \<Rightarrow> ('w, 'v) cached \<Rightarrow> ('w, 'v) cached" where
  "count_hit now key c = c\<lparr>cw_hits := cw_hits c + 1,
     cw_rows := map (\<lambda>r. if ck_key r = key then r\<lparr>ck_hits := ck_hits r + 1, ck_last_hit := Some now\<rparr> else r) (cw_rows c)\<rparr>"

definition cached_response :: "string \<Rightarrow> string \<Rightarrow> 'v cache_row \<Rightarrow> 'v ProviderResponse" where
  "cached_response name key hit =
     \<lparr>pr_value = ck_payload hit, pr_provider = name @ ''(cached)'', pr_model = ck_model hit,
      pr_responseId = JStr (''cache:'' @ take 12 key), pr_latencyMs = ck_latency hit,
      pr_usage = ck_usage hit, pr_validated = True\<rparr>"

definition row_of_response :: "int \<Rightarrow> string \<Rightarrow> ProviderRequest \<Rightarrow> 'v ProviderResponse \<Rightarrow> 'v cache_row" where
  "row_of_response now key req res =
     \<lparr>ck_key = key, ck_role = prompt_role_str (pq_role req), ck_input_hash = take 32 key,
      ck_schema_version = pq_schemaVersion req, ck_model = pr_model res, ck_payload = pr_value res,
      ck_usage = pr_usage res, ck_latency = pr_latencyMs res, ck_created = now, ck_hits = 0, ck_last_hit = None\<rparr>"

text \<open>\<open>INSERT ... ON CONFLICT (cache_key) DO NOTHING\<close>.\<close>

definition store_answer :: "'v cache_row \<Rightarrow> ('w, 'v) cached \<Rightarrow> ('w, 'v) cached" where
  "store_answer r c = (if ck_key r \<in> ck_key ` set (cw_rows c) then c else c\<lparr>cw_rows := cw_rows c @ [r]\<rparr>)"

definition on_inner :: "('w, 'a) psp \<Rightarrow> (('w, 'v) cached, 'a) psp" where
  "on_inner m = (\<lambda>c. case m (cw_inner c) of (r, w) \<Rightarrow> (r, c\<lparr>cw_inner := w\<rparr>))"

definition cached_complete ::
  "env \<Rightarrow> ('w, 'v) LLMProvider \<Rightarrow> bool \<Rightarrow> (('w, 'v) cached \<Rightarrow> int) \<Rightarrow> ProviderRequest
     \<Rightarrow> (('w, 'v) cached, 'v ProviderResponse) psp" where
  "cached_complete E inner enabled clock req =
     (if \<not> enabled then on_inner (lp_complete inner req)
      else let key = keyFor E req in
        bindM (readM (\<lambda>c. cached_row key (cw_rows c))) (\<lambda>hit.
          case hit of
            Some r \<Rightarrow> bindM (readM clock) (\<lambda>now.
              thenM (modifyM (count_hit now key)) (retM (cached_response (lp_name inner) key r)))
          | None \<Rightarrow>
              thenM (modifyM (\<lambda>c. c\<lparr>cw_misses := cw_misses c + 1\<rparr>))
             (bindM (on_inner (lp_complete inner req)) (\<lambda>res.
              thenM (if pr_validated res
                     then bindM (readM clock) (\<lambda>now. modifyM (store_answer (row_of_response now key req res)))
                     else retM ())
                    (retM res)))))"

definition CachedProvider :: "env \<Rightarrow> ('w, 'v) LLMProvider \<Rightarrow> bool \<Rightarrow> (('w, 'v) cached \<Rightarrow> int) \<Rightarrow> (('w, 'v) cached, 'v) LLMProvider" where
  "CachedProvider E inner enabled clock =
     \<lparr>lp_name = lp_name inner @ ''+cache'', lp_complete = cached_complete E inner enabled clock\<rparr>"

lemma on_inner_app [monad_simps]: "on_inner m c = (fst (m (cw_inner c)), c\<lparr>cw_inner := snd (m (cw_inner c))\<rparr>)"
  by (simp add: on_inner_def split: prod.split)

text \<open>A stored answer is what every later call with its key returns, and the provider is not called.\<close>

lemma cached_hit:
  assumes "cached_row (keyFor E req) (cw_rows c) = Some r"
  shows "cached_complete E inner True clock req c =
    (Inr (cached_response (lp_name inner) (keyFor E req) r), count_hit (clock c) (keyFor E req) c)"
  using assms by (simp add: cached_complete_def Let_def monad_simps)

lemma cached_row_count_hit:
  "cached_row k (cw_rows (count_hit now key c)) =
     map_option (\<lambda>r. if ck_key r = key then r\<lparr>ck_hits := ck_hits r + 1, ck_last_hit := Some now\<rparr> else r) (cached_row k (cw_rows c))"
  by (auto simp: count_hit_def cached_row_def find_map_cong)

lemma cached_response_count [simp]:
  "cached_response n k (r\<lparr>ck_hits := h, ck_last_hit := z\<rparr>) = cached_response n k r"
  by (simp add: cached_response_def)

lemma cw_inner_count_hit [simp]: "cw_inner (count_hit now key c) = cw_inner c"
  by (simp add: count_hit_def)

text \<open>A call that misses stores a validated answer, and nothing else.\<close>

lemma cached_miss:
  assumes "cached_row (keyFor E req) (cw_rows c) = None" and "lp_complete inner req (cw_inner c) = (Inr res, w)" and "pr_validated res"
  shows "\<exists>now. cached_complete E inner True clock req c =
    (Inr res, c\<lparr>cw_misses := cw_misses c + 1, cw_inner := w,
                cw_rows := cw_rows c @ [row_of_response now (keyFor E req) req res]\<rparr>)"
proof -
  have "keyFor E req \<notin> ck_key ` set (cw_rows c)"
    using assms(1) by (auto simp: cached_row_def dest: find_NoneD)
  then show ?thesis using assms
    by (intro exI [of _ "clock (c\<lparr>cw_misses := cw_misses c + 1, cw_inner := w\<rparr>)"])
      (simp add: cached_complete_def Let_def monad_simps store_answer_def row_of_response_def)
qed

text \<open>Any sequence of calls keeps a row's answer: rows are only appended and counted.\<close>

definition same_answer :: "'v cache_row \<Rightarrow> 'v cache_row \<Rightarrow> bool" where
  "same_answer r r' \<longleftrightarrow> (\<forall>n k. cached_response n k r' = cached_response n k r)"

lemma cached_keeps_answer:
  assumes "cached_row k (cw_rows c) = Some r" and "same_answer r0 r"
  shows "\<exists>r'. cached_row k (cw_rows (snd (cached_complete E inner enabled clock req c))) = Some r' \<and> same_answer r0 r'"
proof (cases enabled)
  case False
  then show ?thesis using assms by (simp add: cached_complete_def monad_simps)
next
  case True
  note en = this
  show ?thesis
  proof (cases "cached_row (keyFor E req) (cw_rows c)")
    case (Some h)
    then show ?thesis using assms True by (auto simp: cached_hit cached_row_count_hit same_answer_def)
  next
    case None
    obtain x w where run: "lp_complete inner req (cw_inner c) = (x, w)" by fastforce
    have app: "cached_row k (cw_rows c @ rs) = Some r" for rs
      using assms(1) by (simp add: cached_row_def find_append)
    then show ?thesis using assms True None run
      by (cases x) (auto simp: cached_complete_def Let_def monad_simps store_answer_def)
  qed
qed

fun after_calls :: "env \<Rightarrow> ('w, 'v) LLMProvider \<Rightarrow> (('w, 'v) cached \<Rightarrow> int) \<Rightarrow> (bool \<times> ProviderRequest) list \<Rightarrow> ('w, 'v) cached \<Rightarrow> ('w, 'v) cached" where
  "after_calls E inner clock [] c = c"
| "after_calls E inner clock ((enabled, req) # cs) c =
     after_calls E inner clock cs (snd (cached_complete E inner enabled clock req c))"

lemma after_calls_keep:
  "cached_row k (cw_rows c) = Some r \<Longrightarrow> same_answer r0 r \<Longrightarrow>
     \<exists>r'. cached_row k (cw_rows (after_calls E inner clock cs c)) = Some r' \<and> same_answer r0 r'"
proof (induction cs arbitrary: c r)
  case (Cons x cs)
  obtain en req where x: "x = (en, req)" by (cases x)
  from cached_keeps_answer [OF Cons.prems, of E inner en clock req] show ?case using Cons.IH by (auto simp: x)
qed auto

text \<open>An answer stored once is repeated after any further calls, without the provider.\<close>

lemma cache_replays:
  assumes miss: "cached_row (keyFor E req) (cw_rows c) = None"
    and call: "lp_complete inner req (cw_inner c) = (Inr res, w)" and ok: "pr_validated res"
    and c1: "c1 = after_calls E inner clock cs (snd (cached_complete E inner True clock req c))"
  shows "\<exists>r. cached_complete E inner True clock req c1 = (Inr r, count_hit (clock c1) (keyFor E req) c1)
    \<and> pr_value r = pr_value res \<and> pr_usage r = pr_usage res \<and> pr_model r = pr_model res
    \<and> pr_provider r = lp_name inner @ ''(cached)''"
proof -
  from cached_miss [OF miss call ok, of clock] obtain now where
    c: "snd (cached_complete E inner True clock req c) = c\<lparr>cw_misses := cw_misses c + 1, cw_inner := w,
                cw_rows := cw_rows c @ [row_of_response now (keyFor E req) req res]\<rparr>" by auto
  let ?r = "row_of_response now (keyFor E req) req res"
  have "cached_row (keyFor E req) (cw_rows (snd (cached_complete E inner True clock req c))) = Some ?r"
    using miss by (simp add: c cached_row_def find_append row_of_response_def)
  moreover have "same_answer ?r ?r" by (simp add: same_answer_def)
  ultimately obtain r' where r': "cached_row (keyFor E req) (cw_rows c1) = Some r'" "same_answer ?r r'"
    unfolding c1 using after_calls_keep by blast
  have "cached_response (lp_name inner) (keyFor E req) r' = cached_response (lp_name inner) (keyFor E req) ?r"
    using r'(2) by (simp add: same_answer_def)
  with cached_hit [OF r'(1), of inner clock] show ?thesis
    by (simp add: cached_response_def row_of_response_def)
qed

text \<open>
  The parts of a key are joined by a space without escaping: moving words across the
  boundary of the instructions and the input keeps the key.
\<close>

lemma keyFor_ambiguous:
  "keyFor E (req\<lparr>pq_instructions := a @ '' '' @ b, pq_input := c\<rparr>) =
     keyFor E (req\<lparr>pq_instructions := a, pq_input := b @ '' '' @ c\<rparr>)"
  by (simp add: keyFor_def)

section \<open>The choice of a provider\<close>

type_synonym process_env = "string \<Rightarrow> string option"

datatype backend = be_openrouter | be_openai | be_none

record ModelConfig =
  mf_diagnosis :: string
  mf_context :: string
  mf_reducer :: string

definition env_or :: "process_env \<Rightarrow> string \<Rightarrow> string \<Rightarrow> string" where
  "env_or P k fallback = (case P k of None \<Rightarrow> fallback
     | Some v \<Rightarrow> if js_trim v = [] then fallback else js_trim v)"

definition modelsFor :: "process_env \<Rightarrow> backend \<Rightarrow> ModelConfig" where
  "modelsFor P provider =
     (if provider = be_openrouter
      then \<lparr>mf_diagnosis = env_or P ''MODEL_DIAGNOSIS'' ''openai/gpt-4o-mini'',
            mf_context = env_or P ''MODEL_CONTEXT'' ''openai/gpt-4o-mini'',
            mf_reducer = env_or P ''MODEL_REDUCER'' ''openai/gpt-4o-mini''\<rparr>
      else \<lparr>mf_diagnosis = env_or P ''MODEL_DIAGNOSIS'' ''gpt-5.6-terra'',
            mf_context = env_or P ''MODEL_CONTEXT'' ''gpt-5.6-luna'',
            mf_reducer = env_or P ''MODEL_REDUCER'' ''gpt-5.6-terra''\<rparr>)"

record SelectedProvider =
  sp_kind :: backend
  sp_models :: ModelConfig
  sp_cached :: bool

definition trimmed_truthy :: "string option \<Rightarrow> bool" where
  "trimmed_truthy v = truthy (map_option js_trim v)"

definition selectProvider :: "process_env \<Rightarrow> SelectedProvider" where
  "selectProvider P =
     (let cached = \<not> truthy (P ''NO_CLAIM_CACHE'') in
      if trimmed_truthy (P ''OPENROUTER_API_KEY'')
      then \<lparr>sp_kind = be_openrouter, sp_models = modelsFor P be_openrouter, sp_cached = cached\<rparr>
      else if trimmed_truthy (P ''OPENAI_API_KEY'')
      then \<lparr>sp_kind = be_openai, sp_models = modelsFor P be_openai, sp_cached = cached\<rparr>
      else \<lparr>sp_kind = be_none, sp_models = modelsFor P be_openai, sp_cached = cached\<rparr>)"

end
