(* ===== verification/Assurance.thy ===== *)
theory Assurance
  imports Guarantees Recovery Detector Incident Release_Controller Intent_Router Webhook Mandate_Sequencer
    Agent_Runtime Claim_Cache
begin

text \<open>
  What the edges of the engine promise: the webhook intake, customer replies, incidents and
  their release, the detector, the blackboard, the configuration and the agents.
\<close>

section \<open>The inbound route\<close>

text \<open>
  C24. A delivery is processed only with the right signature: with a secret configured, one whose
  signature does not decode to the keyed hash of its body is answered 401 and changes nothing.
\<close>

theorem forged_webhook_refused:
  assumes "secret \<noteq> []" and "sig = [] \<or> hex_decode sig \<noteq> hmac_sha256 E secret raw"
  shows "handleWebhook E secret m now (Some raw) sig s = (Inr (401, ''signature verification failed''), s)"
  using assms by (intro handle_forged) (auto simp: verify_iff)

theorem forged_webhook_refused_witness:
  "handleWebhook sample_env ''k'' ''m'' 5 (Some ''x'') ''00'' sample_open
     = (Inr (401, ''signature verification failed''), sample_open)"
proof -
  have "hex_decode ''00'' \<noteq> hmac_sha256 sample_env ''k'' ''x''" by code_simp
  then show ?thesis using forged_webhook_refused [of "''k''" "''00''" sample_env "''x''" "''m''" 5 sample_open] by simp
qed

text \<open>
  C25. Deliveries are idempotent: one that was acknowledged with 200 is, whenever it is delivered
  again and whatever the engine did in between, other deliveries included, acknowledged as a duplicate and changes
  nothing, so that no settlement is booked twice.
\<close>

theorem redelivery_changes_nothing:
  assumes "handleWebhook E secret m now (Some raw) sig s = (Inr (200, txt), t)" and "(sys_step (v :: 'v itself))\<^sup>*\<^sup>* t u"
  shows "handleWebhook E secret m now' (Some raw) sig u = (Inr (200, ''duplicate, already processed''), u)"
proof -
  from handle_acknowledged [OF assms(1)] obtain ev where sec: "secret \<noteq> []"
    and ev: "ingestWebhook E raw sig secret m = Inr ev" and seen: "webhook_seen (ne_eventId ev) t" by blast
  show ?thesis by (rule handle_duplicate [OF ev webhook_seen_later [OF seen assms(2)] sec])
qed

text \<open>Another delivery, of another event, comes between the two.\<close>

theorem redelivery_changes_nothing_witness:
  "\<exists>t u. handleWebhook sample_env ''k'' ''m'' 5 (Some ''x'') ''01'' sample_open = (Inr (200, ''ok''), t)
     \<and> u = after (ledger_append 7 ''c1'' ''runner'' ''note'' []) t
     \<and> handleWebhook sample_env ''k'' ''m'' 9 (Some ''x'') ''01'' u = (Inr (200, ''duplicate, already processed''), u)"
proof -
  have ok: "fst (handleWebhook sample_env ''k'' ''m'' 5 (Some ''x'') ''01'' sample_open) = Inr (200, ''ok'')" by code_simp
  obtain t where t: "handleWebhook sample_env ''k'' ''m'' 5 (Some ''x'') ''01'' sample_open = (Inr (200, ''ok''), t)"
    using ok by (cases "handleWebhook sample_env ''k'' ''m'' 5 (Some ''x'') ''01'' sample_open") simp
  have "sys_step TYPE(unit) t (after (ledger_append 7 ''c1'' ''runner'' ''note'' []) t)"
    by (simp add: sys_step_def board_step.noted)
  from redelivery_changes_nothing [OF t r_into_rtranclp [of "sys_step TYPE(unit)", OF this], of 9] t show ?thesis by blast
qed





section \<open>Incidents\<close>

text \<open>
  C27. An incident parks what it attaches, and counts it: from a reachable state, the cases taken are those of the list that
  are open and not yet members of the incident (whoever named them, and once each); each of them ends suppressed by the
  incident, a member not yet released, with no scheduled action outstanding; every other case keeps its row; and the
  number of cases taken is returned and recorded with the number asked for.
\<close>

theorem incident_parks:
  assumes "reachable (w :: 'w itself) s" and "attachAndSuppress now inc caseIds s = (Inr n, t)"
  shows "n = length (remdups (filter (attachable inc s) caseIds))
    \<and> (\<forall>c. if c \<in> set caseIds \<and> attachable inc s c
        then (\<exists>r. case_of t c = Some r \<and> cs_state r = SUPPRESSED_BY_INCIDENT \<and> cs_incident r = Some inc)
          \<and> (\<forall>a \<in> set (scheduled_actions t). \<not> outstanding c a)
          \<and> (\<exists>m \<in> set (incident_members t). is_member inc c m \<and> im_released m = None)
        else case_of t c = case_of s c)
    \<and> (\<exists>earlier. ledger t = earlier @ [\<lparr>lg_case = inc, lg_ts = now, lg_actor = ''incident_manager'', lg_type = ''cases_parked'',
          lg_payload = [(''parked'', JInt (int n)), (''requested'', JInt (int (length caseIds)))], lg_policy = None\<rparr>])"
proof -
  have inv: "store_inv s" using reachable_sys_inv [OF assms(1)] by (simp add: sys_inv_def paid_inv_def case_inv_def)
  from assms(2) obtain u where u: "foldM (attach_step now inc) 0 caseIds s = (Inr n, u)"
    and t: "t = snd (ledger_append now inc ''incident_manager'' ''cases_parked''
      [(''parked'', JInt (int n)), (''requested'', JInt (int (length caseIds)))] u)"
    unfolding attachAndSuppress_def by (auto simp: bindM_Inr thenM_Inr retM_app)
  note counts = attach_fold_counts [OF inv u]
  have "n = length (remdups (filter (attachable inc s) caseIds))"
    using counts by (simp add: length_remdups_card_conv)
  moreover have "if c \<in> set caseIds \<and> attachable inc s c
        then (\<exists>r. case_of t c = Some r \<and> cs_state r = SUPPRESSED_BY_INCIDENT \<and> cs_incident r = Some inc)
          \<and> (\<forall>a \<in> set (scheduled_actions t). \<not> outstanding c a)
          \<and> (\<exists>m \<in> set (incident_members t). is_member inc c m \<and> im_released m = None)
        else case_of t c = case_of s c" for c
  proof (cases "c \<in> set caseIds \<and> attachable inc s c")
    case True
    then have "parked u inc c" using attach_fold [OF inv u] unfolding attachable_def by blast
    with True show ?thesis by (simp add: t ledger_append_app parked_def case_of_def)
  next
    case False
    with counts have "case_of u c = case_of s c" by blast
    then show ?thesis unfolding if_not_P [OF False] by (simp add: t ledger_append_app case_of_def)
  qed
  moreover have "\<exists>earlier. ledger t = earlier @ [\<lparr>lg_case = inc, lg_ts = now, lg_actor = ''incident_manager'', lg_type = ''cases_parked'',
          lg_payload = [(''parked'', JInt (int n)), (''requested'', JInt (int (length caseIds)))], lg_policy = None\<rparr>]"
    by (simp add: t ledger_append_app)
  ultimately show ?thesis by blast
qed

definition sample_candidate :: Candidate where
  "sample_candidate = \<lparr>ca_segment = (\<lambda>_. None), ca_label = ''gateway=A'',
     ca_test = \<lparr>zt_z = -3, zt_pValue = 0, zt_observedRate = 1/2, zt_baselineRate = 9/10\<rparr>, ca_attempts = 40\<rparr>"

definition sample_incident :: db where
  "sample_incident = after (incident_open 25 ''i1'' sample_candidate ''detector'') sample_open"

definition sample_parked :: db where
  "sample_parked = after (attachAndSuppress 30 ''i1'' [''c1'']) sample_incident"

lemma sample_incident_reachable: "reachable TYPE(unit) sample_incident"
  unfolding sample_incident_def
  by (rule reachable_step [OF sample_open_reachable]) (simp add: sys_step_def board_step.open_incident)

lemma sample_parked_reachable: "reachable TYPE(unit) sample_parked"
  unfolding sample_parked_def
  by (rule reachable_step [OF sample_incident_reachable]) (simp add: sys_step_def case_step.attach)

lemma incident_parks_state:
  "\<exists>r. case_of sample_parked ''c1'' = Some r \<and> cs_state r = SUPPRESSED_BY_INCIDENT"
proof -
  have "map_option cs_state (case_of sample_parked ''c1'') = Some SUPPRESSED_BY_INCIDENT" by code_simp
  then show ?thesis by auto
qed

theorem incident_parks_witness:
  "\<exists>r. case_of sample_parked ''c1'' = Some r \<and> cs_state r = SUPPRESSED_BY_INCIDENT \<and> cs_incident r = Some ''i1''"
proof -
  have "fst (attachAndSuppress 30 ''i1'' [''c1''] sample_incident) = Inr 1" by code_simp
  then have run: "attachAndSuppress 30 ''i1'' [''c1''] sample_incident = (Inr 1, sample_parked)"
    by (simp add: sample_parked_def after_def prod_eq_iff)
  have "attachable ''i1'' sample_incident ''c1''" by code_simp
  with incident_parks [OF sample_incident_reachable run] show ?thesis by (simp split: if_splits)
qed

text \<open>
  C28. The release finishes: let an incident stand at stage 0 in a well-formed store whose member rows have distinct keys,
  and let every case parked on it exist and, if it is still open, be in a state from which it may be scheduled (the
  release of one that may not throws). Then at most five steps with healthy readings, whatever the draws of the jitter and
  however many cases are parked, end with a step that reports completion, the incident closed and nobody parked any more.
\<close>

theorem release_finishes:
  assumes "ramping E inc 0 s" and "\<forall>h \<in> set hs. healthy E cfg h" and "5 \<le> length hs"
  shows "\<exists>sts t w'. release_steps E cfg now inc hs (s, w) = (sts, (t, w')) \<and> sts \<noteq> [] \<and> rs_act (last sts) = completed
    \<and> parked_list E inc t = [] \<and> (\<exists>r. incident_row_of t inc = Some r \<and> in_state r = inc_closed)"
  by (rule ramp_finishes [OF assms(1) _ assms(2)]) (use assms(3) in simp_all)

theorem release_finishes_witness:
  "parked_list sample_env ''i1'' (fst (snd (release_steps sample_env (DEFAULT_RELEASE_CONFIG sample_env) 90 ''i1''
     (replicate 5 \<lparr>hr_observedRate = 9/10, hr_baselineRate = 9/10\<rparr>) (sample_parked, \<lparr>ct_rand = mulberry32 7, ct_inFlight = []\<rparr>)))) = []"
proof -
  have row: "map_option in_stage (incident_row_of sample_parked ''i1'') = Some 0" by code_simp
  have members: "map (\<lambda>m. (im_incident m, im_case m)) (incident_members sample_parked) = [(''i1'', ''c1'')]" by code_simp
  have list: "parked_list sample_env ''i1'' sample_parked = [''c1'']" by code_simp
  have "store_inv sample_parked"
    using reachable_sys_inv [OF sample_parked_reachable] by (simp add: sys_inv_def paid_inv_def case_inv_def)
  moreover have "canTransition SUPPRESSED_BY_INCIDENT SCHEDULED" by code_simp
  ultimately have "releasable [''c1''] sample_parked"
    using incident_parks_state by (auto simp: releasable_def)
  with row members have "ramping sample_env ''i1'' 0 sample_parked" by (auto simp: ramping_def list)
  moreover have "healthy sample_env (DEFAULT_RELEASE_CONFIG sample_env) \<lparr>hr_observedRate = 9/10, hr_baselineRate = 9/10\<rparr>" by code_simp
  ultimately obtain sts t w' where
    "release_steps sample_env (DEFAULT_RELEASE_CONFIG sample_env) 90 ''i1''
       (replicate 5 \<lparr>hr_observedRate = 9/10, hr_baselineRate = 9/10\<rparr>) (sample_parked, \<lparr>ct_rand = mulberry32 7, ct_inFlight = []\<rparr>) = (sts, (t, w'))"
    "parked_list sample_env ''i1'' t = []"
    using release_finishes [of sample_env "''i1''" sample_parked "replicate 5 \<lparr>hr_observedRate = 9/10, hr_baselineRate = 9/10\<rparr>"] by force
  then show ?thesis by simp
qed

text \<open>
  C29. The detector opens an incident only on evidence. Take a new detector, any history of windows and resets, with one
  observation per segment in a window, and a window in which it flags a segment. In that window the segment was observed
  with at least the volume floor, below its baseline, and passed the correction: for some \<open>k\<close>, its p-value and those of
  at least \<open>k\<close> of the \<open>m\<close> drops of the window are at most \<open>k/m\<close> of alpha (\<open>significant_drop\<close>). The same holds in each of
  the latest windows that tested the segment since its last reset, this one included, as many as the dwell asks for. And no
  flagged segment contains another, so that no two incidents of a window claim the same cases.
\<close>

theorem detector_flags_soundly:
  assumes "c \<in> set (fst (evaluate E cfg obs (detector_run E cfg calls)))"
    and "\<And>w. Window w \<in> set (calls @ [Window obs]) \<Longrightarrow> one_each w"
  shows "significant_drop E cfg obs c
     \<and> (let past = tested_windows cfg (ca_label c) (rev (calls @ [Window obs])) in
          dc_dwellWindows cfg \<le> length past
          \<and> (\<forall>w \<in> set (take (dc_dwellWindows cfg) past). \<exists>d. ca_label d = ca_label c \<and> significant_drop E cfg w d))
     \<and> (\<forall>d \<in> set (fst (evaluate E cfg obs (detector_run E cfg calls))). \<not> isAncestor (ca_segment c) (ca_segment d))"
  unfolding Let_def
  using evaluate_mem [OF assms(1)] significant_is_drop evaluate_antichain [OF assms(1)] evaluate_history [OF assms]
  by blast

definition sample_cfg :: DetectorConfig where
  "sample_cfg = \<lparr>dc_volumeFloor = 30, dc_alpha = 5/100, dc_dwellWindows = 2, dc_closeWithin = 95/100, dc_closeWindows = 3\<rparr>"

definition sample_observation :: SegmentObservation where
  "sample_observation = \<lparr>so_segment = (\<lambda>_. None), so_attempts = 40, so_approvals = 0, so_baselineAttempts = 100,
     so_baselineApprovals = 50\<rparr>"

text \<open>Two failing windows, one after the other, flag the segment; the first alone does not.\<close>

theorem detector_flags_soundly_witness:
  "fst (evaluate sample_env sample_cfg [sample_observation] newAnomalyDetector) = []
   \<and> (\<exists>c. fst (evaluate sample_env sample_cfg [sample_observation]
        (detector_run sample_env sample_cfg [Window [sample_observation]])) = [c]
      \<and> significant_drop sample_env sample_cfg [sample_observation] c)"
proof -
  let ?calls = "[Window [sample_observation]]"
  let ?now = "fst (evaluate sample_env sample_cfg [sample_observation] (detector_run sample_env sample_cfg ?calls))"
  have "length ?now = 1" by code_simp
  then obtain c where c: "?now = [c]" by (auto simp: length_Suc_conv)
  then have "c \<in> set ?now" by simp
  then have "significant_drop sample_env sample_cfg [sample_observation] c"
    using detector_flags_soundly [of c sample_env sample_cfg "[sample_observation]" ?calls] by (auto simp: one_each_def)
  moreover have "fst (evaluate sample_env sample_cfg [sample_observation] newAnomalyDetector) = []" by code_simp
  ultimately show ?thesis using c by blast
qed

section \<open>The blackboard and the agents\<close>

text \<open>
  C30. Claims are current: in every reachable state a case has at most one live claim per role, and
  routing a revision leaves live exactly those claims of its case whose role reads none of the
  kinds of evidence that changed.
\<close>

theorem claims_are_current:
  assumes "reachable (w :: 'w itself) s"
  shows "length (filter (\<lambda>x. cm_case x = c \<and> cm_role x = r \<and> cm_status x = valid) (claims s)) \<le> 1
     \<and> filter (\<lambda>x. cm_case x = rv_caseId rvn \<and> cm_status x = valid) (claims (snd (Blackboard.route E now rvn s))) =
       filter (\<lambda>x. cm_case x = rv_caseId rvn \<and> cm_status x = valid
            \<and> set (rc_dependsOn (ROLE_REGISTRY (cm_role x))) \<inter> set (rv_changedKinds rvn) = {}) (claims s)"
proof -
  have "length (filter (live_claim c r) (claims s)) \<le> 1"
    using reachable_sys_inv [OF assms] by (simp add: sys_inv_def claim_inv_def)
  moreover have "live_claim c r = (\<lambda>x. cm_case x = c \<and> cm_role x = r \<and> cm_status x = valid)"
    by (simp add: fun_eq_iff live_claim_def)
  moreover have "filter (\<lambda>x. cm_role x \<in> set (rd_reused (route_plan (rv_changedKinds rvn) (map cm_role (claims_live (rv_caseId rvn) s)))))
       (claims_live (rv_caseId rvn) s) =
     filter (\<lambda>x. set (rc_dependsOn (ROLE_REGISTRY (cm_role x))) \<inter> set (rv_changedKinds rvn) = {}) (claims_live (rv_caseId rvn) s)"
    by (rule filter_cong) (simp_all add: route_plan_reused)
  ultimately show ?thesis using route_live [of rvn E now s]
    by (simp add: claims_live_def conj_commute conj_left_commute)
qed

theorem claims_are_current_witness:
  "length (filter (\<lambda>x. cm_case x = ''c1'' \<and> cm_role x = payment_diagnosis \<and> cm_status x = valid) (claims sample_open)) \<le> 1"
  using claims_are_current [OF sample_open_reachable, of "''c1''" payment_diagnosis] by blast

text \<open>
  C31. A role whose promise is rejected, or that is late, takes nothing with it: a run over distinct roles, on a case that
  exists and with unused identifiers, gives an outcome per role, reports each role as run or failed according to its own
  outcome, writes one row per role, gives each role that succeeded its claim as the only live one, and leaves the claims
  of every other role as they were. The one failure that does spread is the throw of the valuation of actions, which is
  called outside a promise: with it among the roles and throwing, the run rejects with that error and records nothing.
\<close>

theorem roles_fail_alone:
  assumes "has_case (sx_caseId x) s" and "fresh_ids ids 0 s" and "distinct roles"
  shows "if recovery_economics \<in> set roles \<and> isl (valueActions E x lib (sx_code x) allowed)
    then \<exists>w'. run_roles E lib tx provider md mc late now ids rvn roles x allowed (s, w)
        = (Inl (projl (valueActions E x lib (sx_code x) allowed)), (s, w'))
    else \<exists>outs w' res t. settle_all (invoke_role E lib tx provider md mc late x allowed) roles w = (Inr outs, w')
      \<and> map fst outs = roles
      \<and> run_roles E lib tx provider md mc late now ids rvn roles x allowed (s, w) = (Inr res, (t, w'))
      \<and> rn_ran res = filter (\<lambda>r. \<exists>v. map_of outs r = Some (Inr v)) roles
      \<and> map fst (rn_failed res) = filter (\<lambda>r. \<exists>e. map_of outs r = Some (Inl e)) roles
      \<and> (\<exists>new. agent_runs t = agent_runs s @ new \<and> map row_view new = map (run_row_of x rvn) outs)
      \<and> (\<forall>r v. map_of outs r = Some (Inr v) \<longrightarrow> map claim_view (live_of (sx_caseId x) r t) = [(rvn, claim_payload (so_claim v))])
      \<and> (\<forall>r. \<not> (\<exists>v. map_of outs r = Some (Inr v)) \<longrightarrow> live_of (sx_caseId x) r t = live_of (sx_caseId x) r s)"
proof (cases "recovery_economics \<in> set roles \<and> isl (valueActions E x lib (sx_code x) allowed)")
  case True
  then have "valueActions E x lib (sx_code x) allowed = Inl (projl (valueActions E x lib (sx_code x) allowed))" by simp
  from run_roles_throws [OF conjunct1 [OF True] this] show ?thesis unfolding if_P [OF True] .
next
  case False
  from settle_all_settles [OF False] obtain outs w' where
    outs: "settle_all (invoke_role E lib tx provider md mc late x allowed) roles w = (Inr outs, w')" .
  note run = run_roles_records [OF assms outs, where now = now and rvn = rvn]
  show ?thesis
    unfolding if_not_P [OF False]
    by (rule exI [of _ outs], rule exI [of _ w'], simp only: outs settle_all_roles [OF outs] simp_thms, rule run)
qed

definition sample_input :: SpecialistInput where
  "sample_input = \<lparr>sx_caseId = ''c1'', sx_domain = checkout_abandonment, sx_rail = card, sx_code = ''05'', sx_attemptNo = 0,
     sx_amountPaise = 500, sx_evidenceRefs = [''e1''], sx_customerReply = None, sx_priorContacts = 0, sx_optedOut = False,
     sx_language = lang_en, sx_incidentId = None, sx_segmentDegraded = None, sx_context = None\<rparr>"

abbreviation sample_ids :: "nat \<Rightarrow> string \<times> string" where
  "sample_ids n \<equiv> (replicate n CHR ''r'', replicate n CHR ''c'')"

text \<open>
  Without a provider the diagnosis of an unknown code fails; the customer context does not. A library that lists an action
  and forbids it makes the valuation throw, and the context is lost with it.
\<close>

definition forbidding_lib :: ActionLibrary where
  "forbidding_lib = sample_lib\<lparr>lib_forbidden := [(''link'', \<lparr>fb_id = ''link'', fb_reason = ''forbidden''\<rparr>)]\<rparr>"

theorem roles_fail_alone_witness:
  "(\<exists>res t. run_roles sample_env sample_lib \<lparr>tx_version = 1, tx_byRailCode = []\<rparr> None ''md'' ''mc'' (\<lambda>_. False) 40 sample_ids 1
      [payment_diagnosis, customer_context] sample_input [] (sample_open, ()) = (Inr res, (t, ()))
    \<and> rn_ran res = [customer_context] \<and> map fst (rn_failed res) = [payment_diagnosis])
   \<and> (\<exists>e. run_roles sample_env forbidding_lib \<lparr>tx_version = 1, tx_byRailCode = []\<rparr> None ''md'' ''mc'' (\<lambda>_. False) 40 sample_ids 1
      [customer_context, recovery_economics] sample_input [''link''] (sample_open, ()) = (Inl e, (sample_open, ())))"
proof
  let ?tx = "\<lparr>tx_version = 1, tx_byRailCode = []\<rparr>"
  let ?e = "ProviderUnavailableError ''none'' ''no provider configured''"
  let ?v = "map_claim context_claim (deterministic (base_context sample_input))"
  have outs: "settle_all (invoke_role sample_env sample_lib ?tx None ''md'' ''mc'' (\<lambda>_. False) sample_input [])
      [payment_diagnosis, customer_context] () = (Inr [(payment_diagnosis, Inl ?e), (customer_context, Inr ?v)], ())"
    by (simp add: invoke_role_def role_work_def diagnose_def classify_def readContext_def sample_input_def monad_simps)
  have known: "has_case (sx_caseId sample_input) sample_open" by code_simp
  have "agent_runs sample_open = []" "claims sample_open = []" by code_simp+
  then have fresh: "fresh_ids sample_ids 0 sample_open" by (auto simp: fresh_ids_def inj_def dest: arg_cong [of _ _ length])
  note alone = roles_fail_alone [OF known fresh]
  have calm: "\<not> (recovery_economics \<in> set [payment_diagnosis, customer_context]
      \<and> isl (valueActions sample_env sample_input sample_lib (sx_code sample_input) []))" by simp
  have d: "distinct [payment_diagnosis, customer_context]" by simp
  note one = alone [OF d, of sample_env sample_lib "[]" ?tx None "''md''" "''mc''" "\<lambda>_. False" 40 1 "()", unfolded if_not_P [OF calm] outs]
  show "\<exists>res t. run_roles sample_env sample_lib ?tx None ''md'' ''mc'' (\<lambda>_. False) 40 sample_ids 1
      [payment_diagnosis, customer_context] sample_input [] (sample_open, ()) = (Inr res, (t, ()))
    \<and> rn_ran res = [customer_context] \<and> map fst (rn_failed res) = [payment_diagnosis]"
  proof -
    from one obtain res t where "run_roles sample_env sample_lib ?tx None ''md'' ''mc'' (\<lambda>_. False) 40 sample_ids 1
        [payment_diagnosis, customer_context] sample_input [] (sample_open, ()) = (Inr res, (t, ()))
      \<and> rn_ran res = [customer_context] \<and> map fst (rn_failed res) = [payment_diagnosis]" by auto
    then show ?thesis by - (rule exI, rule exI, assumption)
  qed
  have "isl (valueActions sample_env sample_input forbidding_lib (sx_code sample_input) [''link''])" by code_simp
  then have throws: "recovery_economics \<in> set [customer_context, recovery_economics]
      \<and> isl (valueActions sample_env sample_input forbidding_lib (sx_code sample_input) [''link''])" by simp
  have d2: "distinct [customer_context, recovery_economics]" by simp
  note two = alone [OF d2, of sample_env forbidding_lib "[''link'']" ?tx None "''md''" "''mc''" "\<lambda>_. False" 40 1 "()", unfolded if_P [OF throws]]
  then show "\<exists>e. run_roles sample_env forbidding_lib ?tx None ''md'' ''mc'' (\<lambda>_. False) 40 sample_ids 1
      [customer_context, recovery_economics] sample_input [''link''] (sample_open, ()) = (Inl e, (sample_open, ()))" by auto
qed

end
