(* ===== verification/Scenario.thy ===== *)
theory Scenario
  imports Intent_Router
begin

text \<open>
  \<open>packages/sim/src/scenario.ts\<close>: the scenario of a simulated batch and the check of its distributions.
  The YAML reader is outside: its value is a record with the keys the code reads, the ones that
  may be missing being options. A distribution keeps the order of its keys. Shown here: a scenario
  that loads has distributions that sum to 1, up to the tolerance of the code.
\<close>

record Injection =
  ij_atHours :: rat
  ij_segment :: "(string \<times> string) list"
  ij_approvalDrop :: rat
  ij_durationMinutes :: rat

record ScenarioWorld =
  sw_naturalRecoveryRate :: rat
  sw_respondsToLink :: rat
  sw_fundsClearAfterHours :: int
  sw_optOutRate :: rat
  sw_disputeRate :: rat
  sw_replyRate :: rat
  sw_replyIntents :: "(CustomerIntent \<times> rat) list"

record Scenario =
  sn_seed :: int
  sn_merchant :: string
  sn_size :: int
  sn_domains :: "(Domain \<times> rat) list"
  sn_rails :: "(Rail \<times> rat) list"
  sn_causes :: "(string \<times> rat) list"
  sn_mu :: rat
  sn_sigma :: rat
  sn_world :: ScenarioWorld
  sn_holdout :: rat
  sn_windowDays :: int
  sn_naturalRecoveryWindowMs :: int
  sn_injections :: "Injection list"

record RawScenarioWorld =
  rw_natural_recovery_rate :: rat
  rw_responds_to_link :: rat
  rw_funds_clear_after_hours :: int
  rw_opt_out_rate :: rat
  rw_dispute_rate :: rat
  rw_reply_rate :: "rat option"
  rw_reply_intents :: "(CustomerIntent \<times> rat) list option"

record RawScenario =
  rx_seed :: int
  rx_merchant :: string
  rx_size :: int
  rx_domains :: "(Domain \<times> rat) list"
  rx_rails :: "(Rail \<times> rat) list"
  rx_causes :: "(string \<times> rat) list"
  rx_mu :: rat
  rx_sigma :: rat
  rx_world :: RawScenarioWorld
  rx_holdout :: rat
  rx_window_days :: int
  rx_natural_recovery_window_minutes :: int
  rx_injections :: "Injection list option"

definition dist_sum :: "env \<Rightarrow> rat list \<Rightarrow> rat" where
  "dist_sum E d = foldl (fadd E) 0 d"

text \<open>The distributions of the loop, by name, and the test of one of them.\<close>

definition distributions :: "RawScenario \<Rightarrow> (string \<times> rat list) list" where
  "distributions raw =
     [(''domains'', map snd (rx_domains raw)), (''rails'', map snd (rx_rails raw)), (''causes'', map snd (rx_causes raw))]"

definition check_distribution :: "env \<Rightarrow> string \<times> rat list \<Rightarrow> err + unit" where
  "check_distribution E d =
     (let total = dist_sum E (snd d) in
      if \<bar>fsub E total 1\<bar> > fl E (1/1000000)
      then Inl (Error (''scenario '' @ fst d @ '' distribution sums to '' @ num_str E total @ '', expected 1''))
      else Inr ())"

definition scenario_world :: "RawScenarioWorld \<Rightarrow> ScenarioWorld" where
  "scenario_world w =
     \<lparr>sw_naturalRecoveryRate = rw_natural_recovery_rate w, sw_respondsToLink = rw_responds_to_link w,
      sw_fundsClearAfterHours = rw_funds_clear_after_hours w, sw_optOutRate = rw_opt_out_rate w,
      sw_disputeRate = rw_dispute_rate w, sw_replyRate = dflt (rw_reply_rate w) 0,
      sw_replyIntents = dflt (rw_reply_intents w) []\<rparr>"

definition scenario_of :: "RawScenario \<Rightarrow> Scenario" where
  "scenario_of raw =
     \<lparr>sn_seed = rx_seed raw, sn_merchant = rx_merchant raw, sn_size = rx_size raw, sn_domains = rx_domains raw,
      sn_rails = rx_rails raw, sn_causes = rx_causes raw, sn_mu = rx_mu raw, sn_sigma = rx_sigma raw,
      sn_world = scenario_world (rx_world raw), sn_holdout = rx_holdout raw, sn_windowDays = rx_window_days raw,
      sn_naturalRecoveryWindowMs = rx_natural_recovery_window_minutes raw * 60000,
      sn_injections = dflt (rx_injections raw) []\<rparr>"

definition parseScenario :: "env \<Rightarrow> RawScenario \<Rightarrow> err + Scenario" where
  "parseScenario E raw =
     bindE (mapE (check_distribution E) (distributions raw)) (\<lambda>_. Inr (scenario_of raw))"

definition near_one :: "env \<Rightarrow> rat list \<Rightarrow> bool" where
  "near_one E ws \<longleftrightarrow> \<bar>fsub E (dist_sum E ws) 1\<bar> \<le> fl E (1/1000000)"

lemma check_distribution_Inr: "check_distribution E d = Inr u \<longleftrightarrow> near_one E (snd d)"
  by (simp add: check_distribution_def near_one_def Let_def not_less)

lemma parseScenario_Inr:
  "parseScenario E raw = Inr sc \<longleftrightarrow> sc = scenario_of raw
     \<and> near_one E (map snd (rx_domains raw)) \<and> near_one E (map snd (rx_rails raw)) \<and> near_one E (map snd (rx_causes raw))"
  by (auto simp: parseScenario_def distributions_def bindE_eq_Inr check_distribution_Inr)

text \<open>Under exact sums of doubles the empty distribution is refused, so that a key can be drawn.\<close>

lemma near_one_not_Nil:
  assumes "rounding (fl E)" and "near_one E ws" and "fl E (1/1000000) < 1"
  shows "ws \<noteq> []"
proof
  assume "ws = []"
  with assms(2) have "\<bar>fl E (0 - 1)\<bar> \<le> fl E (1/1000000)" by (simp add: near_one_def dist_sum_def fsub_def)
  moreover have "fl E (0 - 1) = - 1" using rounding_int [OF assms(1), of "- 1"] by simp
  ultimately show False using assms(3) by simp
qed

lemma parseScenario_keys:
  assumes "parseScenario E raw = Inr sc" and "rounding (fl E)" and "fl E (1/1000000) < 1"
  shows "sn_domains sc \<noteq> []" "sn_rails sc \<noteq> []" "sn_causes sc \<noteq> []"
  using near_one_not_Nil [OF assms(2) _ assms(3)] assms(1)
  by (auto simp: parseScenario_Inr scenario_of_def)

end
