(* ===== verification/Cohort.thy ===== *)
theory Cohort
  imports Scenario Attribution Taxonomy Simulated_PSP
begin

text \<open>
  \<open>packages/sim/src/cohort.ts\<close>: the synthetic cases of a scenario. The seeded generator is the state, and
  the draws are made in the order of the source. An index past the end of a list, which would leave
  \<open>undefined\<close> in a field, ends the generation with an error. Shown here: the cases are numbered without
  repetition, and no case has a code the taxonomy would read as another cause.
\<close>

record LatentState =
  lt_willPayRegardless :: bool
  lt_naturalPaymentAtMs :: "int option"
  lt_hasFundsAfterMs :: int
  lt_respondsToLink :: rat
  lt_cardExpired :: bool
  lt_mandateState :: LatentMandate
  lt_willOptOut :: bool
  lt_willDispute :: bool

text \<open>A property that may be missing is an option; \<open>mandateCapPaise\<close> may also be \<open>null\<close>.\<close>

record AmbiguousContext =
  am_mandateActive :: "bool option"
  am_mandateCapPaise :: "int option option"
  am_priorSuccesses :: int
  am_balanceSufficient :: bool
  am_segmentDegraded :: bool
  am_attemptedAmountPaise :: int
  am_cardExpired :: "bool option"

record SyntheticCase =
  sy_caseId :: string
  sy_customerId :: string
  sy_obligationId :: string
  sy_externalRef :: string
  sy_domain :: Domain
  sy_rail :: Rail
  sy_cause :: string
  sy_code :: string
  sy_amountPaise :: int
  sy_gateway :: string
  sy_issuer :: string
  sy_latent :: LatentState
  sy_ambiguous :: "AmbiguousContext option"

section \<open>Draws\<close>

type_synonym 'a rnd = "(rng, err, 'a) sem"

definition rand :: "rat rnd" where
  "rand = (\<lambda>r. case mulberry_next r of (d, r') \<Rightarrow> (Inr d, r'))"

definition chance :: "rat \<Rightarrow> bool rnd" where
  "chance p = bindM rand (\<lambda>d. retM (d < p))"

definition floor_mul :: "env \<Rightarrow> rat \<Rightarrow> rat \<Rightarrow> int" where
  "floor_mul E d x = \<lfloor>fmul E d x\<rfloor>"

text \<open>\<open>xs[Math.floor(rand() * xs.length)]!\<close>.\<close>

definition one_from :: "env \<Rightarrow> 'a list \<Rightarrow> 'a rnd" where
  "one_from E xs = bindM rand (\<lambda>d.
     let i = nat (floor_mul E d (of_nat (length xs)))
     in if i < length xs then retM (xs ! i) else throwM (Error ''undefined''))"

text \<open>\<open>pick\<close>: the keys with their weights, in order; the last key takes what rounding leaves over.\<close>

fun pick_key :: "env \<Rightarrow> rat \<Rightarrow> ('k \<times> rat) list \<Rightarrow> rat \<Rightarrow> 'k option" where
  "pick_key E acc [] r = None"
| "pick_key E acc ((key, weight) # kws) r =
     (let acc' = fadd E acc weight in if r < acc' then Some key else pick_key E acc' kws r)"

definition pick_weighted :: "env \<Rightarrow> ('k \<times> rat) list \<Rightarrow> rat \<Rightarrow> err + 'k" where
  "pick_weighted E kws r =
     (case pick_key E 0 kws r of
        Some key \<Rightarrow> Inr key
      | None \<Rightarrow> if kws = [] then Inl (Error ''undefined'') else Inr (fst (last kws)))"

definition draw_key :: "env \<Rightarrow> ('k \<times> rat) list \<Rightarrow> 'k rnd" where
  "draw_key E kws = bindM rand (\<lambda>d. liftE (pick_weighted E kws d))"

text \<open>\<open>Math.PI\<close> and the Box-Muller transform.\<close>

definition MATH_PI :: rat where
  "MATH_PI = 884279719003555 / 281474976710656"

definition lognormal :: "env \<Rightarrow> rat \<Rightarrow> rat \<Rightarrow> rat rnd" where
  "lognormal E mu sigma =
     bindM rand (\<lambda>d1. let u1 = max d1 (fl E (1/1000000000000)) in
     bindM rand (\<lambda>u2.
       let z = fmul E (js_sqrt E (fmul E (-2) (js_log E u1))) (js_cos E (fmul E (fmul E 2 MATH_PI) u2))
       in retM (js_exp E (fadd E mu (fmul E sigma z)))))"

section \<open>One case\<close>

definition GATEWAYS :: "string list" where
  "GATEWAYS = [''A'', ''B'']"

definition ISSUERS :: "string list" where
  "ISSUERS = [''HDFC'', ''ICICI'', ''SBI'', ''AXIS'']"

definition OPAQUE_CODES :: "string list" where
  "OPAQUE_CODES = [''05'', ''12'', ''13'', ''19'', ''41'', ''43'', ''51'', ''57'', ''58'', ''61'', ''62'', ''65'',
     ''75'', ''91'', ''96'', ''N7'', ''R0'', ''R1'', ''Z1'', ''Z3'', ''M01'', ''M02'', ''U29'',
     ''1A'', ''B2'', ''DN'', ''XS'', ''TO'', ''E04'', ''P18'']"

definition COHORT_MANDATE_RAILS :: "Rail list" where
  "COHORT_MANDATE_RAILS = [upi_autopay, enach]"

definition draw_ambiguous :: "env \<Rightarrow> Rail \<Rightarrow> AmbiguousContext rnd" where
  "draw_ambiguous E rail =
     (let onMandateRail = rail \<in> set COHORT_MANDATE_RAILS in
      bindM (if onMandateRail then chance (fl E (35/100)) else retM False) (\<lambda>capBreach.
      bindM rand (\<lambda>d.
      bindM (chance (fl E (55/100))) (\<lambda>balanceSufficient.
      bindM (chance (fl E (2/10))) (\<lambda>segmentDegraded.
      let facts = \<lparr>am_mandateActive = None, am_mandateCapPaise = None, am_priorSuccesses = floor_mul E d 4,
                   am_balanceSufficient = balanceSufficient, am_segmentDegraded = segmentDegraded,
                   am_attemptedAmountPaise = 0, am_cardExpired = None\<rparr> in
      if onMandateRail
      then bindM (chance (fl E (75/100))) (\<lambda>active.
             retM (facts\<lparr>am_mandateActive := Some active, am_mandateCapPaise := Some (if capBreach then Some 0 else None)\<rparr>))
      else bindM (if rail = card then chance (fl E (2/10)) else retM False) (\<lambda>cardExpired.
             retM (facts\<lparr>am_cardExpired := Some cardExpired\<rparr>)))))))"

text \<open>The cause, the code and, on the unmapped slice, the context.\<close>

definition draw_code ::
  "env \<Rightarrow> DeclineTaxonomy \<Rightarrow> Rail \<Rightarrow> string \<Rightarrow> (string \<times> string \<times> AmbiguousContext option) rnd" where
  "draw_code E taxonomy rail cause =
     (if cause = ''unmapped_code''
      then bindM (one_from E OPAQUE_CODES) (\<lambda>code.
           bindM (draw_ambiguous E rail) (\<lambda>ambiguous.
             retM (cause, code, Some ambiguous)))
      else bindM (if codesForCause taxonomy rail cause = [] then one_from E (causesFor taxonomy rail) else retM cause) (\<lambda>cause'.
           bindM (one_from E (codesForCause taxonomy rail cause')) (\<lambda>code.
             retM (cause', code, None))))"

definition fill_ambiguous :: "env \<Rightarrow> int \<Rightarrow> AmbiguousContext \<Rightarrow> AmbiguousContext rnd" where
  "fill_ambiguous E amountPaise a =
     (let a' = a\<lparr>am_attemptedAmountPaise := amountPaise\<rparr> in
      case am_mandateCapPaise a' of
        Some (Some _) \<Rightarrow> bindM rand (\<lambda>d.
          retM (a'\<lparr>am_mandateCapPaise :=
            Some (Some (floor_mul E (of_int amountPaise) (fadd E (fl E (4/10)) (fmul E d (fl E (4/10))))))\<rparr>))
      | _ \<Rightarrow> retM a')"

definition padStart5 :: "string \<Rightarrow> string" where
  "padStart5 s = replicate (5 - length s) (CHR ''0'') @ s"

definition draw_natural :: "env \<Rightarrow> int \<Rightarrow> bool \<Rightarrow> int option rnd" where
  "draw_natural E windowDays willPay =
     (if willPay
      then bindM rand (\<lambda>d. retM (Some (floor_mul E (fmul E d (of_int windowDays)) 86400000)))
      else retM None)"

text \<open>The rest of a case, once its cause and code are drawn.\<close>

definition generate_rest ::
  "env \<Rightarrow> Scenario \<Rightarrow> string \<Rightarrow> Domain \<Rightarrow> Rail \<Rightarrow> string \<Rightarrow> string \<Rightarrow> AmbiguousContext option \<Rightarrow> SyntheticCase rnd" where
  "generate_rest E sc i' dmn rail cause code ambiguous =
     (let world = sn_world sc in
      bindM (lognormal E (sn_mu sc) (sn_sigma sc)) (\<lambda>v. let amountPaise = js_round (fmul E v 100) in
      bindM (chance (sw_naturalRecoveryRate world)) (\<lambda>willPay.
      bindM (draw_natural E (sn_windowDays sc) willPay) (\<lambda>naturalAt.
      bindM (case ambiguous of None \<Rightarrow> retM None
             | Some a \<Rightarrow> bindM (fill_ambiguous E amountPaise a) (\<lambda>a'. retM (Some a'))) (\<lambda>filled.
      bindM (one_from E GATEWAYS) (\<lambda>gw.
      bindM (one_from E ISSUERS) (\<lambda>iss.
      bindM (chance (sw_optOutRate world)) (\<lambda>willOptOut.
      bindM (chance (sw_disputeRate world)) (\<lambda>willDispute.
        retM \<lparr>sy_caseId = ''c_'' @ i', sy_customerId = ''cu_'' @ i', sy_obligationId = ''ob_'' @ i',
              sy_externalRef = ''ext_'' @ i', sy_domain = dmn, sy_rail = rail, sy_cause = cause,
              sy_code = code, sy_amountPaise = amountPaise, sy_gateway = gw, sy_issuer = iss,
              sy_latent =
                \<lparr>lt_willPayRegardless = willPay, lt_naturalPaymentAtMs = naturalAt,
                 lt_hasFundsAfterMs = (if cause = ''insufficient_funds'' then sw_fundsClearAfterHours world * 3600000 else 0),
                 lt_respondsToLink = sw_respondsToLink world, lt_cardExpired = (cause = ''expired_card''),
                 lt_mandateState = (if cause = ''mandate_revoked'' then latent_revoked else latent_active),
                 lt_willOptOut = willOptOut, lt_willDispute = willDispute\<rparr>,
              sy_ambiguous = filled\<rparr>)))))))))"

definition generate_case :: "env \<Rightarrow> Scenario \<Rightarrow> DeclineTaxonomy \<Rightarrow> nat \<Rightarrow> SyntheticCase rnd" where
  "generate_case E sc taxonomy i =
     bindM (draw_key E (sn_domains sc)) (\<lambda>dmn.
     bindM (draw_key E (sn_rails sc)) (\<lambda>rail.
     bindM (draw_key E (sn_causes sc)) (\<lambda>drawn.
     bindM (draw_code E taxonomy rail drawn) (\<lambda>(cause, code, ambiguous).
       generate_rest E sc (padStart5 (nat_str i)) dmn rail cause code ambiguous))))"

fun generate_cases :: "env \<Rightarrow> Scenario \<Rightarrow> DeclineTaxonomy \<Rightarrow> nat \<Rightarrow> nat \<Rightarrow> SyntheticCase list rnd" where
  "generate_cases E sc taxonomy i 0 = retM []"
| "generate_cases E sc taxonomy i (Suc n) =
     bindM (generate_case E sc taxonomy i) (\<lambda>c.
     bindM (generate_cases E sc taxonomy (Suc i) n) (\<lambda>cs. retM (c # cs)))"

definition generateCohort :: "env \<Rightarrow> Scenario \<Rightarrow> DeclineTaxonomy \<Rightarrow> err + SyntheticCase list" where
  "generateCohort E sc taxonomy =
     fst (generate_cases E sc taxonomy 0 (nat (sn_size sc)) (mulberry32 (sn_seed sc)))"

section \<open>Every draw succeeds\<close>

text \<open>A statement that returns, from every state of the generator, a value that satisfies a condition.\<close>

definition always :: "('a \<Rightarrow> bool) \<Rightarrow> 'a rnd \<Rightarrow> bool" where
  "always P m \<longleftrightarrow> (\<forall>r. \<exists>x r'. m r = (Inr x, r') \<and> P x)"

named_theorems always_intros

lemma always_retM [always_intros]: "P x \<Longrightarrow> always P (retM x)"
  by (simp add: always_def monad_simps)

lemma always_bindM: "always Q m \<Longrightarrow> (\<And>x. Q x \<Longrightarrow> always P (f x)) \<Longrightarrow> always P (bindM m f)"
  unfolding always_def
proof
  fix r assume "\<forall>r. \<exists>x r'. m r = (Inr x, r') \<and> Q x" and f: "\<And>x. Q x \<Longrightarrow> \<forall>r. \<exists>y r'. f x r = (Inr y, r') \<and> P y"
  then obtain x r' where "m r = (Inr x, r')" "Q x" by blast
  with f [of x] show "\<exists>y r'. bindM m f r = (Inr y, r') \<and> P y" by (simp add: monad_simps)
qed

lemma always_if: "(b \<Longrightarrow> always P m) \<Longrightarrow> (\<not> b \<Longrightarrow> always P n) \<Longrightarrow> always P (if b then m else n)"
  by simp

lemma always_mono: "always Q m \<Longrightarrow> (\<And>x. Q x \<Longrightarrow> P x) \<Longrightarrow> always P m"
  unfolding always_def by blast

lemma always_rand: "always (\<lambda>d. 0 \<le> d \<and> d < 1) rand"
  using mulberry_range by (simp add: always_def rand_def case_prod_unfold)

lemma always_chance: "always (\<lambda>_. True) (chance p)"
  unfolding chance_def by (rule always_bindM [OF always_rand]) (intro always_intros TrueI)

lemma always_one_from:
  assumes "dyadic (fl E)" and "xs \<noteq> []" "length xs \<le> 2 ^ 20"
  shows "always (\<lambda>x. x \<in> set xs) (one_from E xs)"
  unfolding always_def
proof
  fix r
  have "nat \<lfloor>fmul E (fst (mulberry_next r)) (of_nat (length xs))\<rfloor> < length xs"
    using draw_index [OF assms(1), of "length xs" r] assms(2,3) by simp
  then show "\<exists>x r'. one_from E xs r = (Inr x, r') \<and> x \<in> set xs"
    by (simp add: one_from_def rand_def floor_mul_def monad_simps Let_def case_prod_unfold)
qed

lemma pick_key_mem: "pick_key E acc kws r = Some k \<Longrightarrow> k \<in> fst ` set kws"
  by (induction E acc kws r rule: pick_key.induct) (auto simp: Let_def split: if_splits)

lemma always_draw_key:
  assumes "kws \<noteq> []"
  shows "always (\<lambda>k. k \<in> fst ` set kws) (draw_key E kws)"
proof -
  have "\<exists>k. pick_weighted E kws d = Inr k \<and> k \<in> fst ` set kws" for d
    using assms pick_key_mem [of E 0 kws d] by (cases "pick_key E 0 kws d") (auto simp: pick_weighted_def)
  then show ?thesis
    unfolding draw_key_def
    by (intro always_bindM [OF always_rand]) (auto simp: always_def monad_simps)
qed

lemma always_lognormal: "always (\<lambda>_. True) (lognormal E mu sigma)"
  unfolding lognormal_def Let_def
  by (rule always_bindM [OF always_rand])+ (intro always_intros TrueI)

text \<open>The facts of an ambiguous case fit its rail: a mandate only where the rail carries one.\<close>

definition context_fits :: "Rail \<Rightarrow> AmbiguousContext \<Rightarrow> bool" where
  "context_fits rail a \<longleftrightarrow>
     (am_mandateActive a \<noteq> None) = (rail \<in> {upi_autopay, enach})
     \<and> (am_mandateCapPaise a \<noteq> None) = (rail \<in> {upi_autopay, enach})
     \<and> (am_cardExpired a \<noteq> None) = (rail \<notin> {upi_autopay, enach})
     \<and> (am_cardExpired a = Some True \<longrightarrow> rail = card)"

lemma always_ambiguous: "always (context_fits rail) (draw_ambiguous E rail)"
proof -
  have flag: "always (\<lambda>x. x \<longrightarrow> b) (if b then chance p else retM False)" for b p
    using always_chance [of p] by (auto intro: always_mono always_retM)
  show ?thesis
    unfolding draw_ambiguous_def Let_def
    by (rule always_bindM [OF flag], rule always_bindM [OF always_rand], (rule always_bindM [OF always_chance])+,
        rule always_if, rule always_bindM [OF always_chance], rule always_retM,
        simp add: context_fits_def COHORT_MANDATE_RAILS_def, rule always_bindM [OF flag], rule always_retM)
       (auto simp: context_fits_def COHORT_MANDATE_RAILS_def)
qed

lemma always_fill: "context_fits rail a \<Longrightarrow>
   always (\<lambda>b. context_fits rail b \<and> am_attemptedAmountPaise b = amount) (fill_ambiguous E amount a)"
  unfolding fill_ambiguous_def Let_def
  by (auto split: option.split intro!: always_bindM [OF always_rand] always_retM simp: context_fits_def)

text \<open>A rail of the scenario has entries in the taxonomy, and the lists are short enough to index.\<close>

definition taxonomy_covers :: "DeclineTaxonomy \<Rightarrow> Scenario \<Rightarrow> bool" where
  "taxonomy_covers tx sc \<longleftrightarrow> length (tx_entries tx) \<le> 2 ^ 20
     \<and> (\<forall>rail \<in> fst ` set (sn_rails sc). \<exists>e \<in> set (tx_entries tx). de_rail e = rail)"

definition code_fits :: "DeclineTaxonomy \<Rightarrow> Rail \<Rightarrow> string \<times> string \<times> AmbiguousContext option \<Rightarrow> bool" where
  "code_fits tx rail x = (case x of (cause, code, ambiguous) \<Rightarrow>
     (case ambiguous of
        None \<Rightarrow> \<exists>e \<in> set (tx_entries tx). de_rail e = rail \<and> de_cause e = cause \<and> de_code e = code
      | Some a \<Rightarrow> cause = ''unmapped_code'' \<and> code \<in> set OPAQUE_CODES \<and> context_fits rail a))"

lemma codesForCause_mem:
  "code \<in> set (codesForCause tx rail cause) \<longleftrightarrow>
     (\<exists>e \<in> set (tx_entries tx). de_rail e = rail \<and> de_cause e = cause \<and> de_code e = code)"
  by (auto simp: codesForCause_def)

lemma codesForCause_length: "length (codesForCause tx rail cause) \<le> length (tx_entries tx)"
  by (simp add: codesForCause_def)

lemma causesFor_mem: "cause \<in> set (causesFor tx rail) \<longleftrightarrow> (\<exists>e \<in> set (tx_entries tx). de_rail e = rail \<and> de_cause e = cause)"
  by (auto simp: causesFor_def)

lemma length_js_set_of: "length (js_set_of xs) \<le> length xs"
  by (induction xs) (auto intro: le_trans [OF length_filter_le])

lemma causesFor_length: "length (causesFor tx rail) \<le> length (tx_entries tx)"
  unfolding causesFor_def length_sort_by
  by (rule le_trans [OF length_js_set_of]) simp

lemma always_code:
  assumes f: "dyadic (fl E)" and covers: "taxonomy_covers tx sc" and rail: "rail \<in> fst ` set (sn_rails sc)"
  shows "always (code_fits tx rail) (draw_code E tx rail cause)"
proof -
  have small: "length (tx_entries tx) \<le> 2 ^ 20" using covers by (simp add: taxonomy_covers_def)
  obtain e where e: "e \<in> set (tx_entries tx)" "de_rail e = rail" using covers rail by (auto simp: taxonomy_covers_def)
  have causes: "causesFor tx rail \<noteq> []" "length (causesFor tx rail) \<le> 2 ^ 20"
    using e causesFor_mem [of "de_cause e" tx rail] causesFor_length [of tx rail] small by auto
  have opaque: "always (\<lambda>x. x \<in> set OPAQUE_CODES) (one_from E OPAQUE_CODES)"
    by (rule always_one_from [OF f]) (simp_all add: OPAQUE_CODES_def)
  have redrawn: "always (\<lambda>k. codesForCause tx rail k \<noteq> [])
      (if codesForCause tx rail cause = [] then one_from E (causesFor tx rail) else retM cause)"
  proof (rule always_if)
    show "always (\<lambda>k. codesForCause tx rail k \<noteq> []) (one_from E (causesFor tx rail))"
    proof (rule always_mono [OF always_one_from [OF f causes]])
      fix k assume "k \<in> set (causesFor tx rail)"
      then have "\<exists>code. code \<in> set (codesForCause tx rail k)"
        by (auto simp: causesFor_mem codesForCause_mem)
      then show "codesForCause tx rail k \<noteq> []" by auto
    qed
  qed (rule always_retM)
  have coded: "always (\<lambda>x. x \<in> set (codesForCause tx rail k)) (one_from E (codesForCause tx rail k))"
    if "codesForCause tx rail k \<noteq> []" for k
    using that codesForCause_length [of tx rail k] small by (intro always_one_from [OF f]) simp_all
  show ?thesis
    unfolding draw_code_def
  proof (rule always_if)
    assume "cause = ''unmapped_code''"
    then show "always (code_fits tx rail) (bindM (one_from E OPAQUE_CODES) (\<lambda>code.
        bindM (draw_ambiguous E rail) (\<lambda>ambiguous. retM (cause, code, Some ambiguous))))"
      by (intro always_bindM [OF opaque] always_bindM [OF always_ambiguous] always_retM) (simp add: code_fits_def)
  next
    show "always (code_fits tx rail)
      (bindM (if codesForCause tx rail cause = [] then one_from E (causesFor tx rail) else retM cause) (\<lambda>cause'.
       bindM (one_from E (codesForCause tx rail cause')) (\<lambda>code. retM (cause', code, None))))"
      by (intro always_bindM [OF redrawn] always_bindM [OF coded] always_retM)
         (auto simp: code_fits_def codesForCause_mem)
  qed
qed

section \<open>The cohort\<close>

definition case_fits :: "DeclineTaxonomy \<Rightarrow> Scenario \<Rightarrow> nat \<Rightarrow> SyntheticCase \<Rightarrow> bool" where
  "case_fits tx sc i c \<longleftrightarrow>
     sy_caseId c = ''c_'' @ padStart5 (nat_str i) \<and> sy_customerId c = ''cu_'' @ padStart5 (nat_str i)
     \<and> sy_obligationId c = ''ob_'' @ padStart5 (nat_str i) \<and> sy_externalRef c = ''ext_'' @ padStart5 (nat_str i)
     \<and> sy_domain c \<in> fst ` set (sn_domains sc) \<and> sy_rail c \<in> fst ` set (sn_rails sc)
     \<and> sy_gateway c \<in> set GATEWAYS \<and> sy_issuer c \<in> set ISSUERS
     \<and> code_fits tx (sy_rail c) (sy_cause c, sy_code c, sy_ambiguous c)
     \<and> (\<forall>a. sy_ambiguous c = Some a \<longrightarrow> am_attemptedAmountPaise a = sy_amountPaise c)
     \<and> (lt_naturalPaymentAtMs (sy_latent c) \<noteq> None) = lt_willPayRegardless (sy_latent c)"

lemma always_natural: "always (\<lambda>x. (x \<noteq> None) = willPay) (draw_natural E days willPay)"
  unfolding draw_natural_def
  by (rule always_if; (rule always_bindM [OF always_rand] | rule always_retM)+) auto

lemma always_filled:
  assumes "code_fits tx rail (cause, code, ambiguous)"
  shows "always (\<lambda>b. code_fits tx rail (cause, code, b) \<and> (\<forall>a. b = Some a \<longrightarrow> am_attemptedAmountPaise a = amount))
    (case ambiguous of None \<Rightarrow> retM None | Some a \<Rightarrow> bindM (fill_ambiguous E amount a) (\<lambda>a'. retM (Some a')))"
proof (cases ambiguous)
  case None
  with assms show ?thesis by (simp add: always_retM)
next
  case (Some a)
  with assms have "context_fits rail a" by (simp add: code_fits_def)
  from Some assms have "cause = ''unmapped_code''" "code \<in> set OPAQUE_CODES" by (simp_all add: code_fits_def)
  then show ?thesis
    unfolding Some option.case
    by (intro always_bindM [OF always_fill [OF \<open>context_fits rail a\<close>]] always_retM) (simp add: code_fits_def)
qed

lemma always_rest:
  assumes f: "dyadic (fl E)" and code: "code_fits tx rail (cause, code, ambiguous)"
    and mem: "dmn \<in> fst ` set (sn_domains sc)" "rail \<in> fst ` set (sn_rails sc)"
  shows "always (case_fits tx sc i) (generate_rest E sc (padStart5 (nat_str i)) dmn rail cause code ambiguous)"
proof -
  have gw: "always (\<lambda>x. x \<in> set GATEWAYS) (one_from E GATEWAYS)" and iss: "always (\<lambda>x. x \<in> set ISSUERS) (one_from E ISSUERS)"
    by (rule always_one_from [OF f]; simp add: GATEWAYS_def ISSUERS_def)+
  show ?thesis
    unfolding generate_rest_def Let_def
    by (rule always_bindM [OF always_lognormal], rule always_bindM [OF always_chance], rule always_bindM [OF always_natural],
        rule always_bindM [OF always_filled [OF code]], rule always_bindM [OF gw], rule always_bindM [OF iss],
        rule always_bindM [OF always_chance], rule always_bindM [OF always_chance], rule always_retM)
       (use mem in \<open>simp add: case_fits_def\<close>)
qed

lemma always_case:
  assumes f: "dyadic (fl E)" and covers: "taxonomy_covers tx sc"
    and keys: "sn_domains sc \<noteq> []" "sn_rails sc \<noteq> []" "sn_causes sc \<noteq> []"
  shows "always (case_fits tx sc i) (generate_case E sc tx i)"
  unfolding generate_case_def
proof (rule always_bindM [OF always_draw_key [OF keys(1)]], rule always_bindM [OF always_draw_key [OF keys(2)]],
    rule always_bindM [OF always_draw_key [OF keys(3)]], rule always_bindM [OF always_code [OF f covers]])
  fix dmn rail x
  assume "dmn \<in> fst ` set (sn_domains sc)" "rail \<in> fst ` set (sn_rails sc)" "code_fits tx rail x"
  then show "always (case_fits tx sc i)
      (case x of (cause, code, ambiguous) \<Rightarrow> generate_rest E sc (padStart5 (nat_str i)) dmn rail cause code ambiguous)"
    by (cases x) (simp add: always_rest [OF f])
qed

lemma generate_cases_fit:
  assumes "\<And>i. always (case_fits tx sc i) (generate_case E sc tx i)"
  shows "always (\<lambda>cs. length cs = n \<and> (\<forall>k < n. case_fits tx sc (i + k) (cs ! k))) (generate_cases E sc tx i n)"
proof (induction n arbitrary: i)
  case 0
  then show ?case by (simp add: always_retM)
next
  case (Suc n)
  show ?case
    unfolding generate_cases.simps
    by (rule always_bindM [OF assms], rule always_bindM [OF Suc.IH], rule always_retM)
       (auto simp: nth_Cons split: nat.split)
qed

lemma generateCohort_fits:
  assumes "dyadic (fl E)" and "taxonomy_covers tx sc"
    and "sn_domains sc \<noteq> []" "sn_rails sc \<noteq> []" "sn_causes sc \<noteq> []"
  shows "\<exists>cs. generateCohort E sc tx = Inr cs \<and> length cs = nat (sn_size sc) \<and> (\<forall>k < length cs. case_fits tx sc k (cs ! k))"
proof -
  have "always (\<lambda>cs. length cs = nat (sn_size sc) \<and> (\<forall>k < nat (sn_size sc). case_fits tx sc (0 + k) (cs ! k)))
      (generate_cases E sc tx 0 (nat (sn_size sc)))"
    by (rule generate_cases_fit, rule always_case [OF assms])
  then obtain cs r' where "generate_cases E sc tx 0 (nat (sn_size sc)) (mulberry32 (sn_seed sc)) = (Inr cs, r')"
      "length cs = nat (sn_size sc)" "\<forall>k < nat (sn_size sc). case_fits tx sc k (cs ! k)"
    unfolding always_def add_0 by blast
  then show ?thesis by (simp add: generateCohort_def)
qed

text \<open>Padding keeps the number, so that no two cases share an identifier.\<close>

lemma digits_value_zeros: "digits_value (replicate n (CHR ''0'') @ s) = digits_value s"
proof -
  have "fold (\<lambda>c n. 10 * n + (int (of_char c) - 48)) (replicate n (CHR ''0'')) 0 = 0"
    by (induction n) simp_all
  then show ?thesis by (simp add: digits_value_def)
qed

lemma padStart5_inject: "padStart5 (nat_str i) = padStart5 (nat_str j) \<longleftrightarrow> i = j"
  unfolding padStart5_def by (metis digits_value_nat_str digits_value_zeros of_nat_eq_iff)

lemma case_ids_distinct:
  assumes "\<forall>k < length cs. case_fits tx sc k (cs ! k)"
  shows "distinct (map sy_caseId cs)" "distinct (map sy_customerId cs)" "distinct (map sy_obligationId cs)"
    "distinct (map sy_externalRef cs)"
  using assms by (auto simp: distinct_conv_nth case_fits_def padStart5_inject)

text \<open>The taxonomy reads the code of a mapped case as its cause, and knows nothing of the others.\<close>

lemma code_fits_classify:
  assumes "taxonomy_wf tx" and "code_fits tx rail (cause, code, None)"
  shows "\<exists>k. classify tx rail code n = Some k \<and> cl_cause k = cause"
proof -
  from assms(2) obtain e where "e \<in> set (tx_entries tx)" "de_rail e = rail" "de_cause e = cause" "de_code e = code"
    by (auto simp: code_fits_def)
  then have "classify tx rail code n = Some (classification_of e n)" "cl_cause (classification_of e n) = cause"
    using classify_entry [OF assms(1), of rail code n "classification_of e n"] by (auto simp: classification_of_def)
  then show ?thesis by blast
qed

end
