(* ===== verification/World.thy ===== *)
theory World
  imports Cohort
begin

unbundle bit_operations_syntax

text \<open>
  \<open>packages/sim/src/world.ts\<close>: what the payment world does on its own, and the injected degradations. Shown
  here: over increasing instants every event is drained once, in order and in the first tick that reaches it.
\<close>

datatype world_kind = natural_payment | opt_out_event | dispute_event

record WorldEvent =
  wv_atMs :: int
  wv_kind :: world_kind
  wv_caseId :: string

record DegradationWindow =
  dg_fromMs :: rat
  dg_toMs :: rat
  dg_segment :: "(string \<times> string) list"
  dg_approvalDrop :: rat

record World =
  wo_events :: "WorldEvent list"
  wo_degradations :: "DegradationWindow list"
  wo_cursor :: nat
  wo_rand :: rng

text \<open>The events of one case; a draw is made only for the flags that are set.\<close>

definition day_event :: "env \<Rightarrow> rat \<Rightarrow> world_kind \<Rightarrow> string \<Rightarrow> rng \<Rightarrow> WorldEvent \<times> rng" where
  "day_event E days kind c r =
     (case mulberry_next r of (d, r') \<Rightarrow>
        (\<lparr>wv_atMs = floor_mul E (fmul E d days) 86400000, wv_kind = kind, wv_caseId = c\<rparr>, r'))"

definition events_of :: "env \<Rightarrow> SyntheticCase \<Rightarrow> rng \<Rightarrow> WorldEvent list \<times> rng" where
  "events_of E c r =
     (let lat = sy_latent c; i = sy_caseId c;
          natural = (case lt_naturalPaymentAtMs lat of None \<Rightarrow> []
                     | Some t \<Rightarrow> [\<lparr>wv_atMs = t, wv_kind = natural_payment, wv_caseId = i\<rparr>]);
          (outs, r1) = (if lt_willOptOut lat then (case day_event E 3 opt_out_event i r of (e, r') \<Rightarrow> ([e], r')) else ([], r));
          (disps, r2) = (if lt_willDispute lat then (case day_event E 5 dispute_event i r1 of (e, r') \<Rightarrow> ([e], r')) else ([], r1))
      in (natural @ outs @ disps, r2))"

fun all_events :: "env \<Rightarrow> SyntheticCase list \<Rightarrow> rng \<Rightarrow> WorldEvent list \<times> rng" where
  "all_events E [] r = ([], r)"
| "all_events E (c # cs) r = (let (es, r') = events_of E c r; (fs, r'') = all_events E cs r' in (es @ fs, r''))"

definition event_le :: "env \<Rightarrow> WorldEvent \<Rightarrow> WorldEvent \<Rightarrow> bool" where
  "event_le E a b \<longleftrightarrow> wv_atMs a < wv_atMs b \<or> (wv_atMs a = wv_atMs b \<and> locale_le E (wv_caseId a) (wv_caseId b))"

definition degradation_of :: "env \<Rightarrow> Injection \<Rightarrow> DegradationWindow" where
  "degradation_of E i =
     \<lparr>dg_fromMs = fmul E (ij_atHours i) 3600000,
      dg_toMs = fadd E (fmul E (ij_atHours i) 3600000) (fmul E (ij_durationMinutes i) 60000),
      dg_segment = ij_segment i, dg_approvalDrop = ij_approvalDrop i\<rparr>"

definition newWorld :: "env \<Rightarrow> SyntheticCase list \<Rightarrow> Injection list \<Rightarrow> int \<Rightarrow> World" where
  "newWorld E cases injections seed =
     (let (es, r) = all_events E cases (mulberry32 (sint ((of_int seed :: 32 word) XOR 0x5eed)))
      in \<lparr>wo_events = sort_by (event_le E) es, wo_degradations = map (degradation_of E) injections,
          wo_cursor = 0, wo_rand = r\<rparr>)"

definition drainUntil :: "int \<Rightarrow> World \<Rightarrow> WorldEvent list \<times> World" where
  "drainUntil elapsed w =
     (let due = takeWhile (\<lambda>e. wv_atMs e \<le> elapsed) (drop (wo_cursor w) (wo_events w))
      in (due, w\<lparr>wo_cursor := wo_cursor w + length due\<rparr>))"

fun startsWith :: "string \<Rightarrow> string \<Rightarrow> bool" where
  "startsWith [] s = True"
| "startsWith (p # ps) [] = False"
| "startsWith (p # ps) (c # cs) = (p = c \<and> startsWith ps cs)"

definition railMethod :: "string \<Rightarrow> string" where
  "railMethod rail = (if rail = ''card'' then ''card'' else if startsWith ''upi'' rail then ''upi'' else rail)"

definition segment_agrees :: "(string \<times> string) list \<Rightarrow> string \<Rightarrow> string \<Rightarrow> bool" where
  "segment_agrees seg key v \<longleftrightarrow> (case map_of seg key of None \<Rightarrow> True | Some x \<Rightarrow> x = v)"

definition degradedAt :: "int \<Rightarrow> SyntheticCase \<Rightarrow> World \<Rightarrow> DegradationWindow option" where
  "degradedAt elapsed c w =
     find (\<lambda>d. of_int elapsed \<ge> dg_fromMs d \<and> of_int elapsed < dg_toMs d
        \<and> segment_agrees (dg_segment d) ''gateway'' (sy_gateway c)
        \<and> segment_agrees (dg_segment d) ''issuer'' (sy_issuer c)
        \<and> segment_agrees (dg_segment d) ''method'' (railMethod (rail_str (sy_rail c)))) (wo_degradations w)"

definition totalEvents :: "World \<Rightarrow> nat" where
  "totalEvents w = length (wo_events w)"

section \<open>Every event once, in order, not early\<close>

text \<open>The batches of events drained at a list of instants.\<close>

fun drain_all :: "int list \<Rightarrow> World \<Rightarrow> WorldEvent list list \<times> World" where
  "drain_all [] w = ([], w)"
| "drain_all (t # ts) w = (let (due, w') = drainUntil t w; (rest, w'') = drain_all ts w' in (due # rest, w''))"

abbreviation events_left :: "World \<Rightarrow> WorldEvent list" where
  "events_left w \<equiv> drop (wo_cursor w) (wo_events w)"

lemma drainUntil_left:
  "events_left (snd (drainUntil t w)) = dropWhile (\<lambda>e. wv_atMs e \<le> t) (events_left w)"
  "fst (drainUntil t w) = takeWhile (\<lambda>e. wv_atMs e \<le> t) (events_left w)"
  by (simp_all add: drainUntil_def Let_def dropWhile_eq_drop add.commute)

definition by_time :: "WorldEvent list \<Rightarrow> bool" where
  "by_time es \<longleftrightarrow> sorted (map wv_atMs es)"

lemma by_time_takeWhile: "by_time es \<Longrightarrow> takeWhile (\<lambda>e. wv_atMs e \<le> t) es = filter (\<lambda>e. wv_atMs e \<le> t) es"
  by (induction es) (auto simp: by_time_def empty_filter_conv)

lemma by_time_dropWhile: "by_time es \<Longrightarrow> dropWhile (\<lambda>e. wv_atMs e \<le> t) es = filter (\<lambda>e. t < wv_atMs e) es"
proof (induction es)
  case (Cons e es)
  then show ?case
    by (cases "wv_atMs e \<le> t") (auto simp: by_time_def intro!: filter_True [symmetric])
qed simp

lemma by_time_filter: "by_time es \<Longrightarrow> by_time (filter P es)"
  by (induction es) (auto simp: by_time_def)

lemma total_preorder_lex:
  fixes f :: "'a \<Rightarrow> int"
  assumes "total_preorder le"
  shows "total_preorder (\<lambda>a b. f a < f b \<or> (f a = f b \<and> le a b))"
  using assms unfolding total_preorder_def
  by (metis less_trans not_less_iff_gr_or_eq)

lemma newWorld_by_time: "total_preorder (locale_le E) \<Longrightarrow> by_time (wo_events (newWorld E cs injs seed))"
proof -
  assume "total_preorder (locale_le E)"
  then have "total_preorder (\<lambda>a b. locale_le E (wv_caseId a) (wv_caseId b))"
    unfolding total_preorder_def by blast
  then have "total_preorder (event_le E)"
    unfolding event_le_def [abs_def] by (rule total_preorder_lex)
  from sorted_sort_by [OF this] have "sorted_wrt (event_le E) (wo_events (newWorld E cs injs seed))"
    by (simp add: newWorld_def split: prod.split)
  then show ?thesis
    unfolding by_time_def sorted_map by (rule sorted_wrt_mono_rel [rotated]) (auto simp: event_le_def)
qed

lemma newWorld_events:
  "set (wo_events (newWorld E cs injs seed)) = set (fst (all_events E cs (mulberry32 (sint ((of_int seed :: 32 word) XOR 0x5eed)))))"
  by (simp add: newWorld_def split: prod.split)

lemma drain_all_batches:
  assumes "by_time (events_left w)" and "sorted ts"
  shows "fst (drain_all ts w) = map (\<lambda>i. filter (\<lambda>e. wv_atMs e \<le> ts ! i \<and> (\<forall>j < i. ts ! j < wv_atMs e)) (events_left w)) [0..<length ts]"
  using assms
proof (induction ts arbitrary: w)
  case (Cons t ts)
  let ?w = "snd (drainUntil t w)"
  have left: "events_left ?w = filter (\<lambda>e. t < wv_atMs e) (events_left w)"
    unfolding drainUntil_left using Cons.prems(1) by (rule by_time_dropWhile)
  have "by_time (events_left ?w)" unfolding left using Cons.prems(1) by (rule by_time_filter)
  moreover have "sorted ts" using Cons.prems(2) by simp
  ultimately have "fst (drain_all ts ?w) = map (\<lambda>i. filter (\<lambda>e. wv_atMs e \<le> ts ! i \<and> (\<forall>j < i. ts ! j < wv_atMs e)) (events_left ?w)) [0..<length ts]"
    by (rule Cons.IH)
  moreover have "fst (drainUntil t w) = filter (\<lambda>e. wv_atMs e \<le> t) (events_left w)"
    unfolding drainUntil_left using Cons.prems(1) by (rule by_time_takeWhile)
  ultimately show ?case
    by (simp add: case_prod_unfold Let_def left All_less_Suc2 conj_ac upt_conv_Cons map_Suc_upt [symmetric] del: upt_Suc)
qed simp

end
