(* ===== verification/Batch_State.thy ===== *)
theory Batch_State
  imports World Agent_Runtime Claim_Cache System
begin

text \<open>
  \<open>packages/sim/src/runner.ts\<close>, the state of the batch and its helpers. The constants of the run (the scenario, the
  configuration, the merchant's policy, the cohort, the provider) are a record; what \<open>runBatch\<close> keeps in
  variables and maps is another, beside the data base. A JavaScript map is an association list in insertion
  order. Random identifiers come from a supply, and the instant of the virtual clock is an argument.
\<close>

section \<open>The constants of a run\<close>

datatype batch_arm = arm_full | arm_tier0_only

fun arm_str :: "batch_arm \<Rightarrow> string" where
  "arm_str arm_full = ''full''"
| "arm_str arm_tier0_only = ''tier0_only''"

record 'w batch_setup =
  bf_env :: env
  bf_scenario :: Scenario
  bf_arm :: batch_arm
  bf_policy :: Policy
  bf_library :: ActionLibrary
  bf_taxonomy :: DeclineTaxonomy
  bf_playbooks :: PlaybookTable
  bf_minter :: CapabilityMinter
  bf_cohort :: "SyntheticCase list"
  bf_t0 :: int
  bf_tickMs :: int
  bf_uuid :: "nat \<Rightarrow> string"
  bf_roles_provider :: "'w AgentProvider option"
  bf_reducer_provider :: "('w, Adjudication) LLMProvider option"
  bf_models :: ModelConfig
  bf_late :: "string \<Rightarrow> RoleId \<Rightarrow> bool"

section \<open>The variables of a run\<close>

record Counts =
  cn_attempts :: int
  cn_approvals :: int

record PendingSettlement =
  qs_atMs :: int
  qs_caseId :: string
  qs_idemKey :: string
  qs_amountPaise :: int

record PendingReply =
  qr_atMs :: int
  qr_caseId :: string
  qr_intent :: CustomerIntent

record BatchStats =
  bs_tier0 :: nat
  bs_tier1 :: nat
  bs_providerCalls :: nat
  bs_executed :: nat
  bs_planned :: nat
  bs_stepErrors :: nat
  bs_degraded :: nat
  bs_incidentsOpened :: nat
  bs_casesParked :: nat
  bs_optimized :: nat
  bs_playbookSubstituted :: nat
  bs_repliesInterpreted :: nat
  bs_rescheduledPastQuietHours :: nat
  bs_duplicatesSuppressed :: nat
  bs_promisesBroken :: nat
  bs_mandateSequenced :: nat
  bs_errorSamples :: "string list"

record 'w batch =
  bt_clock :: int
  bt_world :: World
  bt_psp :: simulator
  bt_release :: controller
  bt_detector :: AnomalyDetector
  bt_llm :: 'w
  bt_recoveredAt :: "(string \<times> int) list"
  bt_closed :: "string list"
  bt_settling :: "PendingSettlement list"
  bt_replies :: "PendingReply list"
  bt_remaining :: "(string \<times> PlanStep list) list"
  bt_attemptNos :: "(string \<times> int) list"
  bt_stats :: BatchStats
  bt_window :: "(string \<times> Counts) list"
  bt_baseline :: "(string \<times> Counts) list"
  bt_openIncidents :: "(string \<times> string \<times> SegmentKey) list"
  bt_ticks :: nat
  bt_members :: "(string \<times> string list) list"
  bt_next_uuid :: nat

definition newStats :: BatchStats where
  "newStats = \<lparr>bs_tier0 = 0, bs_tier1 = 0, bs_providerCalls = 0, bs_executed = 0, bs_planned = 0, bs_stepErrors = 0,
     bs_degraded = 0, bs_incidentsOpened = 0, bs_casesParked = 0, bs_optimized = 0, bs_playbookSubstituted = 0,
     bs_repliesInterpreted = 0, bs_rescheduledPastQuietHours = 0, bs_duplicatesSuppressed = 0,
     bs_promisesBroken = 0, bs_mandateSequenced = 0, bs_errorSamples = []\<rparr>"

definition newBatch :: "'w batch_setup \<Rightarrow> 'w \<Rightarrow> 'w batch" where
  "newBatch G llm =
     (let sc = bf_scenario G in
      \<lparr>bt_clock = bf_t0 G, bt_world = newWorld (bf_env G) (bf_cohort G) (sn_injections sc) (sn_seed sc),
       bt_psp = newSimulator (sn_seed sc),
       bt_release = \<lparr>ct_rand = mulberry32 (sn_seed sc), ct_inFlight = []\<rparr>,
       bt_detector = newAnomalyDetector, bt_llm = llm, bt_recoveredAt = [], bt_closed = [], bt_settling = [],
       bt_replies = [], bt_remaining = [], bt_attemptNos = [], bt_stats = newStats, bt_window = [], bt_baseline = [],
       bt_openIncidents = [], bt_ticks = 0, bt_members = [], bt_next_uuid = 0\<rparr>)"

section \<open>Statements of the batch\<close>

type_synonym ('w, 'a) bm = "('w batch, 'a) iom"

definition look :: "('w batch \<Rightarrow> 'a) \<Rightarrow> ('w, 'a) bm" where
  "look f = on_world (readM f)"

definition change :: "('w batch \<Rightarrow> 'w batch) \<Rightarrow> ('w, unit) bm" where
  "change f = on_world (modifyM f)"

definition count :: "(BatchStats \<Rightarrow> BatchStats) \<Rightarrow> ('w, unit) bm" where
  "count f = change (\<lambda>b. b\<lparr>bt_stats := f (bt_stats b)\<rparr>)"

text \<open>A statement on the data base and one component of the batch.\<close>

definition on_part ::
  "('w batch \<Rightarrow> 'x) \<Rightarrow> ('x \<Rightarrow> 'w batch \<Rightarrow> 'w batch) \<Rightarrow> ('x, 'a) iom \<Rightarrow> ('w, 'a) bm" where
  "on_part get put m = (\<lambda>(s, b). case m (s, get b) of (r, (s', x)) \<Rightarrow> (r, (s', put x b)))"

definition uuid :: "'w batch_setup \<Rightarrow> ('w, string) bm" where
  "uuid G = bindM (look (\<lambda>b. bf_uuid G (bt_next_uuid b))) (\<lambda>u.
     thenM (change (\<lambda>b. b\<lparr>bt_next_uuid := bt_next_uuid b + 1\<rparr>)) (retM u))"

lemma look_app [monad_simps]: "look f (s, b) = (Inr (f b), (s, b))"
  by (simp add: look_def on_world_app monad_simps)

lemma change_app [monad_simps]: "change f (s, b) = (Inr (), (s, f b))"
  by (simp add: change_def on_world_app monad_simps)

lemma count_app [monad_simps]: "count f (s, b) = (Inr (), (s, b\<lparr>bt_stats := f (bt_stats b)\<rparr>))"
  by (simp add: count_def monad_simps)

lemma on_part_app [monad_simps]:
  "on_part get put m (s, b) = (fst (m (s, get b)), (fst (snd (m (s, get b))), put (snd (snd (m (s, get b)))) b))"
  by (simp add: on_part_def split: prod.split)

lemma uuid_app [monad_simps]:
  "uuid G (s, b) = (Inr (bf_uuid G (bt_next_uuid b)), (s, b\<lparr>bt_next_uuid := bt_next_uuid b + 1\<rparr>))"
  by (simp add: uuid_def monad_simps)

definition close_in_memory :: "string \<Rightarrow> ('w, unit) bm" where
  "close_in_memory c = change (\<lambda>b. b\<lparr>bt_closed := List.insert c (bt_closed b), bt_remaining := AList.delete c (bt_remaining b)\<rparr>)"

definition drop_plan :: "string \<Rightarrow> ('w, unit) bm" where
  "drop_plan c = change (\<lambda>b. b\<lparr>bt_remaining := AList.delete c (bt_remaining b)\<rparr>)"

definition set_plan :: "string \<Rightarrow> PlanStep list \<Rightarrow> ('w, unit) bm" where
  "set_plan c steps = change (\<lambda>b. b\<lparr>bt_remaining := AList.update c steps (bt_remaining b)\<rparr>)"

definition plan_of :: "string \<Rightarrow> 'w batch \<Rightarrow> PlanStep list option" where
  "plan_of c b = map_of (bt_remaining b) c"

definition log_ledger :: "int \<Rightarrow> string \<Rightarrow> string \<Rightarrow> string \<Rightarrow> params \<Rightarrow> ('w, unit) bm" where
  "log_ledger now c actor ty payload = on_db (ledger_append now c actor ty payload)"

definition log_event :: "int \<Rightarrow> string \<Rightarrow> CaseEvent \<Rightarrow> string \<Rightarrow> ('w, unit) bm" where
  "log_event now c ev src = on_db (thenM (event_append now c ev src) (retM ()))"

definition case_state :: "string \<Rightarrow> ('w, CaseState option) bm" where
  "case_state c = on_db (readM (\<lambda>s. map_option cs_state (case_of s c)))"

end
