(* ===== verification/Batch_Plan.thy ===== *)
theory Batch_Plan
  imports Batch_State
begin

text \<open>
  \<open>packages/sim/src/runner.ts\<close>, the planning of a case: \<open>plan\<close>, \<open>startPlan\<close>, \<open>advancePlan\<close> and their helpers.
  The workers of phase A plan distinct cases; here they do so in the order of the cohort.
\<close>

section \<open>Helpers\<close>

definition permitted_actions :: "'w batch_setup \<Rightarrow> SyntheticCase \<Rightarrow> string list" where
  "permitted_actions G sc = dflt (map_of (po_allowedActions (bf_policy G)) (rail_str (sy_rail sc))) []"

definition genericFallback :: "'w batch_setup \<Rightarrow> SyntheticCase \<Rightarrow> string option" where
  "genericFallback G sc =
     find (\<lambda>candidate. candidate \<in> set (permitted_actions G sc))
       [''create_payment_link'', ''send_approved_template'', ''create_ops_escalation'']"

definition to_upper :: "char \<Rightarrow> char" where
  "to_upper c = (if (of_char c :: nat) \<in> {97..122} then char_of ((of_char c :: nat) - 32) else c)"

definition defaultParams :: "string \<Rightarrow> SyntheticCase \<Rightarrow> params" where
  "defaultParams actionId sc =
     (if actionId = ''create_payment_link''
      then [(''amount'', JInt (sy_amountPaise sc)), (''currency'', JStr ''INR''), (''expiry_hours'', JInt 72)]
      else if actionId = ''send_approved_template''
      then [(''template_id'', JStr ''WA_GENERIC_DUE''), (''language'', JStr ''en''), (''slots'', JObj []), (''channel'', JStr ''whatsapp'')]
      else if actionId = ''request_payment_method_update''
      then [(''reason_code'', JStr (map to_upper (sy_cause sc))), (''channel'', JStr ''whatsapp'')]
      else if actionId = ''resume_checkout''
      then [(''session_ref'', JStr (sy_externalRef sc)), (''preserve_cart'', JBool True)]
      else if actionId = ''create_ops_escalation''
      then [(''queue'', JStr ''collections''), (''sla_hours'', JInt 24), (''summary_ref'', JStr (sy_caseId sc))]
      else [])"

definition default_step :: "string \<Rightarrow> SyntheticCase \<Rightarrow> PlanStep" where
  "default_step actionId sc = \<lparr>ps_actionId = actionId, ps_params = defaultParams actionId sc\<rparr>"

definition ambiguous_params :: "AmbiguousContext \<Rightarrow> params" where
  "ambiguous_params a =
     [(''priorSuccesses'', JInt (am_priorSuccesses a)), (''balanceSufficient'', JBool (am_balanceSufficient a)),
      (''segmentDegraded'', JBool (am_segmentDegraded a)), (''attemptedAmountPaise'', JInt (am_attemptedAmountPaise a))]
     @ opt_prop ''mandateActive'' (map_option JBool (am_mandateActive a))
     @ opt_prop ''mandateCapPaise'' (map_option (\<lambda>z. case z of None \<Rightarrow> JNull | Some n \<Rightarrow> JInt n) (am_mandateCapPaise a))
     @ opt_prop ''cardExpired'' (map_option JBool (am_cardExpired a))"

definition specialistInput :: "SyntheticCase \<Rightarrow> string list \<Rightarrow> params option \<Rightarrow> SpecialistInput" where
  "specialistInput sc refs context =
     \<lparr>sx_caseId = sy_caseId sc, sx_domain = sy_domain sc, sx_rail = sy_rail sc, sx_code = sy_code sc, sx_attemptNo = 0,
      sx_amountPaise = sy_amountPaise sc, sx_evidenceRefs = refs, sx_customerReply = None, sx_priorContacts = 0,
      sx_optedOut = False, sx_language = lang_en, sx_incidentId = None, sx_segmentDegraded = None, sx_context = context\<rparr>"

abbreviation case_context :: "SyntheticCase \<Rightarrow> params option" where
  "case_context sc \<equiv> map_option ambiguous_params (sy_ambiguous sc)"

abbreviation evidence_id :: "SyntheticCase \<Rightarrow> string" where
  "evidence_id sc \<equiv> ''ev_'' @ sy_caseId sc"

abbreviation context_evidence_id :: "SyntheticCase \<Rightarrow> string" where
  "context_evidence_id sc \<equiv> ''ev_ctx_'' @ sy_caseId sc"

text \<open>\<open>recordDiagnosis\<close> and the update of the stratum.\<close>

definition recordDiagnosis :: "SyntheticCase \<Rightarrow> string \<Rightarrow> nat \<Rightarrow> ('w, unit) bm" where
  "recordDiagnosis sc cause tier = on_db (label_case (sy_caseId sc) (\<lambda>(_, l).
     (tier, l\<lparr>lb_cause := Some cause, lb_rail := Some (rail_str (sy_rail sc)), lb_gateway := Some (sy_gateway sc),
              lb_issuer := Some (sy_issuer sc)\<rparr>)))"

definition recordStratum :: "SyntheticCase \<Rightarrow> string \<Rightarrow> ('w, unit) bm" where
  "recordStratum sc stratum = on_db (label_case (sy_caseId sc) (\<lambda>(tier, l). (tier, l\<lparr>lb_stratum := Some stratum\<rparr>)))"

section \<open>The next step of a plan\<close>

text \<open>\<open>params.delay_hours ?? params.expected_at_hours ?? 24\<close>, where \<open>null\<close> counts as missing.\<close>

fun nullish :: "json option \<Rightarrow> json option" where
  "nullish (Some JNull) = None"
| "nullish v = v"

definition wait_hours :: "env \<Rightarrow> params \<Rightarrow> rat option" where
  "wait_hours E ps =
     (case nullish (map_of ps ''delay_hours'') of
        Some v \<Rightarrow> js_number_of E (Some v)
      | None \<Rightarrow> (case nullish (map_of ps ''expected_at_hours'') of
          Some v \<Rightarrow> js_number_of E (Some v)
        | None \<Rightarrow> Some 24))"

text \<open>Addition of numbers that may be NaN (\<open>None\<close>).\<close>

definition nan_add_hours :: "env \<Rightarrow> rat option \<Rightarrow> rat option \<Rightarrow> rat option" where
  "nan_add_hours E extra hours =
     (case (extra, hours) of (Some t, Some h) \<Rightarrow> Some (fadd E t (fmul E h (of_int HOUR))) | _ \<Rightarrow> None)"

text \<open>
  The loop of \<open>advancePlan\<close>: schedule steps are taken off the plan and their delays added, up to the first step
  that acts. \<open>None\<close> is the early return of a plan that ends in a schedule step.
\<close>

fun next_acting ::
  "env \<Rightarrow> ActionLibrary \<Rightarrow> string \<Rightarrow> rat option \<Rightarrow> PlanStep \<Rightarrow> PlanStep list \<Rightarrow> ('w, (PlanStep \<times> rat option) option) bm" where
  "next_acting E lib c extra nxt [] =
     bindM (liftE (lib_get lib (ps_actionId nxt))) (\<lambda>action.
       if ad_kind action = schedule then retM None else retM (Some (nxt, extra)))"
| "next_acting E lib c extra nxt (step # steps) =
     bindM (liftE (lib_get lib (ps_actionId nxt))) (\<lambda>action.
       if ad_kind action = schedule
       then thenM (set_plan c steps)
                  (next_acting E lib c (nan_add_hours E extra (wait_hours E (ps_params nxt))) step steps)
       else retM (Some (nxt, extra)))"

text \<open>The instant \<open>new Date(now + extra)\<close>, a whole number of milliseconds; one that is not a number is refused by the
  data base.\<close>

definition fire_time :: "env \<Rightarrow> int \<Rightarrow> rat option \<Rightarrow> err + int" where
  "fire_time E now extra =
     (case extra of
        None \<Rightarrow> Inl (Error ''invalid input syntax for type timestamp with time zone'')
      | Some d \<Rightarrow> (let t = fadd E (of_int now) d in Inr (if t < 0 then \<lceil>t\<rceil> else \<lfloor>t\<rfloor>)))"

definition schedule_step :: "'w batch_setup \<Rightarrow> int \<Rightarrow> SyntheticCase \<Rightarrow> PlanStep \<Rightarrow> rat option \<Rightarrow> ('w, unit) bm" where
  "schedule_step G now sc nxt extra =
     bindM (liftE (fire_time (bf_env G) now extra)) (\<lambda>fireAt.
     bindM (look (\<lambda>b. dflt (map_of (bt_attemptNos b) (sy_caseId sc)) 0)) (\<lambda>attemptNo.
     thenM (on_db (sched_schedule now
              \<lparr>sr_caseId = sy_caseId sc, sr_obligationId = sy_obligationId sc, sr_fireAt = fireAt,
               sr_actionRef = \<lparr>rf_actionId = ps_actionId nxt, rf_params = ps_params nxt, rf_attemptNo = attemptNo\<rparr>\<rparr>))
           (log_event now (sy_caseId sc) (action_scheduled (ps_actionId nxt) (to_iso (bf_env G) fireAt)) ''runner'')))"

definition advancePlan :: "'w batch_setup \<Rightarrow> int \<Rightarrow> SyntheticCase \<Rightarrow> int \<Rightarrow> ('w, unit) bm" where
  "advancePlan G now sc delayMs =
     bindM (look (plan_of (sy_caseId sc))) (\<lambda>steps.
       case steps of
         None \<Rightarrow> retM ()
       | Some [] \<Rightarrow> retM ()
       | Some (step # rest) \<Rightarrow>
           thenM (set_plan (sy_caseId sc) rest)
          (bindM (next_acting (bf_env G) (bf_library G) (sy_caseId sc) (Some (of_int delayMs)) step rest) (\<lambda>found.
             case found of None \<Rightarrow> retM () | Some (nxt, extra) \<Rightarrow> schedule_step G now sc nxt extra)))"

definition startPlan :: "'w batch_setup \<Rightarrow> int \<Rightarrow> SyntheticCase \<Rightarrow> PlanStep list \<Rightarrow> nat \<Rightarrow> int \<Rightarrow> ('w, unit) bm" where
  "startPlan G now sc steps tier startDelayMs =
     bindM (look (\<lambda>b. sy_caseId sc \<in> set (bt_closed b))) (\<lambda>closed.
       if steps = [] \<or> closed then retM ()
       else bindM (case_state (sy_caseId sc)) (\<lambda>current.
         case current of
           None \<Rightarrow> retM ()
         | Some st \<Rightarrow>
             if \<not> canTransition st DIAGNOSING then retM ()
             else thenM (count (\<lambda>z. z\<lparr>bs_planned := bs_planned z + 1\<rparr>))
                 (thenM (set_plan (sy_caseId sc) steps)
                 (thenM (change (\<lambda>b. b\<lparr>bt_attemptNos := AList.update (sy_caseId sc) 0 (bt_attemptNos b)\<rparr>))
                 (thenM (log_event now (sy_caseId sc) (diagnosis_started tier) ''runner'')
                 (thenM (log_event now (sy_caseId sc) (plan_proposed 1) ''runner'')
                        (advancePlan G now sc startDelayMs)))))))"

section \<open>Tier 0\<close>

fun hardness_str :: "Hardness \<Rightarrow> string" where
  "hardness_str hard = ''hard''"
| "hardness_str soft = ''soft''"

definition tier0_resolve :: "'w batch_setup \<Rightarrow> SyntheticCase \<Rightarrow> Tier0Outcome" where
  "tier0_resolve G sc =
     resolve (bf_taxonomy G) (bf_playbooks G) (fl (bf_env G) (75/100))
       \<lparr>ti_domain = sy_domain sc, ti_rail = sy_rail sc, ti_code = sy_code sc, ti_attemptNo = 0\<rparr>"

definition write_claim :: "'w batch_setup \<Rightarrow> int \<Rightarrow> SyntheticCase \<Rightarrow> RoleId \<Rightarrow> rat option \<Rightarrow> params \<Rightarrow> ('w, unit) bm" where
  "write_claim G now sc role confidence payload =
     bindM (uuid G) (\<lambda>u. on_db (writeClaim now
       \<lparr>wc_id = u, wc_caseId = sy_caseId sc, wc_revision = 1, wc_role = role, wc_confidence = confidence,
        wc_payload = payload, wc_evidenceRefs = Some [evidence_id sc], wc_agentRunId = None\<rparr>))"

text \<open>The diagnosis and the context Tier 0 leaves on the blackboard.\<close>

definition tier0_claims :: "'w batch_setup \<Rightarrow> int \<Rightarrow> SyntheticCase \<Rightarrow> Classification \<Rightarrow> ('w, unit) bm" where
  "tier0_claims G now sc k =
     thenM (write_claim G now sc payment_diagnosis (Some (cl_confidence k))
              [(''primaryCause'', JStr (cl_cause k)), (''ruleId'', JStr (cl_ruleId k)),
               (''hardness'', JStr (hardness_str (cl_hardness k))), (''retryPermitted'', JBool (cl_retryPermitted k)),
               (''tier'', JInt 0)])
    (thenM (recordDiagnosis sc (cl_cause k) 0)
           (write_claim G now sc customer_context None
              [(''intent'', JStr ''unknown''), (''optedOut'', JBool False), (''language'', JStr ''en''),
               (''priorContacts'', JInt 0), (''tier'', JInt 0)]))"

definition mandate_facts :: "SyntheticCase \<Rightarrow> MandateFacts" where
  "mandate_facts sc =
     \<lparr>mf_rail = sy_rail sc,
      mf_state = (case lt_mandateState (sy_latent sc) of
        latent_revoked \<Rightarrow> mandate_revoked | latent_paused \<Rightarrow> mandate_paused | latent_active \<Rightarrow> mandate_active),
      mf_capPaise = (case sy_ambiguous sc of None \<Rightarrow> None | Some a \<Rightarrow> dflt (am_mandateCapPaise a) None),
      mf_amountPaise = sy_amountPaise sc, mf_preDebitNotifiedAt = None, mf_attemptNo = 0, mf_nextPresentationAt = None\<rparr>"

definition sequenced_step :: "SequencedStep \<Rightarrow> PlanStep" where
  "sequenced_step st = \<lparr>ps_actionId = sq_actionId st, ps_params = sq_params st\<rparr>"

text \<open>The steps of the mandate sequencer, before those of the playbook or in their place.\<close>

definition mandate_steps :: "'w batch_setup \<Rightarrow> int \<Rightarrow> SyntheticCase \<Rightarrow> Plan \<Rightarrow> PlanStep list option" where
  "mandate_steps G now sc plan =
     (let permitted = permitted_actions G sc; mplan = sequence now (mandate_facts sc);
          usable = filter (\<lambda>st. sq_actionId st \<in> set permitted) (ms_steps mplan) in
      if sy_rail sc \<notin> {upi_autopay, enach} \<or> usable = [] then None
      else Some (if ms_permitted mplan
                 then map sequenced_step usable @ filter (\<lambda>st. ps_actionId st \<in> set permitted) (pl_steps plan)
                 else map sequenced_step usable))"

definition log_mandate :: "int \<Rightarrow> SyntheticCase \<Rightarrow> ('w, unit) bm" where
  "log_mandate now sc =
     (let mplan = sequence now (mandate_facts sc) in
      thenM (count (\<lambda>z. z\<lparr>bs_mandateSequenced := bs_mandateSequenced z + 1\<rparr>))
            (log_ledger now (sy_caseId sc) ''mandate_sequencer'' ''mandate_sequenced''
               [(''permitted'', JBool (ms_permitted mplan)), (''blockedBy'', jopt (ms_blockedBy mplan)),
                (''steps'', JArr (map (\<lambda>st. JObj [(''action'', JStr (sq_actionId st)), (''because'', JStr (sq_because st))]) (ms_steps mplan)))]))"

definition playbook_permitted :: "'w batch_setup \<Rightarrow> SyntheticCase \<Rightarrow> Plan \<Rightarrow> bool" where
  "playbook_permitted G sc plan =
     (case pl_steps plan of [] \<Rightarrow> False | first # _ \<Rightarrow> ps_actionId first \<in> set (permitted_actions G sc))"

definition tier0_steps :: "'w batch_setup \<Rightarrow> int \<Rightarrow> SyntheticCase \<Rightarrow> Plan \<Rightarrow> OptimizerResult \<Rightarrow> PlanStep list" where
  "tier0_steps G now sc plan ranked =
     (case mandate_steps G now sc plan of
        Some steps \<Rightarrow> steps
      | None \<Rightarrow>
          if playbook_permitted G sc plan then pl_steps plan
          else (case os_selected ranked of
                  Some s \<Rightarrow> [default_step (en_actionId (sc_candidate s)) sc]
                | None \<Rightarrow> []))"

definition rejection_json :: "OptimizerRejection \<Rightarrow> json" where
  "rejection_json r = JObj [(''actionId'', JStr (or_actionId r)), (''why'', JStr (or_why r))]"

definition log_tier0 :: "'w batch_setup \<Rightarrow> int \<Rightarrow> SyntheticCase \<Rightarrow> Classification \<Rightarrow> Plan \<Rightarrow> OptimizerResult \<Rightarrow> ('w, unit) bm" where
  "log_tier0 G now sc k plan ranked =
     thenM (log_ledger now (sy_caseId sc) ''tier0'' ''plan_selected''
              [(''ruleId'', JStr (pl_ruleId plan)), (''cause'', JStr (cl_cause k)),
               (''confidence'', JNum (cl_confidence k)), (''tier'', JInt 0)])
           (log_ledger now (sy_caseId sc) ''optimizer'' ''plan_optimized''
              [(''chosen'', case tier0_steps G now sc plan ranked of [] \<Rightarrow> JNull | st # _ \<Rightarrow> JStr (ps_actionId st)),
               (''chosenBy'', JStr (if playbook_permitted G sc plan then ''playbook'' else ''optimizer_substitution'')),
               (''playbookAction'', case pl_steps plan of [] \<Rightarrow> JNull | st # _ \<Rightarrow> JStr (ps_actionId st)),
               (''ranked'', JArr (map (\<lambda>r. JObj [(''actionId'', JStr (en_actionId (sc_candidate r))),
                  (''ev'', JInt (en_expectedValuePaise (sc_candidate r))), (''rank'', JInt (int (sc_rank r)))]) (os_ranked ranked))),
               (''rejected'', JArr (map rejection_json (os_rejected ranked)))])"

definition rank_actions ::
  "'w batch_setup \<Rightarrow> SyntheticCase \<Rightarrow> params option \<Rightarrow> string \<Rightarrow> int \<Rightarrow> int \<Rightarrow> err + OptimizerResult" where
  "rank_actions G sc context cause priorContacts modelSpend =
     (let permitted = permitted_actions G sc in
      bindE (valueActions (bf_env G) (specialistInput sc [evidence_id sc] context) (bf_library G) cause permitted) (\<lambda>economics.
        Inr (optimizer_rank (bf_env G) (bf_library G) CONTACT_FATIGUE (ek_candidates (so_claim economics))
               \<lparr>oc_permitted = permitted, oc_priorContacts = priorContacts, oc_modelSpendPaise = modelSpend\<rparr>)))"

definition plan_tier0 :: "'w batch_setup \<Rightarrow> int \<Rightarrow> SyntheticCase \<Rightarrow> int \<Rightarrow> Classification \<Rightarrow> Plan \<Rightarrow> ('w, unit) bm" where
  "plan_tier0 G now sc startDelayMs k plan =
     thenM (count (\<lambda>z. z\<lparr>bs_tier0 := bs_tier0 z + 1\<rparr>))
    (thenM (tier0_claims G now sc k)
    (bindM (liftE (rank_actions G sc (case_context sc) (cl_cause k) 0 0)) (\<lambda>ranked.
     thenM (if mandate_steps G now sc plan = None then retM () else log_mandate now sc)
    (thenM (count (\<lambda>z. z\<lparr>bs_optimized := bs_optimized z + 1,
              bs_playbookSubstituted := bs_playbookSubstituted z +
                (if \<not> playbook_permitted G sc plan \<and> os_selected ranked \<noteq> None then 1 else 0)\<rparr>))
    (thenM (log_tier0 G now sc k plan ranked)
           (startPlan G now sc (tier0_steps G now sc plan ranked) 0 startDelayMs))))))"

section \<open>Tier 1\<close>

definition single_plan ::
  "'w batch_setup \<Rightarrow> int \<Rightarrow> SyntheticCase \<Rightarrow> string option \<Rightarrow> nat \<Rightarrow> int \<Rightarrow> ('w, unit) bm" where
  "single_plan G now sc action tier startDelayMs =
     (case action of None \<Rightarrow> retM () | Some a \<Rightarrow> startPlan G now sc [default_step a sc] tier startDelayMs)"

definition latest_revision :: "string \<Rightarrow> db \<Rightarrow> CaseRevision option" where
  "latest_revision c s =
     (case sort_by (\<lambda>a b. rv_revision b \<le> rv_revision a) (revisions_of c s) of [] \<Rightarrow> None | r # _ \<Rightarrow> Some r)"

definition currentRevision :: "string \<Rightarrow> ('w, CaseRevision) bm" where
  "currentRevision c = bindM (on_db (readM (latest_revision c))) (\<lambda>r.
     case r of None \<Rightarrow> throwM (Error ''TypeError'') | Some rvn \<Rightarrow> retM rvn)"

definition run_specialists :: "'w batch_setup \<Rightarrow> int \<Rightarrow> SyntheticCase \<Rightarrow> CaseRevision \<Rightarrow> ('w, RunResult) bm" where
  "run_specialists G now sc rvn =
     (let roles = rd_rerun (route_plan [decline_code] []);
          refs = (if sy_ambiguous sc = None then [evidence_id sc] else [evidence_id sc, context_evidence_id sc]) in
      bindM (look bt_next_uuid) (\<lambda>n.
      thenM (change (\<lambda>b. b\<lparr>bt_next_uuid := n + 2 * length roles\<rparr>))
            (on_part bt_llm (\<lambda>x b. b\<lparr>bt_llm := x\<rparr>)
              (run_roles (bf_env G) (bf_library G) (bf_taxonomy G) (bf_roles_provider G)
                 (mf_diagnosis (bf_models G)) (mf_context (bf_models G)) (bf_late G (sy_caseId sc)) now
                 (\<lambda>i. (bf_uuid G (n + 2 * i), bf_uuid G (n + 2 * i + 1)))
                 (rv_revision rvn) roles (specialistInput sc refs (case_context sc)) (permitted_actions G sc)))))"

definition no_context :: ContextClaim where
  "no_context = \<lparr>xc_intent = Intent.unknown_intent, xc_optedOut = False, xc_language = lang_en, xc_priorContacts = 0\<rparr>"

definition no_incident :: IncidentClaim where
  "no_incident = \<lparr>ic_attach = False, ic_incidentId = None, ic_suppress = False, ic_rationale = []\<rparr>"

definition degraded_plan :: "'w batch_setup \<Rightarrow> int \<Rightarrow> SyntheticCase \<Rightarrow> int \<Rightarrow> ('w, unit) bm" where
  "degraded_plan G now sc startDelayMs =
     thenM (count (\<lambda>z. z\<lparr>bs_degraded := bs_degraded z + 1\<rparr>))
    (thenM (recordDiagnosis sc ''undiagnosed_degraded'' 2)
    (thenM (log_ledger now (sy_caseId sc) ''runtime'' ''degraded_escalation''
              [(''degraded'', JBool True), (''reason'', JStr ''no diagnosis claim available''), (''tier'', JInt 2)])
           (single_plan G now sc
              (if ''create_ops_escalation'' \<in> set (permitted_actions G sc) then Some ''create_ops_escalation'' else None)
              2 startDelayMs)))"

fun resolved_by_str :: "ResolvedBy \<Rightarrow> string" where
  "resolved_by_str single_hypothesis = ''single_hypothesis''"
| "resolved_by_str precedence_rule = ''precedence_rule''"
| "resolved_by_str confidence_margin = ''confidence_margin''"
| "resolved_by_str by_provider = ''provider''"
| "resolved_by_str escalate = ''escalate''"

definition strategy_of :: "'w batch_setup \<Rightarrow> RunClaims \<Rightarrow> DiagnosisClaim \<Rightarrow> ('w, Strategy) bm" where
  "strategy_of G found d =
     on_part bt_llm (\<lambda>x b. b\<lparr>bt_llm := x\<rparr>) (on_world
       (deliberate (bf_env G) (mf_reducer (bf_models G)) (bf_reducer_provider G)
          \<lparr>ri_diagnosis = d, ri_context = dflt (rn_context found) no_context,
           ri_incident = dflt (rn_incident found) no_incident\<rparr>))"

definition plan_strategy ::
  "'w batch_setup \<Rightarrow> int \<Rightarrow> SyntheticCase \<Rightarrow> int \<Rightarrow> nat \<Rightarrow> Strategy \<Rightarrow> ('w, unit) bm" where
  "plan_strategy G now sc startDelayMs providerCalls strategy =
     thenM (recordDiagnosis sc (sg_selectedCause strategy) 1)
       (if sg_suppress strategy \<or> truthy (sg_stopReason strategy) then retM ()
        else bindM (liftE (rank_actions G sc None (sg_selectedCause strategy) 0 (int providerCalls * 2))) (\<lambda>ranked.
          let selected = map_option (\<lambda>s. en_actionId (sc_candidate s)) (os_selected ranked) in
          thenM (log_ledger now (sy_caseId sc) ''optimizer'' ''plan_optimized''
                   [(''selected'', jopt selected), (''rejected'', JArr (map rejection_json (os_rejected ranked))),
                    (''resolvedBy'', JStr (resolved_by_str (sg_resolvedBy strategy)))])
                (single_plan G now sc selected 1 startDelayMs)))"

definition plan_tier1 :: "'w batch_setup \<Rightarrow> int \<Rightarrow> SyntheticCase \<Rightarrow> int \<Rightarrow> ('w, unit) bm" where
  "plan_tier1 G now sc startDelayMs =
     thenM (count (\<lambda>z. z\<lparr>bs_tier1 := bs_tier1 z + 1\<rparr>))
       (if bf_arm G = arm_tier0_only
        then single_plan G now sc (genericFallback G sc) 1 startDelayMs
        else bindM (currentRevision (sy_caseId sc)) (\<lambda>rvn.
             bindM (run_specialists G now sc rvn) (\<lambda>run.
             thenM (count (\<lambda>z. z\<lparr>bs_providerCalls := bs_providerCalls z + rn_providerCalls run\<rparr>))
               (case rn_diagnosis (rn_claims run) of
                  None \<Rightarrow> degraded_plan G now sc startDelayMs
                | Some d \<Rightarrow> bindM (strategy_of G (rn_claims run) d) (\<lambda>strategy.
                    plan_strategy G now sc startDelayMs (rn_providerCalls run) strategy)))))"

section \<open>Opening and planning a case\<close>

definition add_evidence :: "int \<Rightarrow> SyntheticCase \<Rightarrow> string \<Rightarrow> EvidenceKind \<Rightarrow> params \<Rightarrow> string \<Rightarrow> ('w, unit) bm" where
  "add_evidence now sc i kind payload src = on_db (addEvidence now
     \<lparr>we_id = i, we_caseId = sy_caseId sc, we_kind = kind, we_payload = payload, we_source = src\<rparr>)"

definition plan_case :: "'w batch_setup \<Rightarrow> int \<Rightarrow> SyntheticCase \<Rightarrow> int \<Rightarrow> ('w, unit) bm" where
  "plan_case G now sc startDelayMs =
     thenM (add_evidence now sc (evidence_id sc) decline_code
              [(''rail'', JStr (rail_str (sy_rail sc))), (''code'', JStr (sy_code sc))] ''simulator'')
    (thenM (case sy_ambiguous sc of None \<Rightarrow> retM ()
            | Some a \<Rightarrow> add_evidence now sc (context_evidence_id sc) mandate_state (ambiguous_params a) ''feature_builder'')
       (case tier0_resolve G sc of
          Resolved k plan \<Rightarrow> plan_tier0 G now sc startDelayMs k plan
        | Missed _ _ \<Rightarrow> plan_tier1 G now sc startDelayMs))"

abbreviation stratum_input :: "SyntheticCase \<Rightarrow> StratumInput" where
  "stratum_input sc \<equiv> \<lparr>si_caseId = sy_caseId sc, si_cause = sy_cause sc, si_amountPaise = sy_amountPaise sc\<rparr>"

definition openAndPlan :: "'w batch_setup \<Rightarrow> int \<Rightarrow> nat \<Rightarrow> SyntheticCase \<Rightarrow> ('w, unit) bm" where
  "openAndPlan G now i sc =
     bindM (liftE (assignHoldout (bf_env G) (stratum_input sc) (sn_holdout (bf_scenario G)) (sn_seed (bf_scenario G)))) (\<lambda>holdout.
     thenM (on_db (openOrAttach now
              \<lparr>oq_caseId = sy_caseId sc, oq_merchantId = sn_merchant (bf_scenario G), oq_customerId = sy_customerId sc,
               oq_obligationId = sy_obligationId sc, oq_externalRef = sy_externalRef sc, oq_domain = sy_domain sc,
               oq_amountPaise = sy_amountPaise sc, oq_dueAt = now, oq_holdout = holdout\<rparr>))
    (bindM (liftE (stratumOf (stratum_input sc))) (\<lambda>stratum.
     thenM (recordStratum sc stratum)
       (if holdout then retM ()
        else plan_case G now sc (int (i mod 14) * HOUR)))))"

fun open_all :: "'w batch_setup \<Rightarrow> int \<Rightarrow> nat \<Rightarrow> SyntheticCase list \<Rightarrow> ('w, unit) bm" where
  "open_all G now i [] = retM ()"
| "open_all G now i (sc # scs) = thenM (openAndPlan G now i sc) (open_all G now (Suc i) scs)"

end
