(* ===== verification/Batch_Step.thy ===== *)
theory Batch_Step
  imports Batch_Plan
begin

text \<open>
  \<open>packages/sim/src/runner.ts\<close>, \<open>runStep\<close>: one step of a plan is authorised and executed on the simulated provider.
\<close>

section \<open>Segments of a case\<close>

definition segmentsOf :: "SyntheticCase \<Rightarrow> SegmentKey list" where
  "segmentsOf sc =
     (let k = (\<lambda>_. None)(gateway \<mapsto> sy_gateway sc) in
      [k, k(issuer \<mapsto> sy_issuer sc), k(issuer \<mapsto> sy_issuer sc, payment_method \<mapsto> railMethod (rail_str (sy_rail sc)))])"

definition bump :: "bool \<Rightarrow> string \<Rightarrow> (string \<times> Counts) list \<Rightarrow> (string \<times> Counts) list" where
  "bump ok l m =
     (let row = dflt (map_of m l) \<lparr>cn_attempts = 0, cn_approvals = 0\<rparr> in
      AList.update l \<lparr>cn_attempts = cn_attempts row + 1, cn_approvals = cn_approvals row + (if ok then 1 else 0)\<rparr> m)"

definition bump_segments :: "bool \<Rightarrow> SyntheticCase \<Rightarrow> (string \<times> Counts) list \<Rightarrow> (string \<times> Counts) list" where
  "bump_segments ok sc m = fold (bump ok) (map segmentLabel (segmentsOf sc)) m"

section \<open>Draws\<close>

definition case_draw :: "'w batch_setup \<Rightarrow> string \<Rightarrow> SyntheticCase \<Rightarrow> int \<Rightarrow> rat" where
  "case_draw G what sc attemptNo =
     Attribution.draw (bf_env G) (sn_seed (bf_scenario G)) [what, sy_caseId sc, int_str attemptNo]"

definition drawIntent :: "'w batch_setup \<Rightarrow> SyntheticCase \<Rightarrow> int \<Rightarrow> CustomerIntent" where
  "drawIntent G sc attemptNo =
     dflt (pick_key (bf_env G) 0 (sw_replyIntents (sn_world (bf_scenario G))) (case_draw G ''intent'' sc attemptNo))
       CustomerIntent.unknown_intent"

text \<open>\<open>Math.floor((a + d * n) * HOUR)\<close>.\<close>

definition hours_later :: "env \<Rightarrow> rat \<Rightarrow> rat \<Rightarrow> rat \<Rightarrow> int" where
  "hours_later E a d n = \<lfloor>fmul E (fadd E a (fmul E d n)) (of_int HOUR)\<rfloor>"

section \<open>A refusal of the policy\<close>

text \<open>\<open>msUntilContactAllowed\<close>: the first of the next 24 hours outside the quiet hours.\<close>

definition msUntilContactAllowed :: "'w batch_setup \<Rightarrow> int \<Rightarrow> int" where
  "msUntilContactAllowed G now =
     dflt (find (\<lambda>ms. \<not> inQuietHours (bf_env G) (now + ms) (bf_policy G)) (map (\<lambda>i. int i * HOUR) [1..<25])) HOUR"

definition resume_with :: "'w batch_setup \<Rightarrow> int \<Rightarrow> SyntheticCase \<Rightarrow> PlanStep \<Rightarrow> int \<Rightarrow> ('w, unit) bm" where
  "resume_with G now sc step delayMs =
     bindM (look (\<lambda>b. dflt (plan_of (sy_caseId sc) b) [])) (\<lambda>rest.
     thenM (set_plan (sy_caseId sc) (step # rest))
           (advancePlan G now sc delayMs))"

definition substitute :: "'w batch_setup \<Rightarrow> SyntheticCase \<Rightarrow> string \<Rightarrow> OptimizerResult \<Rightarrow> ScoredAction option" where
  "substitute G sc actionId ranked =
     (case os_selected ranked of
        Some alt \<Rightarrow> if en_actionId (sc_candidate alt) \<noteq> actionId then Some alt else None
      | None \<Rightarrow> None)"

definition refused_step ::
  "'w batch_setup \<Rightarrow> int \<Rightarrow> SyntheticCase \<Rightarrow> string \<Rightarrow> params \<Rightarrow> int \<Rightarrow> RuleId \<Rightarrow> ('w, unit) bm" where
  "refused_step G now sc actionId ps attemptNo rule =
     (if rule = ACTION_NOT_ALLOWED_ON_RAIL
      then bindM (liftE (rank_actions G sc (case_context sc) (sy_cause sc) attemptNo 0)) (\<lambda>ranked.
        case substitute G sc actionId ranked of
          Some alt \<Rightarrow> let alt_id = en_actionId (sc_candidate alt) in
            thenM (count (\<lambda>z. z\<lparr>bs_playbookSubstituted := bs_playbookSubstituted z + 1\<rparr>))
           (thenM (log_ledger now (sy_caseId sc) ''optimizer'' ''action_substituted''
                     [(''blocked'', JStr actionId), (''rule'', JStr (RULES rule)), (''substituted'', JStr alt_id),
                      (''ev'', JInt (en_expectedValuePaise (sc_candidate alt)))])
                  (resume_with G now sc (default_step alt_id sc) 0))
        | None \<Rightarrow> drop_plan (sy_caseId sc))
      else if rule = QUIET_HOURS
      then thenM (count (\<lambda>z. z\<lparr>bs_rescheduledPastQuietHours := bs_rescheduledPastQuietHours z + 1\<rparr>))
          (thenM (log_ledger now (sy_caseId sc) ''policy_engine'' ''deferred_for_quiet_hours''
                    [(''actionId'', JStr actionId), (''until'', JStr (qh_end (po_quietHours (bf_policy G))))])
                 (resume_with G now sc \<lparr>ps_actionId = actionId, ps_params = ps\<rparr> (msUntilContactAllowed G now)))
      else drop_plan (sy_caseId sc))"

section \<open>The execution\<close>

definition latent_customers :: "'w batch_setup \<Rightarrow> (string \<times> LatentCustomer) list" where
  "latent_customers G = js_map_of (map (\<lambda>c. (sy_customerId c,
     \<lparr>la_hasFundsAfterMs = bf_t0 G + lt_hasFundsAfterMs (sy_latent c), la_cardExpired = lt_cardExpired (sy_latent c),
      la_mandateState = lt_mandateState (sy_latent c), la_respondsToLink = lt_respondsToLink (sy_latent c),
      la_willPayRegardless = lt_willPayRegardless (sy_latent c)\<rparr>)) (bf_cohort G))"

definition call_psp :: "'w batch_setup \<Rightarrow> int \<Rightarrow> ExecuteRequest \<Rightarrow> ('w, ExecuteResult) bm" where
  "call_psp G now req =
     on_part bt_psp (\<lambda>x b. b\<lparr>bt_psp := x\<rparr>)
       (execute (bf_env G) (SimulatedPSP (bf_env G) (latent_customers G) now) (bf_library G) (bf_minter G) 60000 now req)"

text \<open>The bookkeeping of an attempt that was made.\<close>

definition after_attempt ::
  "'w batch_setup \<Rightarrow> int \<Rightarrow> int \<Rightarrow> SyntheticCase \<Rightarrow> ActionDef \<Rightarrow> string \<Rightarrow> params \<Rightarrow> int \<Rightarrow> ExecuteResult \<Rightarrow> ('w, unit) bm" where
  "after_attempt G now elapsed sc action actionId ps attemptNo out =
     (let E = bf_env G; c = sy_caseId sc; contact = ad_consumesContactBudget action in
      thenM (count (\<lambda>z. z\<lparr>bs_executed := bs_executed z + 1\<rparr>))
     (thenM (change (\<lambda>b. b\<lparr>bt_attemptNos := AList.update c (attemptNo + 1) (bt_attemptNos b)\<rparr>))
     (thenM (if contact \<and> case_draw G ''reply'' sc attemptNo < sw_replyRate (sn_world (bf_scenario G))
             then change (\<lambda>b. b\<lparr>bt_replies := bt_replies b @
                    [\<lparr>qr_atMs = elapsed + hours_later E 1 (case_draw G ''reply_delay'' sc attemptNo) 30,
                      qr_caseId = c, qr_intent = drawIntent G sc attemptNo\<rparr>]\<rparr>)
             else retM ())
     (thenM (log_event now c (action_executed actionId attemptNo) ''executor'')
     (thenM (if contact then on_db (consumeContactBudget E (bf_policy G) now (sy_customerId sc) (channel_of E ps)) else retM ())
     (bindM (look (\<lambda>b. degradedAt elapsed sc (bt_world b) \<noteq> None)) (\<lambda>degraded.
      thenM (change (\<lambda>b. b\<lparr>bt_window := bump_segments (\<not> degraded) sc (bt_window b)\<rparr>))
     (thenM (if map_of (cr_detail (xs_result out)) ''paid'' = Some (JBool True) \<and> \<not> degraded
             then change (\<lambda>b. b\<lparr>bt_settling := bt_settling b @
                    [\<lparr>qs_atMs = elapsed + hours_later E 2 (case_draw G ''settle'' sc attemptNo) 70, qs_caseId = c,
                      qs_idemKey = xs_idemKey out, qs_amountPaise = sy_amountPaise sc\<rparr>]\<rparr>)
             else retM ())
            (advancePlan G now sc 0)))))))))"

definition failed_step :: "'w batch_setup \<Rightarrow> int \<Rightarrow> SyntheticCase \<Rightarrow> err \<Rightarrow> ('w, unit) bm" where
  "failed_step G now sc e =
     (case e of
        DuplicateAttemptError _ \<Rightarrow>
          thenM (count (\<lambda>z. z\<lparr>bs_duplicatesSuppressed := bs_duplicatesSuppressed z + 1\<rparr>))
                (advancePlan G now sc 0)
      | _ \<Rightarrow>
          thenM (count (\<lambda>z. z\<lparr>bs_stepErrors := bs_stepErrors z + 1,
                   bs_errorSamples := (if length (bs_errorSamples z) < 5 then bs_errorSamples z @ [err_message e] else bs_errorSamples z)\<rparr>))
         (thenM (drop_plan (sy_caseId sc))
                (log_event now (sy_caseId sc) (outcome_observed ''execution_failed'') ''executor'')))"

definition execute_request :: "SyntheticCase \<Rightarrow> ActionDef \<Rightarrow> string \<Rightarrow> params \<Rightarrow> int \<Rightarrow> CapabilityToken \<Rightarrow> ExecuteRequest" where
  "execute_request sc action actionId ps attemptNo token =
     \<lparr>xr_caseId = sy_caseId sc, xr_obligationId = sy_obligationId sc, xr_customerId = sy_customerId sc,
      xr_actionId = actionId, xr_attemptNo = attemptNo, xr_params = ps, xr_token = token,
      xr_amountPaise = (if ad_amountCapped action then Some (sy_amountPaise sc) else None)\<rparr>"

definition permitted_step ::
  "'w batch_setup \<Rightarrow> int \<Rightarrow> int \<Rightarrow> SyntheticCase \<Rightarrow> ActionDef \<Rightarrow> string \<Rightarrow> params \<Rightarrow> int \<Rightarrow> CapabilityToken \<Rightarrow> ('w, unit) bm" where
  "permitted_step G now elapsed sc action actionId ps attemptNo token =
     bindM (case_state (sy_caseId sc)) (\<lambda>state.
       case state of
         None \<Rightarrow> retM ()
       | Some st \<Rightarrow>
           if \<not> canTransition st EXECUTING \<and> \<not> canTransition st SCHEDULED then retM ()
           else thenM (if \<not> canTransition st EXECUTING
                       then log_event now (sy_caseId sc) (action_scheduled actionId (to_iso (bf_env G) now)) ''runner''
                       else retM ())
               (thenM (log_event now (sy_caseId sc) (approval_granted ''policy_engine'') ''policy_engine'')
               (catchM
                  (bindM (call_psp G now (execute_request sc action actionId ps attemptNo token)) (\<lambda>out.
                     after_attempt G now elapsed sc action actionId ps attemptNo out))
                  (failed_step G now sc))))"

definition evaluation_context :: "SyntheticCase \<Rightarrow> ActionDef \<Rightarrow> string \<Rightarrow> params \<Rightarrow> int \<Rightarrow> EvaluationContext" where
  "evaluation_context sc action actionId ps attemptNo =
     \<lparr>ec_caseId = sy_caseId sc, ec_obligationId = sy_obligationId sc, ec_customerId = sy_customerId sc,
      ec_rail = sy_rail sc, ec_actionId = actionId, ec_params = ps, ec_attemptNo = attemptNo,
      ec_amountPaise = (if ad_amountCapped action then Some (sy_amountPaise sc) else None), ec_optedOut = False\<rparr>"

definition runStep ::
  "'w batch_setup \<Rightarrow> int \<Rightarrow> int \<Rightarrow> SyntheticCase \<Rightarrow> string \<Rightarrow> params \<Rightarrow> int \<Rightarrow> ('w, unit) bm" where
  "runStep G now elapsed sc actionId ps attemptNo =
     bindM (liftE (lib_get (bf_library G) actionId)) (\<lambda>action.
       if ad_kind action = schedule then retM ()
       else bindM (uuid G) (\<lambda>nonce.
            bindM (on_db (authorize (bf_env G) (bf_policy G) (bf_library G) (bf_minter G) now nonce
                     (evaluation_context sc action actionId ps attemptNo))) (\<lambda>auth.
              case au_token auth of
                None \<Rightarrow> refused_step G now sc actionId ps attemptNo (pd_ruleId (au_decision auth))
              | Some token \<Rightarrow> permitted_step G now elapsed sc action actionId ps attemptNo token)))"

end
