(* ===== verification/Batch.thy ===== *)
theory Batch
  imports Batch_Step
begin

text \<open>
  \<open>packages/sim/src/runner.ts\<close>: the ticks of the clock and the batch as a whole, \<open>runBatch\<close>. The loops over pending
  replies and settlements run backwards over the array and take out what is due; here that is taken out first.
\<close>

section \<open>The world acts\<close>

definition case_by_id :: "'w batch_setup \<Rightarrow> string \<Rightarrow> SyntheticCase option" where
  "case_by_id G c = map_of (js_map_of (map (\<lambda>x. (sy_caseId x, x)) (bf_cohort G))) c"

definition settle_and_close :: "int \<Rightarrow> int \<Rightarrow> string \<Rightarrow> InboundSettlement \<Rightarrow> ('w, unit) bm" where
  "settle_and_close now elapsed c x =
     bindM (on_db (onSettlement now x)) (\<lambda>out.
       case out of
         recovered _ \<Rightarrow>
           thenM (change (\<lambda>b. b\<lparr>bt_recoveredAt := AList.update c elapsed (bt_recoveredAt b)\<rparr>))
                 (close_in_memory c)
       | _ \<Rightarrow> retM ())"

definition natural_settlement :: "'w batch_setup \<Rightarrow> SyntheticCase \<Rightarrow> InboundSettlement" where
  "natural_settlement G sc =
     \<lparr>ib_id = ''set_nat_'' @ sy_caseId sc, ib_merchantId = sn_merchant (bf_scenario G), ib_amountPaise = sy_amountPaise sc,
      ib_source = ''natural'', ib_reference = Some (sy_externalRef sc), ib_idemKey = None, ib_virtualAccount = None\<rparr>"

definition world_event :: "'w batch_setup \<Rightarrow> int \<Rightarrow> int \<Rightarrow> WorldEvent \<Rightarrow> ('w, unit) bm" where
  "world_event G now elapsed ev =
     (case case_by_id G (wv_caseId ev) of
        None \<Rightarrow> retM ()
      | Some sc \<Rightarrow> bindM (look (\<lambda>b. wv_caseId ev \<in> set (bt_closed b))) (\<lambda>closed.
          if closed then retM ()
          else (case wv_kind ev of
              natural_payment \<Rightarrow> settle_and_close now elapsed (wv_caseId ev) (natural_settlement G sc)
            | opt_out_event \<Rightarrow>
                thenM (on_db (onOutcome now \<lparr>os_caseId = wv_caseId ev, os_result = opted_out, os_detail = None\<rparr>))
                      (close_in_memory (wv_caseId ev))
            | dispute_event \<Rightarrow>
                thenM (on_db (onOutcome now \<lparr>os_caseId = wv_caseId ev, os_result = disputed, os_detail = None\<rparr>))
                      (close_in_memory (wv_caseId ev)))))"

definition drain_world :: "'w batch_setup \<Rightarrow> int \<Rightarrow> int \<Rightarrow> ('w, unit) bm" where
  "drain_world G now elapsed =
     bindM (look (\<lambda>b. fst (drainUntil elapsed (bt_world b)))) (\<lambda>evs.
     thenM (change (\<lambda>b. b\<lparr>bt_world := snd (drainUntil elapsed (bt_world b))\<rparr>))
           (forM evs (world_event G now elapsed)))"

section \<open>Replies and promises\<close>

fun intent_name :: "CustomerIntent \<Rightarrow> string" where
  "intent_name CustomerIntent.will_pay = ''will_pay''"
| "intent_name CustomerIntent.will_update = ''will_update''"
| "intent_name CustomerIntent.dispute = ''dispute''"
| "intent_name CustomerIntent.opt_out = ''opt_out''"
| "intent_name CustomerIntent.missing_po = ''missing_po''"
| "intent_name CustomerIntent.unknown_intent = ''unknown''"

fun kind_str :: "EvidenceKind \<Rightarrow> string" where
  "kind_str payment_attempt = ''payment_attempt''"
| "kind_str decline_code = ''decline_code''"
| "kind_str mandate_state = ''mandate_state''"
| "kind_str customer_profile = ''customer_profile''"
| "kind_str customer_reply = ''customer_reply''"
| "kind_str contact_history = ''contact_history''"
| "kind_str obligation_state = ''obligation_state''"
| "kind_str incident_membership = ''incident_membership''"
| "kind_str segment_metrics = ''segment_metrics''"
| "kind_str policy_snapshot = ''policy_snapshot''"

definition role_list :: "RoleId list \<Rightarrow> json" where
  "role_list rs = JArr (map (\<lambda>r. JStr (role_str r)) rs)"

definition kind_list :: "EvidenceKind list \<Rightarrow> json" where
  "kind_list ks = JArr (map (\<lambda>k. JStr (kind_str k)) ks)"

definition route_reply :: "'w batch_setup \<Rightarrow> int \<Rightarrow> SyntheticCase \<Rightarrow> CustomerIntent \<Rightarrow> ('w, IntentOutcome) bm" where
  "route_reply G now sc intent =
     bindM (uuid G) (\<lambda>pid. on_db (ir_route (bf_env G) 172800000 now pid intent
       \<lparr>ix_caseId = sy_caseId sc, ix_obligationId = sy_obligationId sc, ix_amountPaise = sy_amountPaise sc, ix_promisedFor = None\<rparr>))"

definition process_reply :: "'w batch_setup \<Rightarrow> int \<Rightarrow> PendingReply \<Rightarrow> ('w, unit) bm" where
  "process_reply G now r =
     bindM (look (\<lambda>b. qr_caseId r \<in> set (bt_closed b))) (\<lambda>closed.
       case case_by_id G (qr_caseId r) of
         None \<Rightarrow> retM ()
       | Some sc \<Rightarrow>
         if closed then retM ()
         else bindM (uuid G) (\<lambda>u. let c = qr_caseId r; evId = ''ev_reply_'' @ c @ ''_'' @ take 8 u in
          thenM (on_db (addEvidence now \<lparr>we_id = evId, we_caseId = c, we_kind = customer_reply,
                   we_payload = [(''intent'', JStr (intent_name (qr_intent r))), (''channel'', JStr ''whatsapp'')],
                   we_source = ''customer''\<rparr>))
         (bindM (on_db (event_append now c (evidence_added customer_reply evId) ''customer'')) (\<lambda>(_, revision).
          bindM (on_db (Blackboard.route (bf_env G) now revision)) (\<lambda>decision.
          thenM (count (\<lambda>z. z\<lparr>bs_repliesInterpreted := bs_repliesInterpreted z + 1\<rparr>))
         (thenM (log_ledger now c ''work_router'' ''claims_invalidated''
                   [(''rerun'', role_list (rd_rerun decision)), (''reused'', role_list (rd_reused decision)),
                    (''changed'', kind_list (rd_changedKinds decision))])
         (bindM (route_reply G now sc (qr_intent r)) (\<lambda>outcome.
            case outcome of
              terminal_outcome _ _ \<Rightarrow> close_in_memory c
            | record_promise _ _ \<Rightarrow> drop_plan c
            | _ \<Rightarrow> retM ()))))))))"

definition process_replies :: "'w batch_setup \<Rightarrow> int \<Rightarrow> int \<Rightarrow> ('w, unit) bm" where
  "process_replies G now elapsed =
     bindM (look (\<lambda>b. rev (filter (\<lambda>r. qr_atMs r \<le> elapsed) (bt_replies b)))) (\<lambda>rs.
     thenM (change (\<lambda>b. b\<lparr>bt_replies := filter (\<lambda>r. \<not> qr_atMs r \<le> elapsed) (bt_replies b)\<rparr>))
           (forM rs (process_reply G now)))"

definition resume_broken :: "'w batch_setup \<Rightarrow> int \<Rightarrow> string \<Rightarrow> ('w, unit) bm" where
  "resume_broken G now c =
     bindM (look (\<lambda>b. c \<in> set (bt_closed b) \<or> plan_of c b \<noteq> None)) (\<lambda>skip.
       case case_by_id G c of
         None \<Rightarrow> retM ()
       | Some sc \<Rightarrow>
         if skip then retM ()
         else (case genericFallback G sc of
             None \<Rightarrow> retM ()
           | Some resume \<Rightarrow>
               thenM (count (\<lambda>z. z\<lparr>bs_promisesBroken := bs_promisesBroken z + 1\<rparr>))
              (thenM (log_ledger now c ''intent_router'' ''collection_resumed''
                        [(''reason'', JStr ''promise_broken''), (''action'', JStr resume)])
                     (startPlan G now sc [default_step resume sc] 0 0))))"

definition process_promises :: "'w batch_setup \<Rightarrow> int \<Rightarrow> ('w, unit) bm" where
  "process_promises G now =
     bindM (on_db (reconcilePromises now)) (\<lambda>(_, broken).
       if broken > 0
       then bindM (on_db (readM (\<lambda>s. map pm_case (filter (\<lambda>p. pm_state p = promise_broken \<and> pm_settled p = Some now) (promises_to_pay s)))))
              (\<lambda>cs. forM cs (resume_broken G now))
       else retM ())"

section \<open>Settlements and scheduled actions\<close>

definition process_settlement :: "'w batch_setup \<Rightarrow> int \<Rightarrow> int \<Rightarrow> PendingSettlement \<Rightarrow> ('w, unit) bm" where
  "process_settlement G now elapsed p =
     bindM (look (\<lambda>b. qs_caseId p \<in> set (bt_closed b))) (\<lambda>closed.
       if closed then retM ()
       else settle_and_close now elapsed (qs_caseId p)
              \<lparr>ib_id = ''set_'' @ take 16 (qs_idemKey p), ib_merchantId = sn_merchant (bf_scenario G),
               ib_amountPaise = qs_amountPaise p, ib_source = ''connector'', ib_reference = None,
               ib_idemKey = Some (qs_idemKey p), ib_virtualAccount = None\<rparr>)"

definition process_settlements :: "'w batch_setup \<Rightarrow> int \<Rightarrow> int \<Rightarrow> ('w, unit) bm" where
  "process_settlements G now elapsed =
     bindM (look (\<lambda>b. rev (filter (\<lambda>p. qs_atMs p \<le> elapsed) (bt_settling b)))) (\<lambda>ps.
     thenM (change (\<lambda>b. b\<lparr>bt_settling := filter (\<lambda>p. \<not> qs_atMs p \<le> elapsed) (bt_settling b)\<rparr>))
           (forM ps (process_settlement G now elapsed)))"

definition run_due :: "'w batch_setup \<Rightarrow> int \<Rightarrow> int \<Rightarrow> ScheduledAction \<Rightarrow> ('w, unit) bm" where
  "run_due G now elapsed act =
     bindM (look (\<lambda>b. sd_caseId act \<in> set (bt_closed b))) (\<lambda>closed.
     thenM (case case_by_id G (sd_caseId act) of
              None \<Rightarrow> retM ()
            | Some sc \<Rightarrow>
                if closed then retM ()
                else runStep G now elapsed sc (rf_actionId (sd_actionRef act)) (rf_params (sd_actionRef act))
                       (rf_attemptNo (sd_actionRef act)))
           (on_db (sched_complete now (sd_id act))))"

definition run_scheduled :: "'w batch_setup \<Rightarrow> int \<Rightarrow> int \<Rightarrow> ('w, unit) bm" where
  "run_scheduled G now elapsed =
     bindM (on_db (Scheduler.tick (bf_env G) 30000 now [] ''batch_worker'' 500)) (\<lambda>dues.
       forM dues (run_due G now elapsed))"

section \<open>Detector, suppression, staged release\<close>

text \<open>The segment a label names: \<open>label.split("&")\<close>, and each part at its first \<open>=\<close>.\<close>

definition label_part :: "string \<Rightarrow> string \<times> string option" where
  "label_part part = (case split_on (CHR ''='') part of k # v # _ \<Rightarrow> (k, Some v) | k # [] \<Rightarrow> (k, None) | [] \<Rightarrow> ([], None))"

definition parse_label :: "string \<Rightarrow> SegmentKey" where
  "parse_label l = (\<lambda>d. dflt (map_of (rev (map label_part (split_on (CHR ''&'') l))) (dim_str d)) None)"

definition observations_of :: "'w batch \<Rightarrow> SegmentObservation list" where
  "observations_of b =
     concat (map (\<lambda>(l, w). case map_of (bt_baseline b) l of
        None \<Rightarrow> []
      | Some base \<Rightarrow>
          if cn_attempts base < 30 then []
          else [\<lparr>so_segment = parse_label l, so_attempts = cn_attempts w, so_approvals = cn_approvals w,
                 so_baselineAttempts = cn_attempts base, so_baselineApprovals = cn_approvals base\<rparr>]) (bt_window b))"

definition rate_of :: "env \<Rightarrow> int \<Rightarrow> int \<Rightarrow> rat" where
  "rate_of E approvals attempts = (if attempts = 0 then 0 else fdiv E (of_int approvals) (of_int attempts))"

definition anomalous_labels :: "env \<Rightarrow> SegmentObservation list \<Rightarrow> string list" where
  "anomalous_labels E obs =
     map (\<lambda>x. segmentLabel (so_segment x)) (filter (\<lambda>x.
       let base = rate_of E (so_baselineApprovals x) (so_baselineAttempts x); r = rate_of E (so_approvals x) (so_attempts x)
       in so_attempts x > 0 \<and> base > 0 \<and> r < fmul E base (fl E (9/10))) obs)"

definition detect :: "'w batch_setup \<Rightarrow> bool \<Rightarrow> ('w, Candidate list) bm" where
  "detect G windowClosed =
     (if windowClosed
      then bindM (look (\<lambda>b. evaluate (bf_env G) (DEFAULT_DETECTOR_CONFIG (bf_env G)) (observations_of b) (bt_detector b)))
             (\<lambda>(flagged, det). thenM (change (\<lambda>b. b\<lparr>bt_detector := det\<rparr>)) (retM flagged))
      else retM [])"

definition in_segment :: "SegmentKey \<Rightarrow> SyntheticCase \<Rightarrow> bool" where
  "in_segment seg c \<longleftrightarrow>
     (case seg gateway of None \<Rightarrow> True | Some v \<Rightarrow> sy_gateway c = v)
     \<and> (case seg issuer of None \<Rightarrow> True | Some v \<Rightarrow> sy_issuer c = v)"

definition affected_cases :: "'w batch_setup \<Rightarrow> SegmentKey \<Rightarrow> 'w batch \<Rightarrow> string list" where
  "affected_cases G seg b =
     map sy_caseId (filter (\<lambda>c. sy_caseId c \<notin> set (bt_closed b) \<and> plan_of (sy_caseId c) b \<noteq> None \<and> in_segment seg c) (bf_cohort G))"

definition rca_of :: "env \<Rightarrow> Candidate \<Rightarrow> params" where
  "rca_of E c =
     [(''narrative'', JStr (''approval rate on '' @ ca_label c @ '' fell to ''
         @ to_fixed E (fmul E (zt_observedRate (ca_test c)) 100) 1 @ ''% against a ''
         @ to_fixed E (fmul E (zt_baselineRate (ca_test c)) 100) 1 @ ''% baseline (z ''
         @ to_fixed E (zt_z (ca_test c)) 2 @ '', n '' @ int_str (ca_attempts c) @ '')'')),
      (''proposed'', JStr ''hold affected cases and stage their release once the rate recovers''),
      (''surface'', JStr ''simulated'')]"

definition open_incident :: "'w batch_setup \<Rightarrow> int \<Rightarrow> Candidate \<Rightarrow> ('w, unit) bm" where
  "open_incident G now c =
     bindM (look (\<lambda>b. map_of (bt_openIncidents b) (ca_label c) \<noteq> None)) (\<lambda>already.
       if already then retM ()
       else bindM (uuid G) (\<lambda>u.
            bindM (on_db (incident_open now u c ''detector'')) (\<lambda>incidentId.
            thenM (change (\<lambda>b. b\<lparr>bt_openIncidents := AList.update (ca_label c) (incidentId, ca_segment c) (bt_openIncidents b)\<rparr>))
           (thenM (count (\<lambda>z. z\<lparr>bs_incidentsOpened := bs_incidentsOpened z + 1\<rparr>))
           (bindM (look (affected_cases G (ca_segment c))) (\<lambda>affected.
            bindM (on_db (attachAndSuppress now incidentId affected)) (\<lambda>parked.
            thenM (count (\<lambda>z. z\<lparr>bs_casesParked := bs_casesParked z + parked\<rparr>))
           (thenM (change (\<lambda>b. b\<lparr>bt_members := AList.update incidentId affected (bt_members b)\<rparr>))
           (thenM (forM affected drop_plan)
                  (on_db (recordRca now incidentId (rca_of (bf_env G) c)))))))))))) "

definition resume_released :: "'w batch_setup \<Rightarrow> int \<Rightarrow> string \<Rightarrow> string list \<Rightarrow> SyntheticCase \<Rightarrow> ('w, unit) bm" where
  "resume_released G now incidentId stillParked c =
     bindM (look (\<lambda>b. sy_caseId c \<in> set (bt_closed b) \<or> sy_caseId c \<in> set stillParked \<or> plan_of (sy_caseId c) b \<noteq> None
        \<or> sy_caseId c \<notin> set (dflt (map_of (bt_members b) incidentId) []))) (\<lambda>skip.
       if skip then retM ()
       else (case genericFallback G c of
           None \<Rightarrow> retM ()
         | Some resume \<Rightarrow> startPlan G now c [default_step resume c] 0 0))"

definition release_open :: "'w batch_setup \<Rightarrow> int \<Rightarrow> bool \<Rightarrow> string \<times> string \<times> SegmentKey \<Rightarrow> ('w, unit) bm" where
  "release_open G now windowClosed = (\<lambda>(l, incidentId, seg).
     bindM (look (\<lambda>b. (map_of (bt_baseline b) l, map_of (bt_window b) l))) (\<lambda>(base, w).
       case base of
         None \<Rightarrow> retM ()
       | Some z \<Rightarrow>
         if \<not> windowClosed \<or> cn_attempts z = 0 then retM ()
         else let baselineRate = fdiv (bf_env G) (of_int (cn_approvals z)) (of_int (cn_attempts z));
                  observedRate = (case w of
                    Some y \<Rightarrow> if cn_attempts y > 0 then fdiv (bf_env G) (of_int (cn_approvals y)) (of_int (cn_attempts y)) else baselineRate
                  | None \<Rightarrow> baselineRate) in
           bindM (on_part bt_release (\<lambda>x b. b\<lparr>bt_release := x\<rparr>)
                    (release_step (bf_env G) (DEFAULT_RELEASE_CONFIG (bf_env G)) now incidentId
                       \<lparr>hr_observedRate = observedRate, hr_baselineRate = baselineRate\<rparr>)) (\<lambda>step.
           thenM (if rs_act step = completed
                  then change (\<lambda>b. b\<lparr>bt_openIncidents := AList.delete l (bt_openIncidents b), bt_detector := reset (bt_detector b) l\<rparr>)
                  else retM ())
                 (if rs_releasedNow step > 0
                  then bindM (on_db (parkedCases (bf_env G) incidentId)) (\<lambda>stillParked.
                         forM (bf_cohort G) (resume_released G now incidentId stillParked))
                  else retM ()))))"

definition fold_baseline :: "string list \<Rightarrow> (string \<times> Counts) list \<Rightarrow> (string \<times> Counts) list \<Rightarrow> (string \<times> Counts) list" where
  "fold_baseline anomalous window baseline =
     fold (\<lambda>(l, w) m.
       if l \<in> set anomalous then m
       else let base = dflt (map_of m l) \<lparr>cn_attempts = 0, cn_approvals = 0\<rparr> in
            AList.update l \<lparr>cn_attempts = cn_attempts base + cn_attempts w, cn_approvals = cn_approvals base + cn_approvals w\<rparr> m)
     window baseline"

definition watch_segments :: "'w batch_setup \<Rightarrow> int \<Rightarrow> ('w, unit) bm" where
  "watch_segments G now =
     thenM (change (\<lambda>b. b\<lparr>bt_ticks := bt_ticks b + 1\<rparr>))
    (bindM (look (\<lambda>b. bt_ticks b \<ge> 2)) (\<lambda>windowClosed.
     bindM (look (\<lambda>b. anomalous_labels (bf_env G) (observations_of b))) (\<lambda>anomalous.
     bindM (detect G windowClosed) (\<lambda>flagged.
     thenM (forM flagged (open_incident G now))
    (bindM (look bt_openIncidents) (\<lambda>incs.
     thenM (forM incs (release_open G now windowClosed))
           (if windowClosed
            then change (\<lambda>b. b\<lparr>bt_baseline := fold_baseline anomalous (bt_window b) (bt_baseline b), bt_window := [], bt_ticks := 0\<rparr>)
            else retM ())))))))"

section \<open>One tick\<close>

definition advance_clock :: "int \<Rightarrow> ('w, unit) bm" where
  "advance_clock t = bindM (look (\<lambda>b. clock_advanceTo (bt_clock b) t)) (\<lambda>r.
     bindM (liftE r) (\<lambda>t'. change (\<lambda>b. b\<lparr>bt_clock := t'\<rparr>)))"

definition batch_tick :: "'w batch_setup \<Rightarrow> int \<Rightarrow> ('w, unit) bm" where
  "batch_tick G elapsed =
     (let now = bf_t0 G + elapsed in
      thenM (advance_clock now)
     (thenM (drain_world G now elapsed)
     (thenM (process_replies G now elapsed)
     (thenM (process_promises G now)
     (thenM (process_settlements G now elapsed)
     (thenM (run_scheduled G now elapsed)
            (watch_segments G now)))))))"

text \<open>\<open>for (let elapsed = 0; elapsed <= horizonMs; elapsed += tickMs)\<close>; \<open>None\<close> is a loop that never ends.\<close>

partial_function (option) clock_loop ::
  "'w batch_setup \<Rightarrow> int \<Rightarrow> int \<Rightarrow> db \<times> 'w batch \<Rightarrow> ((err + unit) \<times> (db \<times> 'w batch)) option" where
  "clock_loop G horizon elapsed x =
     (if elapsed > horizon then Some (Inr (), x)
      else (case batch_tick G elapsed x of
          (Inl e, y) \<Rightarrow> Some (Inl e, y)
        | (Inr _, y) \<Rightarrow> clock_loop G horizon (elapsed + bf_tickMs G) y))"

declare clock_loop.simps [code]

section \<open>The batch\<close>

definition insert_absent :: "string \<Rightarrow> string list \<Rightarrow> string list" where
  "insert_absent x xs = (if x \<in> set xs then xs else xs @ [x])"

text \<open>\<open>seedMerchant\<close>; an insert of no rows is a syntax error.\<close>

definition seedMerchant :: "string \<Rightarrow> SyntheticCase list \<Rightarrow> unit dbm" where
  "seedMerchant merchant cohort =
     thenM (modifyM (\<lambda>s. s\<lparr>merchants := insert_absent merchant (merchants s)\<rparr>))
    (thenM (guardM (\<lambda>_. cohort \<noteq> []) (Error ''syntax error''))
           (modifyM (\<lambda>s. s\<lparr>customers := fold insert_absent (map sy_customerId cohort) (customers s)\<rparr>)))"

definition END_STATES :: "CaseState list" where
  "END_STATES = [RECOVERED, OPTED_OUT, DISPUTED, UNRECOVERABLE, STOPPED_HUMAN]"

definition close_out :: "int \<Rightarrow> SyntheticCase \<Rightarrow> ('w, unit) bm" where
  "close_out now sc =
     bindM (look (\<lambda>b. sy_caseId sc \<in> set (bt_closed b))) (\<lambda>closed.
       if closed then retM ()
       else bindM (case_state (sy_caseId sc)) (\<lambda>state.
         case state of
           None \<Rightarrow> retM ()
         | Some st \<Rightarrow> if st \<in> set END_STATES then retM ()
                     else on_db (exhaust now (sy_caseId sc) ''measurement_window_closed'')))"

text \<open>The cases of the data base in the order of their identifiers, as outcomes.\<close>

definition outcome_of_row :: "'w batch_setup \<Rightarrow> (string \<times> int) list \<Rightarrow> case_row \<Rightarrow> err + CaseOutcome \<times> bool" where
  "outcome_of_row G recoveredAt r =
     (case case_by_id G (cs_id r) of
        None \<Rightarrow> Inl (Error ''TypeError'')
      | Some sc \<Rightarrow> Inr
          (\<lparr>co_caseId = cs_id r, co_holdout = cs_holdout r, co_recovered = (cs_state r = RECOVERED),
            co_amountPaise = sy_amountPaise sc, co_recoveredAfterMs = map_of recoveredAt (cs_id r),
            co_merchantDunning = None\<rparr>,
           lt_willPayRegardless (sy_latent sc)))"

definition rows_by_id :: "env \<Rightarrow> db \<Rightarrow> case_row list" where
  "rows_by_id E s = sort_by (\<lambda>a b. db_le E (cs_id a) (cs_id b)) (case_rows s)"

definition tally_state :: "CaseState \<Rightarrow> (string \<times> nat) list \<Rightarrow> (string \<times> nat) list" where
  "tally_state st m = AList.update (state_str st) (dflt (map_of m (state_str st)) 0 + 1) m"

record BatchReport =
  br_batchId :: string
  br_arm :: string
  br_seed :: int
  br_cases :: nat
  br_stats :: BatchStats
  br_policyBlocks :: "RuleId \<Rightarrow> nat"
  br_terminalStates :: "(string \<times> nat) list"
  br_attribution :: AttributionResult
  br_trueIncrementalPaise :: int
  br_estimationError :: rat
  br_intervalContainsTruth :: bool

definition make_report ::
  "'w batch_setup \<Rightarrow> BatchStats \<Rightarrow> case_row list \<Rightarrow> (RuleId \<Rightarrow> nat) \<Rightarrow> AttributionResult \<Rightarrow> int \<Rightarrow> BatchReport" where
  "make_report G stats rows blocks a truth =
     (let E = bf_env G; sc = bf_scenario G in
      \<lparr>br_batchId = ''batch_'' @ int_str (sn_seed sc) @ ''_'' @ arm_str (bf_arm G), br_arm = arm_str (bf_arm G),
       br_seed = sn_seed sc, br_cases = length (bf_cohort G), br_stats = stats, br_policyBlocks = blocks,
       br_terminalStates = fold tally_state (map cs_state rows) [], br_attribution = a,
       br_trueIncrementalPaise = truth,
       br_estimationError = (if truth = 0 then 0 else fdiv E (of_int \<bar>at_incrementalPaise a - truth\<bar>) (of_int truth)),
       br_intervalContainsTruth = (fst (at_incrementalCi a) \<le> truth \<and> truth \<le> snd (at_incrementalCi a))\<rparr>)"

definition measure_batch :: "'w batch_setup \<Rightarrow> ('w, BatchReport) bm" where
  "measure_batch G =
     (let E = bf_env G; sc = bf_scenario G in
      bindM (on_db (readM (rows_by_id E))) (\<lambda>rows.
      bindM (look bt_recoveredAt) (\<lambda>recoveredAt.
      bindM (liftE (mapE (outcome_of_row G recoveredAt) rows)) (\<lambda>outcomes.
      bindM (liftE (estimate E (map fst outcomes)
               \<lparr>ec_naturalRecoveryWindowMs = sn_naturalRecoveryWindowMs sc, ec_windowDays = sn_windowDays sc,
                ec_bootstrapSamples = 1000, ec_seed = sn_seed sc\<rparr>)) (\<lambda>a.
      bindM (on_db blockCountsByRule) (\<lambda>blocks.
      bindM (look bt_stats) (\<lambda>stats.
        retM (make_report G stats rows blocks a (trueIncremental outcomes)))))))))"

definition horizonMs :: "'w batch_setup \<Rightarrow> int" where
  "horizonMs G = sn_windowDays (bf_scenario G) * 86400000"

definition finish_batch :: "'w batch_setup \<Rightarrow> ('w, BatchReport) bm" where
  "finish_batch G =
     (let now = bf_t0 G + horizonMs G in
      thenM (advance_clock now) (thenM (forM (bf_cohort G) (close_out now)) (measure_batch G)))"

definition start_batch :: "'w batch_setup \<Rightarrow> ('w, unit) bm" where
  "start_batch G =
     thenM (on_db (seedMerchant (sn_merchant (bf_scenario G)) (bf_cohort G)))
           (open_all G (bf_t0 G) 0 (bf_cohort G))"

definition run_cohort :: "'w batch_setup \<Rightarrow> db \<times> 'w batch \<Rightarrow> ((err + BatchReport) \<times> (db \<times> 'w batch)) option" where
  "run_cohort G x =
     (case start_batch G x of
        (Inl e, y) \<Rightarrow> Some (Inl e, y)
      | (Inr _, y) \<Rightarrow> (case clock_loop G (horizonMs G) 0 y of
          None \<Rightarrow> None
        | Some (Inl e, z) \<Rightarrow> Some (Inl e, z)
        | Some (Inr _, z) \<Rightarrow> Some (finish_batch G z)))"

definition runBatch :: "'w batch_setup \<Rightarrow> 'w \<Rightarrow> db \<Rightarrow> ((err + BatchReport) \<times> (db \<times> 'w batch)) option" where
  "runBatch G0 llm s =
     (case generateCohort (bf_env G0) (bf_scenario G0) (bf_taxonomy G0) of
        Inl e \<Rightarrow> Some (Inl e, (s, newBatch G0 llm))
      | Inr cohort \<Rightarrow> (let G = G0\<lparr>bf_cohort := cohort\<rparr> in run_cohort G (s, newBatch G llm)))"

end
