(* ===== verification/Batch_Invariant.thy ===== *)
theory Batch_Invariant
  imports Batch
begin

text \<open>
  What every statement of the runner keeps, as one interface. \<open>D\<close> is a condition on the data base and \<open>acts\<close>
  the cases the agent may work on; \<open>opens\<close>, \<open>logs\<close> and \<open>cites\<close> are the requests, the decisions and the declines
  that may be put on record. The laws say that each operation of the components keeps \<open>D\<close>, the ones that
  act on a case only for a case in \<open>acts\<close>, and that whatever \<open>D\<close> lets the schedule and the promises name is in
  \<open>acts\<close>. Shown once for all instances: the whole batch keeps \<open>D\<close>, because its own
  memory, too, only ever names cases in \<open>acts\<close>.
\<close>

text \<open>The variables of the runner that name cases to work on.\<close>

definition memory_acts :: "(string \<Rightarrow> bool) \<Rightarrow> 'w batch \<Rightarrow> bool" where
  "memory_acts acts b \<longleftrightarrow>
     (\<forall>r \<in> set (bt_replies b). acts (qr_caseId r)) \<and> (\<forall>c. plan_of c b \<noteq> None \<longrightarrow> acts c)
     \<and> (\<forall>i cs. map_of (bt_members b) i = Some cs \<longrightarrow> (\<forall>c \<in> set cs. acts c))"

definition batch_holds :: "(db \<Rightarrow> bool) \<Rightarrow> (string \<Rightarrow> bool) \<Rightarrow> db \<times> 'w batch \<Rightarrow> bool" where
  "batch_holds D acts x \<longleftrightarrow> D (fst x) \<and> memory_acts acts (snd x)"

named_theorems runner_steps "statements of the runner that keep an invariant"

lemma memory_acts_fields [simp]:
  "memory_acts acts (b\<lparr>bt_clock := x1\<rparr>) = memory_acts acts b" "memory_acts acts (b\<lparr>bt_world := x2\<rparr>) = memory_acts acts b"
  "memory_acts acts (b\<lparr>bt_psp := x3\<rparr>) = memory_acts acts b" "memory_acts acts (b\<lparr>bt_release := x4\<rparr>) = memory_acts acts b"
  "memory_acts acts (b\<lparr>bt_detector := x5\<rparr>) = memory_acts acts b" "memory_acts acts (b\<lparr>bt_llm := x6\<rparr>) = memory_acts acts b"
  "memory_acts acts (b\<lparr>bt_recoveredAt := x7\<rparr>) = memory_acts acts b" "memory_acts acts (b\<lparr>bt_closed := x8\<rparr>) = memory_acts acts b"
  "memory_acts acts (b\<lparr>bt_settling := x9\<rparr>) = memory_acts acts b" "memory_acts acts (b\<lparr>bt_attemptNos := x10\<rparr>) = memory_acts acts b"
  "memory_acts acts (b\<lparr>bt_stats := x11\<rparr>) = memory_acts acts b" "memory_acts acts (b\<lparr>bt_window := x12\<rparr>) = memory_acts acts b"
  "memory_acts acts (b\<lparr>bt_baseline := x13\<rparr>) = memory_acts acts b" "memory_acts acts (b\<lparr>bt_openIncidents := x14\<rparr>) = memory_acts acts b"
  "memory_acts acts (b\<lparr>bt_ticks := x15\<rparr>) = memory_acts acts b" "memory_acts acts (b\<lparr>bt_next_uuid := x16\<rparr>) = memory_acts acts b"
  by (simp_all add: memory_acts_def plan_of_def)

lemma memory_acts_plan:
  "acts c \<Longrightarrow> memory_acts acts b \<Longrightarrow> memory_acts acts (b\<lparr>bt_remaining := AList.update c steps (bt_remaining b)\<rparr>)"
  "memory_acts acts b \<Longrightarrow> memory_acts acts (b\<lparr>bt_remaining := AList.delete c (bt_remaining b)\<rparr>)"
  "memory_acts acts b \<Longrightarrow> memory_acts acts (b\<lparr>bt_closed := x, bt_remaining := AList.delete c (bt_remaining b)\<rparr>)"
  by (auto simp: memory_acts_def plan_of_def AList.update_conv' AList.delete_conv' split: if_splits)

lemma memory_acts_members:
  "(\<And>c. c \<in> set cs \<Longrightarrow> acts c) \<Longrightarrow> memory_acts acts b
     \<Longrightarrow> memory_acts acts (b\<lparr>bt_members := AList.update i cs (bt_members b)\<rparr>)"
  by (auto simp: memory_acts_def plan_of_def AList.update_conv' split: if_splits)

lemma memory_acts_replies:
  "(\<And>r. r \<in> set rs \<Longrightarrow> acts (qr_caseId r)) \<Longrightarrow> memory_acts acts b \<Longrightarrow> memory_acts acts (b\<lparr>bt_replies := rs\<rparr>)"
  by (auto simp: memory_acts_def plan_of_def)

lemma preserves_forM_mem: "(\<And>x. x \<in> set xs \<Longrightarrow> preserves I (f x)) \<Longrightarrow> preserves I (forM xs f)"
  by (induction xs) (simp_all add: forM_def preserves_retM preserves_bindM)

text \<open>A continuation need only keep the invariant for the values its statement returns.\<close>

lemma preserves_bind_run:
  assumes "preserves I m" and "\<And>s r t. I s \<Longrightarrow> m s = (Inr r, t) \<Longrightarrow> preserves I (f r)"
  shows "preserves I (bindM m f)"
proof (rule preservesI)
  fix s assume s: "I s"
  obtain x t where run: "m s = (x, t)" by (cases "m s")
  have t: "I t" using preserves_run [OF assms(1) run s] .
  show "I (snd (bindM m f s))"
  proof (cases x)
    case (Inl e)
    with run t show ?thesis by (simp add: bindM_def)
  next
    case (Inr r)
    with run preservesD [OF assms(2) [OF s] t] show ?thesis by (simp add: bindM_def)
  qed
qed

lemma preserves_bind_look:
  assumes "\<And>s b. I (s, b) \<Longrightarrow> preserves I (g (f b))"
  shows "preserves I (bindM (look f) g)"
  using assms by (auto simp: preserves_def monad_simps)

text \<open>Induction over the rounds of the loop.\<close>

lemma clock_loop_induct:
  assumes "clock_loop G horizon elapsed x = Some y"
    and "\<And>loop G h e x y. \<lbrakk>\<And>G h e x y. loop G h e x = Some y \<Longrightarrow> P G h e x y;
        (if e > h then Some (Inr (), x)
         else (case batch_tick G e x of (Inl er, z) \<Rightarrow> Some (Inl er, z) | (Inr _, z) \<Rightarrow> loop G h (e + bf_tickMs G) z)) = Some y\<rbrakk>
      \<Longrightarrow> P G h e x y"
  shows "P G horizon elapsed x y"
proof (rule clock_loop.raw_induct [of P "(((G, horizon), elapsed), x)" y, unfolded prod.case])
  show "clock_loop G horizon elapsed x = Some y" by (rule assms(1))
qed (rule assms(2))

text \<open>The arm of a case.\<close>

abbreviation arm_of :: "'w batch_setup \<Rightarrow> SyntheticCase \<Rightarrow> err + bool" where
  "arm_of G sc \<equiv> assignHoldout (bf_env G) (stratum_input sc) (sn_holdout (bf_scenario G)) (sn_seed (bf_scenario G))"

text \<open>The request that opens a case, and what its planning puts on record.\<close>

abbreviation open_request :: "'w batch_setup \<Rightarrow> int \<Rightarrow> bool \<Rightarrow> SyntheticCase \<Rightarrow> OpenCaseRequest" where
  "open_request G now h sc \<equiv>
     \<lparr>oq_caseId = sy_caseId sc, oq_merchantId = sn_merchant (bf_scenario G), oq_customerId = sy_customerId sc,
      oq_obligationId = sy_obligationId sc, oq_externalRef = sy_externalRef sc, oq_domain = sy_domain sc,
      oq_amountPaise = sy_amountPaise sc, oq_dueAt = now, oq_holdout = h\<rparr>"

definition decline_record :: "SyntheticCase \<Rightarrow> params" where
  "decline_record sc = [(''rail'', JStr (rail_str (sy_rail sc))), (''code'', JStr (sy_code sc))]"

definition plan_record :: "Classification \<Rightarrow> Plan \<Rightarrow> params" where
  "plan_record k plan = [(''ruleId'', JStr (pl_ruleId plan)), (''cause'', JStr (cl_cause k)),
     (''confidence'', JNum (cl_confidence k)), (''tier'', JInt 0)]"

section \<open>The interface\<close>

locale runner_invariant =
  fixes D :: "db \<Rightarrow> bool" and acts :: "string \<Rightarrow> bool" and opens :: "OpenCaseRequest \<Rightarrow> bool"
    and logs :: "string \<Rightarrow> string \<Rightarrow> params \<Rightarrow> bool" and cites :: "string \<Rightarrow> EvidenceKind \<Rightarrow> params \<Rightarrow> bool"
  assumes open_case: "opens req \<Longrightarrow> preserves D (openOrAttach now req)"
    and settlement: "preserves D (onSettlement now ib)"
    and outcome: "preserves D (onOutcome now sig)"
    and exhausted: "preserves D (exhaust now c reason)"
    and appended: "runner_event ev \<Longrightarrow> preserves D (event_append now c ev src)"
    and intent: "acts (ix_caseId ctx) \<Longrightarrow> preserves D (ir_route E grace now pid i ctx)"
    and attached: "(\<And>c. c \<in> set cs \<Longrightarrow> acts c) \<Longrightarrow> preserves D (attachAndSuppress now inc cs)"
    and scheduled: "acts (sr_caseId sreq) \<Longrightarrow> preserves D (sched_schedule now sreq)"
    and ticked: "preserves D (Scheduler.tick E leaseMs now locked owner limit)"
    and completed: "preserves D (sched_complete now k)"
    and authorized: "acts (ec_caseId ec) \<Longrightarrow> preserves D (authorize E pol lib m now nonce ec)"
    and consumed: "preserves D (consumeContactBudget E pol now cust ch)"
    and executed: "acts (xr_caseId xreq) \<Longrightarrow> preserves (\<lambda>(s, w). D s) (execute E (ad :: simulator PSPAdapter) lib m ttl now xreq)"
    and ramped: "preserves (\<lambda>(s, w). D s) (release_step E rcfg now inc h)"
    and evidence_added: "\<lbrakk>acts (we_caseId e); cites (we_caseId e) (we_kind e) (we_payload e)\<rbrakk> \<Longrightarrow> preserves D (addEvidence now e)"
    and claimed: "acts (wc_caseId wc) \<Longrightarrow> preserves D (writeClaim now wc)"
    and run_recorded: "acts (ar_case run) \<Longrightarrow> preserves D (recordRun run)"
    and routed: "preserves D (Blackboard.route E now rvn)"
    and promised: "preserves D (reconcilePromises now)"
    and incident_opened: "preserves D (incident_open now inc cand src)"
    and rca: "preserves D (recordRca now inc ps)"
    and labelled: "preserves D (label_case c g)"
    and logged_row: "logs c ty ps \<Longrightarrow> preserves D (ledger_append now c actor ty ps)"
    and other_logs: "ty \<noteq> ''plan_selected'' \<Longrightarrow> logs c ty ps"
    and other_cites: "kind \<noteq> decline_code \<Longrightarrow> cites c kind ps"
    and schedule_acts: "\<lbrakk>D s; a \<in> set (scheduled_actions s)\<rbrakk> \<Longrightarrow> acts (sa_case a)"
    and promise_acts: "\<lbrakk>D s; p \<in> set (promises_to_pay s)\<rbrakk> \<Longrightarrow> acts (pm_case p)"
begin

abbreviation holds :: "db \<times> 'w batch \<Rightarrow> bool" where
  "holds \<equiv> batch_holds D acts"

lemma on_data [runner_steps]: "preserves D m \<Longrightarrow> preserves holds (on_db m)"
  by (auto simp: preserves_def batch_holds_def on_db_app)

lemma looked [runner_steps]: "preserves holds (look f)" "preserves holds (uuid G)" "preserves holds (count h)"
  by (auto simp: preserves_def batch_holds_def monad_simps)

lemma changed: "(\<And>b. memory_acts acts b \<Longrightarrow> memory_acts acts (g b)) \<Longrightarrow> preserves holds (change g)"
  by (auto simp: preserves_def batch_holds_def monad_simps)

lemma plan_changed [runner_steps]:
  "acts c \<Longrightarrow> preserves holds (set_plan c steps)" "preserves holds (drop_plan c)" "preserves holds (close_in_memory c)"
  unfolding set_plan_def drop_plan_def close_in_memory_def by (intro changed memory_acts_plan; assumption)+

lemma part_psp [runner_steps]:
  "preserves (\<lambda>(s, w). D s) m \<Longrightarrow> preserves holds (on_part bt_psp (\<lambda>x b. b\<lparr>bt_psp := x\<rparr>) m)"
  "preserves (\<lambda>(s, w). D s) m2 \<Longrightarrow> preserves holds (on_part bt_release (\<lambda>x b. b\<lparr>bt_release := x\<rparr>) m2)"
  "preserves (\<lambda>(s, w). D s) m3 \<Longrightarrow> preserves holds (on_part bt_llm (\<lambda>x b. b\<lparr>bt_llm := x\<rparr>) m3)"
  by (auto simp: preserves_def batch_holds_def on_part_app case_prod_unfold)

lemma beside: "preserves D m \<Longrightarrow> preserves (\<lambda>(s, w). D s) (on_db m)" "preserves (\<lambda>(s, w). D s) (on_world m')"
  by (auto simp: preserves_def on_db_app on_world_app)

lemma logged_other: "ty \<noteq> ''plan_selected'' \<Longrightarrow> preserves D (ledger_append now c actor ty ps)"
  by (rule logged_row, rule other_logs)

lemmas on_rows [runner_steps] = open_case settlement outcome exhausted appended intent attached scheduled completed
  authorized consumed claimed run_recorded routed incident_opened rca labelled

lemma log_kept: "logs c ty ps \<Longrightarrow> preserves holds (log_ledger now c actor ty ps)"
  unfolding log_ledger_def by (intro runner_steps logged_row)

lemma logs_keep [runner_steps]:
  "ty \<noteq> ''plan_selected'' \<Longrightarrow> preserves holds (log_ledger now c actor ty ps)" "preserves holds (case_state c)"
  "runner_event ev \<Longrightarrow> preserves holds (log_event now c ev src)"
  unfolding case_state_def log_event_def by (intro runner_steps preserves_intros log_kept other_logs; assumption?)+

section \<open>Planning\<close>

lemma next_acting_keeps [runner_steps]: "acts c \<Longrightarrow> preserves holds (next_acting E lib c extra nxt steps)"
  by (induction steps arbitrary: extra nxt) (auto intro!: preserves_intros runner_steps)

lemma advance_keeps [runner_steps]: "acts (sy_caseId sc) \<Longrightarrow> preserves holds (advancePlan G now sc delayMs)"
  unfolding advancePlan_def schedule_step_def
  by (auto intro!: preserves_intros runner_steps split: option.split list.split prod.split)

lemma attempt_set [runner_steps]: "preserves holds (change (\<lambda>b. b\<lparr>bt_attemptNos := g b\<rparr>))"
  by (rule changed) simp

lemma start_keeps [runner_steps]: "acts (sy_caseId sc) \<Longrightarrow> preserves holds (startPlan G now sc steps tier delay)"
  unfolding startPlan_def by (auto intro!: preserves_intros runner_steps)

lemma single_keeps [runner_steps]: "acts (sy_caseId sc) \<Longrightarrow> preserves holds (single_plan G now sc action tier delay)"
  unfolding single_plan_def by (auto intro!: preserves_intros runner_steps split: option.split)

lemma labels_keep [runner_steps]:
  "preserves holds (recordDiagnosis sc cause tier)" "preserves holds (recordStratum sc stratum)"
  by (simp_all add: recordDiagnosis_def recordStratum_def runner_steps)

lemma evidence_keeps:
  "\<lbrakk>acts (sy_caseId sc); cites (sy_caseId sc) kind payload\<rbrakk> \<Longrightarrow> preserves holds (add_evidence now sc i kind payload src)"
  by (simp add: add_evidence_def on_data evidence_added)

lemma claim_keeps [runner_steps]: "acts (sy_caseId sc) \<Longrightarrow> preserves holds (write_claim G now sc role confidence payload)"
  unfolding write_claim_def by (auto intro!: preserves_intros runner_steps)

lemma tier0_keeps:
  "\<lbrakk>acts (sy_caseId sc); logs (sy_caseId sc) ''plan_selected'' (plan_record k plan)\<rbrakk>
     \<Longrightarrow> preserves holds (plan_tier0 G now sc delay k plan)"
  unfolding plan_tier0_def tier0_claims_def log_mandate_def log_tier0_def Let_def plan_record_def
  by (intro preserves_intros runner_steps log_kept) simp_all

lemma outcome_keeps: "acts (sx_caseId x) \<Longrightarrow> preserves D (record_outcome E now ids x revision allowed i out res)"
  unfolding record_outcome_def Let_def
  by (cases "snd out") (auto intro!: preserves_intros on_rows simp: failed_run_def ok_run_def run_claim_def logged_other)

lemma outcomes_keep: "acts (sx_caseId x) \<Longrightarrow> preserves D (record_outcomes E now ids x revision allowed i outs res)"
  by (induction outs arbitrary: i res) (auto intro!: preserves_intros outcome_keeps)

lemma roles_keep: "acts (sx_caseId x) \<Longrightarrow>
    preserves (\<lambda>(s, w). D s) (run_roles E lib tx provider md mc late now ids revision roles x allowed)"
  unfolding run_roles_def by (intro preserves_intros beside outcomes_keep)

lemma specialists_keep [runner_steps]:
  "acts (sy_caseId sc) \<Longrightarrow> preserves holds (run_specialists G now sc rvn)"
  "preserves holds (currentRevision c)" "preserves holds (strategy_of G found d)"
  unfolding currentRevision_def run_specialists_def strategy_of_def Let_def
  by (auto intro!: preserves_intros runner_steps roles_keep changed beside preserves_readM simp: specialistInput_def
      split: option.split)

lemma tier1_keeps [runner_steps]: "acts (sy_caseId sc) \<Longrightarrow> preserves holds (plan_tier1 G now sc delay)"
  unfolding plan_tier1_def degraded_plan_def plan_strategy_def Let_def
  by (auto intro!: preserves_intros runner_steps split: option.split)

lemma plan_keeps:
  assumes "acts (sy_caseId sc)" and "cites (sy_caseId sc) decline_code (decline_record sc)"
    and "\<And>k plan. tier0_resolve G sc = Resolved k plan \<Longrightarrow> logs (sy_caseId sc) ''plan_selected'' (plan_record k plan)"
  shows "preserves holds (plan_case G now sc delay)"
  using assms unfolding plan_case_def decline_record_def
  by (cases "tier0_resolve G sc")
     (auto intro!: preserves_intros runner_steps evidence_keeps tier0_keeps other_cites split: option.split)

text \<open>A case is opened with its arm, and planned unless it is held out.\<close>

lemma open_keeps:
  assumes "\<And>h. arm_of G sc = Inr h \<Longrightarrow> opens (open_request G now h sc)"
    and "arm_of G sc = Inr False \<Longrightarrow> acts (sy_caseId sc)"
    and "cites (sy_caseId sc) decline_code (decline_record sc)"
    and "\<And>k plan. tier0_resolve G sc = Resolved k plan \<Longrightarrow> logs (sy_caseId sc) ''plan_selected'' (plan_record k plan)"
  shows "preserves holds (openAndPlan G now i sc)"
  unfolding openAndPlan_def
proof (rule preserves_bind_run)
  fix s h t assume "liftE (arm_of G sc) s = (Inr h, t)"
  then have h: "arm_of G sc = Inr h" by (simp add: monad_simps)
  then have "preserves holds (if h then retM () else plan_case G now sc (int (i mod 14) * HOUR))"
    using assms by (auto intro!: preserves_retM plan_keeps)
  with assms(1) [OF h] show "preserves holds (thenM (on_db (openOrAttach now (open_request G now h sc)))
      (bindM (liftE (stratumOf (stratum_input sc))) (\<lambda>stratum.
       thenM (recordStratum sc stratum) (if h then retM () else plan_case G now sc (int (i mod 14) * HOUR)))))"
    by (intro preserves_thenM preserves_bindM preserves_liftE runner_steps)
qed (rule preserves_liftE)

definition cohort_fits :: "'w batch_setup \<Rightarrow> bool" where
  "cohort_fits G \<longleftrightarrow> (\<forall>sc \<in> set (bf_cohort G).
     (\<forall>h now. arm_of G sc = Inr h \<longrightarrow> opens (open_request G now h sc))
     \<and> (arm_of G sc = Inr False \<longrightarrow> acts (sy_caseId sc))
     \<and> cites (sy_caseId sc) decline_code (decline_record sc)
     \<and> (\<forall>k plan. tier0_resolve G sc = Resolved k plan \<longrightarrow> logs (sy_caseId sc) ''plan_selected'' (plan_record k plan)))"

lemma open_all_keeps:
  assumes "cohort_fits G" and "set scs \<subseteq> set (bf_cohort G)"
  shows "preserves holds (open_all G now i scs)"
  using assms(2)
proof (induction scs arbitrary: i)
  case (Cons sc scs)
  with assms(1) have "preserves holds (openAndPlan G now i sc)"
    by (intro open_keeps) (auto simp: cohort_fits_def)
  with Cons show ?case by (auto intro: preserves_thenM)
qed (simp add: preserves_retM)

section \<open>Steps\<close>

lemma resume_keeps [runner_steps]: "acts (sy_caseId sc) \<Longrightarrow> preserves holds (resume_with G now sc step delayMs)"
  unfolding resume_with_def by (auto intro!: preserves_intros runner_steps)

lemma refused_keeps [runner_steps]:
  "acts (sy_caseId sc) \<Longrightarrow> preserves holds (refused_step G now sc actionId ps attemptNo rule)"
  unfolding refused_step_def Let_def
  by (auto intro!: preserves_intros runner_steps split: option.split)

lemma attempt_keeps [runner_steps]:
  "acts (sy_caseId sc) \<Longrightarrow> preserves holds (after_attempt G now elapsed sc action actionId ps attemptNo out)"
  unfolding after_attempt_def Let_def
  by (auto intro!: preserves_intros runner_steps changed memory_acts_replies simp: memory_acts_def [of acts b for b])

lemma failed_keeps [runner_steps]: "acts (sy_caseId sc) \<Longrightarrow> preserves holds (failed_step G now sc e)"
  unfolding failed_step_def by (cases e) (auto intro!: preserves_intros runner_steps)

lemma called [runner_steps]: "acts (xr_caseId req) \<Longrightarrow> preserves holds (call_psp G now req)"
  unfolding call_psp_def by (intro runner_steps executed)

lemma step_keeps [runner_steps]:
  "acts (sy_caseId sc) \<Longrightarrow> preserves holds (runStep G now elapsed sc actionId ps attemptNo)"
  unfolding runStep_def permitted_step_def
  by (auto intro!: preserves_intros runner_steps simp: evaluation_context_def execute_request_def split: option.split)

section \<open>Ticks\<close>

lemma settle_keeps [runner_steps]: "preserves holds (settle_and_close now elapsed c x)"
  unfolding settle_and_close_def
  by (auto intro!: preserves_intros runner_steps changed split: VerificationOutcome.split)

lemma world_keeps [runner_steps]: "preserves holds (world_event G now elapsed ev)"
  unfolding world_event_def by (auto intro!: preserves_intros runner_steps split: option.split world_kind.split)

lemma drain_keeps [runner_steps]: "preserves holds (drain_world G now elapsed)"
  unfolding drain_world_def by (auto intro!: preserves_intros runner_steps changed)

lemma case_by_id_Some: "case_by_id G c = Some sc \<Longrightarrow> sy_caseId sc = c \<and> sc \<in> set (bf_cohort G)"
  unfolding case_by_id_def by (auto dest!: map_of_SomeD js_map_of_mem)

lemma reply_keeps: "acts (qr_caseId r) \<Longrightarrow> preserves holds (process_reply G now r)"
  unfolding process_reply_def route_reply_def Let_def
  by (cases "case_by_id G (qr_caseId r)")
     (auto intro!: preserves_intros runner_steps evidence_added other_cites split: IntentOutcome.split dest: case_by_id_Some)

lemma replies_keep [runner_steps]: "preserves holds (process_replies G now elapsed)"
  unfolding process_replies_def
proof (rule preserves_bind_look)
  fix s b assume "holds (s, b)"
  then have "acts (qr_caseId r)" if "r \<in> set (bt_replies b)" for r
    using that by (simp add: batch_holds_def memory_acts_def)
  moreover have "preserves holds (change (\<lambda>b. b\<lparr>bt_replies := filter P (bt_replies b)\<rparr>))" for P
    by (rule changed, rule memory_acts_replies) (auto simp: memory_acts_def)
  ultimately show "preserves holds (thenM (change (\<lambda>b. b\<lparr>bt_replies := filter (\<lambda>r. \<not> qr_atMs r \<le> elapsed) (bt_replies b)\<rparr>))
      (forM (rev (filter (\<lambda>r. qr_atMs r \<le> elapsed) (bt_replies b))) (process_reply G now)))"
    by (auto intro!: preserves_thenM preserves_forM_mem reply_keeps)
qed

lemma broken_keeps: "acts c \<Longrightarrow> preserves holds (resume_broken G now c)"
  unfolding resume_broken_def
  by (cases "case_by_id G c") (auto intro!: preserves_intros runner_steps split: option.split dest: case_by_id_Some)

lemma promises_keep [runner_steps]: "preserves holds (process_promises G now)"
proof -
  have rows: "preserves holds (bindM (on_db (readM (\<lambda>s. map pm_case (filter P (promises_to_pay s))))) (\<lambda>cs. forM cs (resume_broken G now)))"
    for P
  proof (rule preserves_bind_run)
    fix s r t assume "holds s" "on_db (readM (\<lambda>s. map pm_case (filter P (promises_to_pay s)))) s = (Inr r, t)"
    then have "acts c" if "c \<in> set r" for c
      using that promise_acts [of "fst s"] by (cases s) (auto simp: batch_holds_def monad_simps)
    then show "preserves holds (forM r (resume_broken G now))" by (intro preserves_forM_mem broken_keeps)
  qed (intro runner_steps preserves_readM)
  show ?thesis
    unfolding process_promises_def
    by (auto intro!: preserves_bindM preserves_retM rows on_data promised split: prod.split)
qed

lemma settlements_keep [runner_steps]: "preserves holds (process_settlements G now elapsed)"
  unfolding process_settlements_def process_settlement_def
  by (auto intro!: preserves_intros runner_steps changed)

lemma due_keeps: "acts (sd_caseId act) \<Longrightarrow> preserves holds (run_due G now elapsed act)"
  unfolding run_due_def
  by (cases "case_by_id G (sd_caseId act)") (auto intro!: preserves_intros runner_steps dest: case_by_id_Some)

lemma scheduled_keeps [runner_steps]: "preserves holds (run_scheduled G now elapsed)"
  unfolding run_scheduled_def
proof (rule preserves_bind_run)
  fix s r t assume "holds s" "on_db (Scheduler.tick (bf_env G) 30000 now [] ''batch_worker'' 500) s = (Inr r, t)"
  then have "acts (sd_caseId a)" if "a \<in> set r" for a
    using that schedule_acts [of "fst s"] tick_select_mem
    by (cases s) (fastforce simp: batch_holds_def monad_simps tick_eval Let_def scheduled_of_def)
  then show "preserves holds (forM r (run_due G now elapsed))" by (intro preserves_forM_mem due_keeps)
qed (intro runner_steps ticked)

section \<open>Incidents and the loop\<close>

lemma affected_acts: "\<lbrakk>holds (s, b); c \<in> set (affected_cases G seg b)\<rbrakk> \<Longrightarrow> acts c"
  by (auto simp: batch_holds_def memory_acts_def affected_cases_def)

lemma incident_keeps [runner_steps]: "preserves holds (open_incident G now cand)"
proof -
  have rest: "preserves holds (bindM (look (affected_cases G seg)) (\<lambda>affected.
      bindM (on_db (attachAndSuppress now inc affected)) (\<lambda>parked.
      thenM (count (f parked)) (thenM (change (\<lambda>b. b\<lparr>bt_members := AList.update inc affected (bt_members b)\<rparr>))
     (thenM (forM affected drop_plan) (on_db (recordRca now inc ps)))))))" for seg inc f ps
    by (rule preserves_bind_look)
       (auto intro!: preserves_intros runner_steps changed memory_acts_members dest: affected_acts)
  show ?thesis
    unfolding open_incident_def by (auto intro!: preserves_intros runner_steps changed rest)
qed

lemma resumed_keeps [runner_steps]: "preserves holds (resume_released G now inc pks sc)"
  unfolding resume_released_def
proof (rule preserves_bind_look)
  fix s b assume "holds (s, b)"
  then have "acts (sy_caseId sc)" if "sy_caseId sc \<in> set (dflt (map_of (bt_members b) inc) [])"
    using that by (cases "map_of (bt_members b) inc") (auto simp: batch_holds_def memory_acts_def dflt_def)
  then show "preserves holds (if sy_caseId sc \<in> set (bt_closed b) \<or> sy_caseId sc \<in> set pks \<or> plan_of (sy_caseId sc) b \<noteq> None
        \<or> sy_caseId sc \<notin> set (dflt (map_of (bt_members b) inc) [])
      then retM () else case genericFallback G sc of None \<Rightarrow> retM () | Some r \<Rightarrow> startPlan G now sc [default_step r sc] 0 0)"
    by (auto intro!: preserves_intros runner_steps split: option.split)
qed

lemma release_keeps [runner_steps]: "preserves holds (release_open G now wc inc)"
  unfolding release_open_def Let_def
  by (auto intro!: preserves_intros runner_steps ramped changed preserves_readM simp: parkedCases_def
      split: option.split prod.split)

lemma watch_keeps [runner_steps]: "preserves holds (watch_segments G now)"
  unfolding watch_segments_def detect_def
  by (auto intro!: preserves_intros runner_steps changed split: prod.split)

lemma clock_keeps [runner_steps]: "preserves holds (advance_clock t)"
  unfolding advance_clock_def by (auto intro!: preserves_intros runner_steps changed)

lemma tick_keeps: "preserves holds (batch_tick G elapsed)"
  unfolding batch_tick_def Let_def by (intro preserves_intros runner_steps)

lemma finish_keeps: "preserves holds (finish_batch G)"
  unfolding finish_batch_def close_out_def measure_batch_def Let_def
  by (auto intro!: preserves_intros runner_steps preserves_readM simp: blockCountsByRule_def split: option.split)

lemma loop_keeps:
  assumes "clock_loop G horizon elapsed x = Some (r, y)" and "holds x"
  shows "holds y"
proof -
  have "holds x \<longrightarrow> holds (snd ry)" if "clock_loop G horizon elapsed x = Some ry" for ry
    using that
  proof (rule clock_loop_induct)
    fix loop and G :: "'a batch_setup" and h e x ry
    assume ih: "\<And>(G :: 'a batch_setup) h e x ry. loop G h e x = Some ry \<Longrightarrow> holds x \<longrightarrow> holds (snd ry)"
      and run: "(if e > h then Some (Inr (), x) else (case batch_tick G e x of (Inl er, z) \<Rightarrow> Some (Inl er, z)
          | (Inr _, z) \<Rightarrow> loop G h (e + bf_tickMs G) z)) = Some ry"
    obtain r z where tick: "batch_tick G e x = (r, z)" by (cases "batch_tick G e x")
    have keep: "holds z" if "holds x" using preserves_run [OF tick_keeps tick that] .
    show "holds x \<longrightarrow> holds (snd ry)"
    proof (cases "e > h \<or> isl r")
      case True
      with run keep show ?thesis by (cases r) (auto simp: tick split: if_splits)
    next
      case False
      then obtain u where "r = Inr u" by (cases r) simp_all
      with False run have "loop G h (e + bf_tickMs G) z = Some ry" by (simp add: tick)
      from ih [OF this] keep show ?thesis by blast
    qed
  qed
  with assms show ?thesis by fastforce
qed

text \<open>Whatever the phase of the batch ends with, the invariant holds.\<close>

lemma cohort_keeps:
  assumes "run_cohort G (s, b) = Some (r, y)" and seed: "D (snd (seedMerchant (sn_merchant (bf_scenario G)) (bf_cohort G) s))"
    and "memory_acts acts b"
    and fits: "cohort_fits G"
  shows "holds y"
proof -
  have "holds (snd (on_db (seedMerchant (sn_merchant (bf_scenario G)) (bf_cohort G)) (s, b)))"
    using seed assms(3) by (simp add: batch_holds_def on_db_app)
  then have start: "holds (snd (start_batch G (s, b)))"
    unfolding start_batch_def by (rule thenM_keeps) (rule open_all_keeps [OF fits subset_refl])
  show ?thesis
    using assms(1) start loop_keeps [of G "horizonMs G" 0 "snd (start_batch G (s, b))"]
      preservesD [OF finish_keeps, of _ G]
    unfolding run_cohort_def
    by (auto split: prod.splits sum.splits option.splits) (metis snd_conv)+
qed

end

end
