(* ===== verification/Batch_Rows.thy ===== *)
theory Batch_Rows
  imports Batch_Invariant
begin

text \<open>
  The interface of \<open>Batch_Invariant\<close> reduced to rows: a condition that survives each kind of row an operation
  inserts, and each update that leaves the case of a row as it is, is kept by every operation of the
  components, and so by the whole batch.
\<close>

lemma label_row_domain [simp]: "cs_domain (label_row g r) = cs_domain r"
  by (simp add: label_row_def split: prod.split)

locale row_invariant =
  fixes D :: "db \<Rightarrow> bool" and acts :: "string \<Rightarrow> bool" and opens :: "OpenCaseRequest \<Rightarrow> bool"
    and logs :: "string \<Rightarrow> string \<Rightarrow> params \<Rightarrow> bool" and cites :: "string \<Rightarrow> EvidenceKind \<Rightarrow> params \<Rightarrow> bool"
  assumes free: "D (s\<lparr>obligations := x1\<rparr>) = D s" "D (s\<lparr>case_events := x2\<rparr>) = D s" "D (s\<lparr>case_revisions := x3\<rparr>) = D s"
      "D (s\<lparr>obligation_locks := x4\<rparr>) = D s" "D (s\<lparr>token_burns := x5\<rparr>) = D s" "D (s\<lparr>contact_budgets := x6\<rparr>) = D s"
      "D (s\<lparr>settlements := x7\<rparr>) = D s" "D (s\<lparr>incidents := x8\<rparr>) = D s"
    and new_case: "\<lbrakk>D s; opens req\<rbrakk> \<Longrightarrow> D (s\<lparr>case_rows := case_rows s @ [new_case_row now req ob]\<rparr>)"
    and new_work: "\<lbrakk>D s; acts (sa_case a)\<rbrakk> \<Longrightarrow> D (s\<lparr>scheduled_actions := scheduled_actions s @ [a], next_sched_id := i\<rparr>)"
      "\<lbrakk>D s; acts (at_case t)\<rbrakk> \<Longrightarrow> D (s\<lparr>action_attempts := action_attempts s @ [t]\<rparr>)"
      "\<lbrakk>D s; acts (ct_case k)\<rbrakk> \<Longrightarrow> D (s\<lparr>capability_tokens := capability_tokens s @ [k]\<rparr>)"
      "\<lbrakk>D s; acts (dr_case d)\<rbrakk> \<Longrightarrow> D (s\<lparr>policy_decisions := policy_decisions s @ [d]\<rparr>)"
      "\<lbrakk>D s; acts (pm_case p)\<rbrakk> \<Longrightarrow> D (s\<lparr>promises_to_pay := promises_to_pay s @ [p]\<rparr>)"
      "\<lbrakk>D s; acts (er_case e); cites (er_case e) (er_kind e) (er_payload e)\<rbrakk> \<Longrightarrow> D (s\<lparr>evidence := evidence s @ [e]\<rparr>)"
      "\<lbrakk>D s; acts (cm_case m)\<rbrakk> \<Longrightarrow> D (s\<lparr>claims := claims s @ [m]\<rparr>)"
      "\<lbrakk>D s; acts (ar_case r)\<rbrakk> \<Longrightarrow> D (s\<lparr>agent_runs := agent_runs s @ [r]\<rparr>)"
      "\<lbrakk>D s; acts (im_case x)\<rbrakk> \<Longrightarrow> D (s\<lparr>incident_members := incident_members s @ [x]\<rparr>)"
    and updated: "\<lbrakk>D s; \<And>r. (cs_id (q r), cs_domain (q r), cs_holdout (q r)) = (cs_id r, cs_domain r, cs_holdout r)\<rbrakk>
        \<Longrightarrow> D (s\<lparr>case_rows := update_where U q (case_rows s)\<rparr>)"
      "\<lbrakk>D s; \<And>a. sa_case (f a) = sa_case a\<rbrakk> \<Longrightarrow> D (s\<lparr>scheduled_actions := update_where P f (scheduled_actions s)\<rparr>)"
      "\<lbrakk>D s; \<And>t. at_case (g t) = at_case t\<rbrakk> \<Longrightarrow> D (s\<lparr>action_attempts := update_where Q g (action_attempts s)\<rparr>)"
      "\<lbrakk>D s; \<And>p. pm_case (h p) = pm_case p\<rbrakk> \<Longrightarrow> D (s\<lparr>promises_to_pay := update_where R h (promises_to_pay s)\<rparr>)"
      "\<lbrakk>D s; \<And>m. cm_case (l m) = cm_case m\<rbrakk> \<Longrightarrow> D (s\<lparr>claims := update_where S l (claims s)\<rparr>)"
      "\<lbrakk>D s; \<And>x. im_case (j x) = im_case x\<rbrakk> \<Longrightarrow> D (s\<lparr>incident_members := update_where T j (incident_members s)\<rparr>)"
    and new_entry: "\<lbrakk>D s; logs (lg_case y) (lg_type y) (lg_payload y)\<rbrakk> \<Longrightarrow> D (s\<lparr>ledger := ledger s @ [y]\<rparr>)"
    and entries: "ty \<noteq> ''plan_selected'' \<Longrightarrow> logs c ty ps"
    and citations: "kind \<noteq> decline_code \<Longrightarrow> cites c kind ps"
    and named: "\<lbrakk>D s; a \<in> set (scheduled_actions s)\<rbrakk> \<Longrightarrow> acts (sa_case a)"
      "\<lbrakk>D s; p \<in> set (promises_to_pay s)\<rbrakk> \<Longrightarrow> acts (pm_case p)"
begin

declare free [simp]

lemmas row_intros = preserves_intros preserves_modifyM new_work updated

lemma row_ledger: "logs c ty ps \<Longrightarrow> preserves D (ledger_append now c actor ty ps)"
  unfolding ledger_append_def by (auto simp: preserves_def monad_simps intro!: new_entry)

lemma row_entry: "ty \<noteq> ''plan_selected'' \<Longrightarrow> preserves D (ledger_append now c actor ty ps)"
  by (intro row_ledger entries)

lemma row_revised: "preserves D (insert_case_event e)" "preserves D (insert_revision rvn)" "preserves D (upsert_obligation req)"
  unfolding insert_case_event_def insert_revision_def upsert_obligation_def
  by (auto intro!: preserves_intros preserves_modifyM split: option.split)

lemma row_append: "preserves D (event_append now c ev src)"
  unfolding event_append_def cancel_outstanding_def Let_def
  by (intro row_intros row_revised; simp add: cancel_row_def write_revision_def)

lemma row_cancel: "preserves D (cancelForCase now c)"
  unfolding cancelForCase_def cancel_outstanding_def
  by (intro row_intros) (simp_all add: cancel_row_def)

lemma row_open:
  "opens req \<Longrightarrow> preserves D (openOrAttach now req)"
  unfolding openOrAttach_def attach_or_insert_def insert_case_def
  by (intro preserves_intros preserves_modifyM row_append row_revised new_case; assumption)

lemma row_outcome:
  "preserves D (onOutcome now sig)" "preserves D (exhaust now c reason)"
  unfolding onOutcome_def exhaust_def by (auto intro!: preserves_intros row_append row_entry row_cancel)

lemma row_settlement: "preserves D (onSettlement now x)"
  unfolding onSettlement_def close_recovered_def settle_obligation_def settledAmount_def
    rc_record_def insert_settlement_def
  by (auto intro!: preserves_intros preserves_modifyM row_append row_entry row_cancel split: option.splits)

lemma row_intent: "acts (ix_caseId ctx) \<Longrightarrow> preserves D (ir_route E grace now pid i ctx)"
  unfolding ir_route_def insert_promise_def Let_def
  by (cases i) (auto intro!: preserves_intros preserves_modifyM row_append row_entry row_outcome new_work simp: new_promise_def)

lemma row_attached:
  assumes "\<And>c. c \<in> set cs \<Longrightarrow> acts c"
  shows "preserves D (attachAndSuppress now inc cs)"
proof -
  have one: "preserves D (attach_step now inc n c)" if "acts c" for n c
    unfolding attach_step_def attach_one_def insert_member_def
    using that by (auto intro!: preserves_intros preserves_modifyM row_append row_entry row_cancel new_work)
  have "preserves D (foldM (attach_step now inc) n cs)" for n
    using assms by (induction cs arbitrary: n) (simp_all add: preserves_retM preserves_bindM one)
  then show ?thesis
    unfolding attachAndSuppress_def by (intro preserves_bindM preserves_thenM preserves_retM row_append row_cancel; simp add: row_entry)
qed

lemma row_queue:
  "acts (sr_caseId sreq) \<Longrightarrow> preserves D (sched_schedule now sreq)"
  "preserves D (sched_complete now k)"
  unfolding sched_schedule_def sched_complete_def
  by (auto intro!: preserves_intros preserves_modifyM new_work updated simp: new_sched_row_def done_row_def)

lemma row_tick: "preserves D (Scheduler.tick E leaseMs now locked owner limit)"
  by (rule preservesI) (simp add: tick_eval Let_def updated lease_row_def)

lemma row_authorize: "acts (ec_caseId ctx) \<Longrightarrow> preserves D (authorize E pol lib m now nonce ctx)"
  unfolding authorize_def pe_record_def persistToken_def Let_def
  by (intro preserves_intros preserves_modifyM new_work) (simp_all add: preserves_def pe_evaluate_state)

lemma row_consume: "preserves D (consumeContactBudget E pol now cust ch)"
  unfolding consumeContactBudget_def consume_cap_def
  by (intro preserves_intros preserves_modifyM) simp_all

lemma row_beside:
  "preserves D m \<Longrightarrow> preserves (\<lambda>(s, w). D s) (on_db m)"
  "preserves (\<lambda>(s, w). D s) (on_world m')"
  by (auto simp: preserves_def on_db_app on_world_app)

lemma row_execute:
  assumes "acts (xr_caseId req)"
  shows "preserves (\<lambda>(s, w). D s) (execute E ad lib m ttl now req)"
proof -
  have "preserves D (record_attempt (new_attempt now k surf req))" for k surf
    unfolding record_attempt_def insert_attempt_def
    using assms by (auto intro!: preserves_intros preserves_modifyM new_work simp: new_attempt_def split: err.split)
  moreover have "preserves D (settle now k st resp)" for k st resp
    unfolding settle_def by (intro preserves_modifyM updated) simp_all
  moreover have "preserves D (burn now tok)" for tok
    by (auto simp: preserves_def monad_simps)
  ultimately show ?thesis
    unfolding execute_def admitted_def
    by (intro preserves_intros preserves_withLease row_beside) simp_all
qed

lemma row_ramp: "preserves (\<lambda>(s, w). D s) (release_step E cfg now inc h)"
proof -
  have "preserves D (incident_release now inc cs)" "preserves D (repark now inc cs)" for cs
    unfolding incident_release_def mark_released_def repark_def repark_one_def
    by (intro preserves_intros preserves_modifyM row_append row_entry row_cancel updated; simp)+
  moreover have "preserves D (setState now inc st k)" for st k
    unfolding setState_def by (rule preserves_modifyM) simp
  ultimately show ?thesis
    unfolding release_step_def breaker_step_def complete_step_def ramp_step_def log_step_def
      incident_get_def parkedCases_def Let_def
    by (intro preserves_intros row_beside row_entry; simp)
qed

lemma row_board:
  "\<lbrakk>acts (we_caseId e); cites (we_caseId e) (we_kind e) (we_payload e)\<rbrakk> \<Longrightarrow> preserves D (addEvidence now e)"
  "acts (wc_caseId wc) \<Longrightarrow> preserves D (writeClaim now wc)"
  "acts (ar_case run) \<Longrightarrow> preserves D (recordRun run)"
  "preserves D (Blackboard.route E now rvn)"
  "preserves D (reconcilePromises now)"
  unfolding addEvidence_def writeClaim_def insert_claim_def recordRun_def Blackboard.route_def liveClaims_def
    invalidateRoles_def reconcilePromises_def settle_promise_def Let_def
  by (auto intro!: preserves_intros preserves_modifyM new_work updated row_entry simp: new_claim_def split: if_splits)

lemma row_rows:
  "preserves D (incident_open now inc cand src)" "preserves D (recordRca now inc ps)"
  "preserves D (label_case c g)"
  unfolding incident_open_def recordRca_def label_case_def
  by (intro preserves_intros preserves_modifyM row_entry updated; simp)+


end

text \<open>Hence the whole batch.\<close>

sublocale row_invariant \<subseteq> runner_invariant D acts opens logs cites
  by unfold_locales
     (auto intro: row_open row_settlement row_outcome row_append row_intent row_attached row_queue row_tick row_authorize
       row_consume row_execute row_ramp row_board row_rows row_ledger entries citations named)

end
