(* ===== verification/Batch_Engine.thy ===== *)
theory Batch_Engine
  imports Batch_Invariant
begin

text \<open>
  The simulated batch is a run of the engine: whatever the runner does to the data base is a sequence of the steps
  of \<open>System\<close>, so that everything shown of the reachable states holds in every state of a batch. And its loop
  over the clock ends.
\<close>

section \<open>The batch as a run of the engine\<close>

text \<open>The states the engine reaches from a given one; the runner keeps to them whatever the case.\<close>

definition from_db :: "db \<Rightarrow> db \<Rightarrow> bool" where
  "from_db s0 s \<longleftrightarrow> (sys_step TYPE(simulator))\<^sup>*\<^sup>* s0 s"

lemma from_db_step: "(\<And>s. sys_step TYPE(simulator) s (after m s)) \<Longrightarrow> preserves (from_db s0) m"
  unfolding preserves_def from_db_def after_def by (meson rtranclp.rtrancl_into_rtrancl)

lemma from_db_io:
  "(\<And>s w. sys_step TYPE(simulator) s (after_io w m s)) \<Longrightarrow> preserves (\<lambda>(s, w). from_db s0 s) m"
  unfolding preserves_def from_db_def after_io_def by clarsimp (metis fst_conv rtranclp.rtrancl_into_rtrancl)

lemma from_db_case:
  "preserves (from_db s0) (openOrAttach now req)" "preserves (from_db s0) (onSettlement now x)"
  "preserves (from_db s0) (onOutcome now sig)" "preserves (from_db s0) (exhaust now c reason)"
  "preserves (from_db s0) (ir_route E grace now pid i ctx)" "preserves (from_db s0) (attachAndSuppress now inc cs)"
  "runner_event ev \<Longrightarrow> preserves (from_db s0) (event_append now c ev src)"
  by (rule from_db_step, simp add: sys_step_def case_step.intros)+

lemma from_db_work:
  "preserves (from_db s0) (sched_schedule now sreq)" "preserves (from_db s0) (Scheduler.tick E leaseMs now locked owner limit)"
  "preserves (from_db s0) (sched_complete now i)" "preserves (from_db s0) (authorize E p lib m now nonce ctx)"
  "preserves (from_db s0) (consumeContactBudget E p now cust ch)"
  by (rule from_db_step, simp add: sys_step_def queue_step.intros action_step.intros)+

lemma from_db_board:
  "preserves (from_db s0) (addEvidence now e)" "preserves (from_db s0) (writeClaim now c)" "preserves (from_db s0) (recordRun run)"
  "preserves (from_db s0) (Blackboard.route E now rvn)" "preserves (from_db s0) (reconcilePromises now)"
  "preserves (from_db s0) (incident_open now i cand src)" "preserves (from_db s0) (recordRca now inc ps)"
  "preserves (from_db s0) (label_case k g)" "preserves (from_db s0) (ledger_append now k actor ty ps)"
  by (rule from_db_step, simp add: sys_step_def board_step.intros)+

lemma from_db_outside:
  "preserves (\<lambda>(s, w). from_db s0 s) (execute E (ad :: simulator PSPAdapter) lib m ttl now req)"
  "preserves (\<lambda>(s, w). from_db s0 s) (release_step E rcfg now inc h)"
  by (rule from_db_io, simp add: sys_step_def action_step.execute case_step.ramp)+

interpretation engine: runner_invariant "from_db s0" "\<lambda>_. True" "\<lambda>_. True" "\<lambda>_ _ _. True" "\<lambda>_ _ _. True" for s0
  by unfold_locales (use from_db_case from_db_work from_db_board from_db_outside in simp_all)

lemma seedMerchant_seeded: "\<exists>ms cs. snd (seedMerchant m cohort empty_db) = seeded ms cs"
proof -
  have "snd (seedMerchant m cohort empty_db) =
      seeded [m] (if cohort = [] then [] else fold insert_absent (map sy_customerId cohort) [])"
    by (simp add: seedMerchant_def monad_simps seeded_def empty_db_def insert_absent_def)
  then show ?thesis by blast
qed

lemma run_cohort_reachable:
  assumes "run_cohort G (empty_db, b) = Some (r, (t, b'))"
  shows "reachable TYPE(simulator) t"
proof -
  obtain ms cs where seed: "snd (seedMerchant (sn_merchant (bf_scenario G)) (bf_cohort G) empty_db) = seeded ms cs"
    using seedMerchant_seeded by blast
  have "batch_holds (from_db (seeded ms cs)) (\<lambda>_. True) (t, b')"
    by (rule engine.cohort_keeps [OF assms]) (simp_all add: seed from_db_def memory_acts_def engine.cohort_fits_def)
  then show ?thesis unfolding batch_holds_def from_db_def reachable_def by auto
qed

lemma runBatch_reachable:
  assumes "runBatch G llm empty_db = Some (r, (t, b))"
  shows "reachable TYPE(simulator) t"
proof (cases "generateCohort (bf_env G) (bf_scenario G) (bf_taxonomy G)")
  case (Inl e)
  then have "t = empty_db" using assms by (simp add: runBatch_def)
  then have "t = seeded [] []" by (simp add: seeded_def empty_db_def)
  then show ?thesis by (simp add: reachable_seeded)
next
  case (Inr cohort)
  then show ?thesis using assms run_cohort_reachable by (auto simp: runBatch_def Let_def)
qed

section \<open>The loop over the clock\<close>

text \<open>A positive tick ends after \<open>horizon div tick + 1\<close> rounds; without progress the loop never ends.\<close>

definition tick_count :: "'w batch_setup \<Rightarrow> int \<Rightarrow> int \<Rightarrow> nat" where
  "tick_count G horizon elapsed = (if elapsed > horizon then 0 else nat ((horizon - elapsed) div bf_tickMs G) + 1)"

abbreviation tick_times :: "'w batch_setup \<Rightarrow> int \<Rightarrow> nat \<Rightarrow> int list" where
  "tick_times G elapsed n \<equiv> map (\<lambda>i. elapsed + int i * bf_tickMs G) [0..<n]"

lemma tick_times_Suc: "tick_times G elapsed (Suc n) = elapsed # tick_times G (elapsed + bf_tickMs G) n"
  by (simp add: upt_conv_Cons map_Suc_upt [symmetric] algebra_simps del: upt_Suc)

lemma tick_count_Suc:
  assumes "0 < bf_tickMs G" and "elapsed \<le> horizon"
  shows "tick_count G horizon elapsed = Suc (tick_count G horizon (elapsed + bf_tickMs G))"
proof (cases "elapsed + bf_tickMs G > horizon")
  case True
  with assms show ?thesis by (simp add: tick_count_def div_pos_pos_trivial)
next
  case False
  then have "(horizon - elapsed) div bf_tickMs G = (horizon - (elapsed + bf_tickMs G)) div bf_tickMs G + 1"
    using assms(1) div_add_self2 [of "bf_tickMs G" "horizon - elapsed - bf_tickMs G"] by (simp add: algebra_simps)
  moreover have "0 \<le> (horizon - (elapsed + bf_tickMs G)) div bf_tickMs G"
    using False assms(1) by (simp add: pos_imp_zdiv_nonneg_iff)
  ultimately show ?thesis using False assms(2) by (simp add: tick_count_def nat_add_distrib)
qed

lemma clock_loop_runs:
  assumes "0 < bf_tickMs G"
  shows "clock_loop G horizon elapsed x = Some (forM (tick_times G elapsed (tick_count G horizon elapsed)) (batch_tick G) x)"
proof (induction "tick_count G horizon elapsed" arbitrary: elapsed x)
  case 0
  then have "elapsed > horizon" by (simp add: tick_count_def split: if_splits)
  then show ?case by (simp add: clock_loop.simps [of G horizon elapsed] tick_count_def monad_simps)
next
  case (Suc n)
  then have le: "elapsed \<le> horizon" by (simp add: tick_count_def split: if_splits)
  obtain r y where tick: "batch_tick G elapsed x = (r, y)" by (cases "batch_tick G elapsed x")
  have "n = tick_count G horizon (elapsed + bf_tickMs G)"
    using Suc.hyps(2) tick_count_Suc [OF assms le] by simp
  from Suc.hyps(1) [OF this, of y] show ?case
    unfolding tick_count_Suc [OF assms le] tick_times_Suc
    using le by (cases r) (simp_all add: clock_loop.simps [of G horizon elapsed] tick monad_simps)
qed

lemma clock_loop_stuck:
  assumes "bf_tickMs G = 0" and "elapsed \<le> horizon" and "\<And>x. \<exists>u. fst (batch_tick G elapsed x) = Inr u"
  shows "clock_loop G horizon elapsed x = None"
proof -
  have "\<not> (G' = G \<and> h = horizon \<and> e = elapsed)" if "clock_loop G' h e x = Some y" for G' h e x y
    using that
  proof (rule clock_loop_induct)
    fix loop G' h e x y
    assume ih: "\<And>G' h e x y. loop G' h e x = Some y \<Longrightarrow> \<not> (G' = G \<and> h = horizon \<and> e = elapsed)"
      and run: "(if e > h then Some (Inr (), x) else (case batch_tick G' e x of (Inl er, z) \<Rightarrow> Some (Inl er, z)
          | (Inr _, z) \<Rightarrow> loop G' h (e + bf_tickMs G') z)) = Some y"
    obtain r z where tick: "batch_tick G' e x = (r, z)" by (cases "batch_tick G' e x")
    show "\<not> (G' = G \<and> h = horizon \<and> e = elapsed)"
    proof
      assume eq: "G' = G \<and> h = horizon \<and> e = elapsed"
      moreover obtain u where "r = Inr u" using assms(3) [of x] tick eq by auto
      ultimately have "loop G horizon elapsed z = Some y" using run tick assms(1,2) by simp
      then show False using ih by blast
    qed
  qed
  then have "clock_loop G horizon elapsed x \<noteq> Some y" for y by blast
  then show ?thesis using not_None_eq by blast
qed

end
