(* ===== verification/Batch_Holdout.thy ===== *)
theory Batch_Holdout
  imports Batch_Rows Batch_Engine
begin

text \<open>
  The control group is never acted on. \<open>worked_on\<close> collects the cases that any row of agent work names: a scheduled
  action, an attempt, a token, a policy decision, a promise, evidence, a claim, an agent run or an incident
  membership. Every operation of the components adds at most the case it is called for, so that over
  a batch the set stays within the cases that are not held out, and the rows flagged as held out are exactly outside.
\<close>

definition worked_on :: "db \<Rightarrow> string set" where
  "worked_on s =
     set (map sa_case (scheduled_actions s)) \<union> set (map at_case (action_attempts s)) \<union> set (map ct_case (capability_tokens s))
     \<union> set (map dr_case (policy_decisions s)) \<union> set (map pm_case (promises_to_pay s)) \<union> set (map er_case (evidence s))
     \<union> set (map cm_case (claims s)) \<union> set (map ar_case (agent_runs s)) \<union> set (map im_case (incident_members s))"

text \<open>Only the cases of \<open>acts\<close> are worked on, and none of them is flagged as held out.\<close>

definition works_within :: "(string \<Rightarrow> bool) \<Rightarrow> db \<Rightarrow> bool" where
  "works_within acts s \<longleftrightarrow> (\<forall>c \<in> worked_on s. acts c)
     \<and> (\<forall>x \<in> set (map (\<lambda>r. (cs_id r, cs_holdout r)) (case_rows s)). snd x \<longrightarrow> \<not> acts (fst x))"

text \<open>A new row works on the case it names, and an update of rows does not change the case they name.\<close>

interpretation holdout: row_invariant "works_within acts" acts
    "\<lambda>req. oq_holdout req \<longrightarrow> \<not> acts (oq_caseId req)" "\<lambda>_ _ _. True" "\<lambda>_ _ _. True" for acts
  by unfold_locales
     (simp_all add: works_within_def worked_on_def new_case_row_def map_update_where del: set_map, auto)

section \<open>The batch\<close>

text \<open>The identifiers of a cohort are those of its positions, however its draws come out.\<close>

lemma generate_cases_ids:
  "fst (generate_cases E sc tx i n r) = Inr cs \<Longrightarrow> map sy_caseId cs = map (\<lambda>k. ''c_'' @ padStart5 (nat_str k)) [i..<i + n]"
proof (induction n arbitrary: i r cs)
  case 0
  then show ?case by (simp add: monad_simps)
next
  case (Suc n)
  from Suc.prems obtain c r' cs' where c: "generate_case E sc tx i r = (Inr c, r')"
      and cs': "fst (generate_cases E sc tx (Suc i) n r') = Inr cs'" and cs: "cs = c # cs'"
    by (auto simp: bindM_def monad_simps split: prod.splits sum.splits)
  have "sy_caseId c = ''c_'' @ padStart5 (nat_str i)"
    using c by (auto simp: generate_case_def generate_rest_def Let_def bindM_def monad_simps split: prod.splits sum.splits)
  with cs Suc.IH [OF cs'] show ?case by (simp add: upt_conv_Cons del: upt_Suc)
qed

lemma cohort_ids_distinct:
  assumes "generateCohort E sc tx = Inr cs" shows "distinct (map sy_caseId cs)"
proof -
  have "map sy_caseId cs = map (\<lambda>k. ''c_'' @ padStart5 (nat_str k)) [0..<0 + nat (sn_size sc)]"
    using assms unfolding generateCohort_def by (rule generate_cases_ids)
  then show ?thesis by (simp add: distinct_map inj_on_def padStart5_inject)
qed

lemma cohort_works_within:
  assumes ids: "distinct (map sy_caseId (bf_cohort G))" and run: "run_cohort G (empty_db, newBatch G llm) = Some (r, (t, b))"
  shows "\<exists>acts. works_within acts t"
proof -
  define acts where "acts c \<longleftrightarrow> (\<exists>sc \<in> set (bf_cohort G). sy_caseId sc = c \<and> arm_of G sc = Inr False)" for c
  have one: "sc' = sc" if "sc \<in> set (bf_cohort G)" "sc' \<in> set (bf_cohort G)" "sy_caseId sc' = sy_caseId sc" for sc sc'
    using that ids by (auto simp: distinct_map inj_on_def)
  have "holdout.cohort_fits acts G"
    unfolding holdout.cohort_fits_def using one by (fastforce simp: acts_def)
  from holdout.cohort_keeps [OF run _ _ this] have "batch_holds (works_within acts) acts (t, b)"
    by (auto simp: seedMerchant_def works_within_def worked_on_def monad_simps empty_db_def memory_acts_def
        newBatch_def Let_def plan_of_def)
  then show ?thesis by (auto simp: batch_holds_def)
qed

lemma holdout_not_worked_on:
  assumes "distinct (map sy_caseId (bf_cohort G))" and "run_cohort G (empty_db, newBatch G llm) = Some (r, (t, b))"
    and "x \<in> set (case_rows t)" and "cs_holdout x"
  shows "cs_id x \<notin> worked_on t"
  using cohort_works_within [OF assms(1,2)] assms(3,4) by (auto simp: works_within_def)

lemma batch_holdout_not_worked_on:
  assumes "runBatch G llm empty_db = Some (r, (t, b))" and "x \<in> set (case_rows t)" and "cs_holdout x"
  shows "cs_id x \<notin> worked_on t"
proof (cases "generateCohort (bf_env G) (bf_scenario G) (bf_taxonomy G)")
  case (Inl e)
  with assms(1) have "t = empty_db" by (simp add: runBatch_def)
  with assms(2) show ?thesis by (simp add: empty_db_def)
next
  case (Inr cohort)
  let ?G = "G\<lparr>bf_cohort := cohort\<rparr>"
  have "run_cohort ?G (empty_db, newBatch ?G llm) = Some (r, (t, b))"
    using assms(1) Inr by (simp add: runBatch_def Let_def)
  from holdout_not_worked_on [OF _ this assms(2,3)] cohort_ids_distinct [OF Inr] show ?thesis by simp
qed

end
