(* ===== verification/Case_Replay.thy ===== *)
theory Case_Replay
  imports Batch_Plan
begin

text \<open>
  \<open>packages/sim/src/replay.ts\<close>: the replay verifier. Every case is checked twice: that the fold of its log is the
  latest stored revision, and that Tier 0 decides again what the ledger says it decided. Shown here: in
  a reachable state the first check never fails and counts every case that has a log.
\<close>

datatype mismatch_kind = mm_revision | mm_tier0_plan | mm_tier0_rule | mm_missing_ledger_rule

record ReplayMismatch =
  rm_caseId :: string
  rm_kind :: mismatch_kind
  rm_expected :: string
  rm_actual :: string

record ReplayReport =
  rp_casesChecked :: nat
  rp_revisionsReproduced :: nat
  rp_tier0DecisionsChecked :: nat
  rp_tier0Reproduced :: nat
  rp_tier1Cases :: nat
  rp_mismatches :: "ReplayMismatch list"

definition rp_ok :: "ReplayReport \<Rightarrow> bool" where
  "rp_ok r \<longleftrightarrow> rp_mismatches r = []"

definition emptyReport :: "nat \<Rightarrow> ReplayReport" where
  "emptyReport n = \<lparr>rp_casesChecked = n, rp_revisionsReproduced = 0, rp_tier0DecisionsChecked = 0,
     rp_tier0Reproduced = 0, rp_tier1Cases = 0, rp_mismatches = []\<rparr>"

definition add_mismatch :: "string \<Rightarrow> mismatch_kind \<Rightarrow> string \<Rightarrow> string \<Rightarrow> ReplayReport \<Rightarrow> ReplayReport" where
  "add_mismatch c k expected actual r =
     r\<lparr>rp_mismatches := rp_mismatches r @ [\<lparr>rm_caseId = c, rm_kind = k, rm_expected = expected, rm_actual = actual\<rparr>]\<rparr>"

section \<open>The revision of a case\<close>

definition revision_label :: "CaseRevision \<Rightarrow> string" where
  "revision_label rvn = state_str (rv_state rvn) @ ''@r'' @ int_str (rv_revision rvn)"

definition same_revision :: "CaseRevision \<Rightarrow> CaseRevision \<Rightarrow> bool" where
  "same_revision a b \<longleftrightarrow> rv_state a = rv_state b \<and> rv_revision a = rv_revision b
     \<and> rv_attemptCount a = rv_attemptCount b \<and> rv_terminalReason a = rv_terminalReason b"

definition check_revision :: "string \<Rightarrow> ReplayReport \<Rightarrow> ReplayReport dbm" where
  "check_revision c rep =
     bindM (readM (\<lambda>s. (readAll c s, latest_revision c s))) (\<lambda>(events, stored).
       case stored of
         None \<Rightarrow> retM rep
       | Some expected \<Rightarrow>
           if events = [] then retM rep
           else bindM (liftE (reduceAll c events)) (\<lambda>replayed.
             retM (if same_revision replayed expected
                   then rep\<lparr>rp_revisionsReproduced := rp_revisionsReproduced rep + 1\<rparr>
                   else add_mismatch c mm_revision (revision_label expected) (revision_label replayed) rep)))"

section \<open>The decision of Tier 0\<close>

fun miss_str :: "Tier0Miss \<Rightarrow> string" where
  "miss_str Tier0Miss.unmapped_code = ''unmapped_code''"
| "miss_str no_playbook = ''no_playbook''"
| "miss_str retry_ceiling_reached = ''retry_ceiling_reached''"
| "miss_str below_confidence = ''below_confidence''"

text \<open>A text field of a stored payload that is there and not empty, and \<open>String(x)\<close>.\<close>

definition recorded_text :: "string \<Rightarrow> params \<Rightarrow> string option" where
  "recorded_text k ps = (case map_of ps k of Some (JStr x) \<Rightarrow> if x = [] then None else Some x | _ \<Rightarrow> None)"

definition string_of_field :: "env \<Rightarrow> string \<Rightarrow> params \<Rightarrow> string" where
  "string_of_field E k ps = (case map_of ps k of None \<Rightarrow> ''undefined'' | Some v \<Rightarrow> js_String E v)"

definition recorded_plan :: "string \<Rightarrow> db \<Rightarrow> params option" where
  "recorded_plan c s = map_option lg_payload (find (\<lambda>l. lg_case l = c \<and> lg_type l = ''plan_selected'') (ledger s))"

definition recorded_decline :: "string \<Rightarrow> db \<Rightarrow> params option" where
  "recorded_decline c s =
     (case sort_key er_observed (filter (\<lambda>e. er_case e = c \<and> er_kind e = decline_code) (evidence s)) of
        [] \<Rightarrow> None | e # _ \<Rightarrow> Some (er_payload e))"

text \<open>A recorded rail that is none of the rails is in no entry of the taxonomy.\<close>

definition redecide :: "DeclineTaxonomy \<Rightarrow> PlaybookTable \<Rightarrow> rat \<Rightarrow> Domain \<Rightarrow> string \<Rightarrow> string \<Rightarrow> Tier0Outcome" where
  "redecide tx pt minConfidence dmn rail code =
     (case find (\<lambda>r. rail_str r = rail) RAILS of
        None \<Rightarrow> Missed Tier0Miss.unmapped_code None
      | Some r \<Rightarrow> resolve tx pt minConfidence \<lparr>ti_domain = dmn, ti_rail = r, ti_code = code, ti_attemptNo = 0\<rparr>)"

definition compare_tier0 :: "env \<Rightarrow> string \<Rightarrow> params \<Rightarrow> Tier0Outcome \<Rightarrow> ReplayReport \<Rightarrow> ReplayReport" where
  "compare_tier0 E c recorded outcome rep =
     (case outcome of
        Missed why _ \<Rightarrow> add_mismatch c mm_tier0_plan (string_of_field E ''ruleId'' recorded) (''unresolved ('' @ miss_str why @ '')'') rep
      | Resolved k plan \<Rightarrow>
          if map_of recorded ''ruleId'' \<noteq> Some (JStr (pl_ruleId plan))
          then add_mismatch c mm_tier0_rule (string_of_field E ''ruleId'' recorded) (pl_ruleId plan) rep
          else if map_of recorded ''cause'' \<noteq> Some (JStr (cl_cause k))
          then add_mismatch c mm_tier0_plan (string_of_field E ''cause'' recorded) (cl_cause k) rep
          else rep\<lparr>rp_tier0Reproduced := rp_tier0Reproduced rep + 1\<rparr>)"

definition check_tier0 :: "env \<Rightarrow> DeclineTaxonomy \<Rightarrow> PlaybookTable \<Rightarrow> case_row \<Rightarrow> ReplayReport \<Rightarrow> ReplayReport dbm" where
  "check_tier0 E tx pt r rep =
     (if cs_tier r \<noteq> 0 then retM (rep\<lparr>rp_tier1Cases := rp_tier1Cases rep + 1\<rparr>)
      else bindM (readM (\<lambda>s. (recorded_plan (cs_id r) s, recorded_decline (cs_id r) s))) (\<lambda>(recorded, inputs).
        case (recorded, inputs) of
          (Some rec, Some inp) \<Rightarrow>
            (case (recorded_text ''rail'' inp, recorded_text ''code'' inp) of
               (Some rail, Some code) \<Rightarrow>
                 retM (compare_tier0 E (cs_id r) rec (redecide tx pt (fl E (75/100)) (cs_domain r) rail code)
                         (rep\<lparr>rp_tier0DecisionsChecked := rp_tier0DecisionsChecked rep + 1\<rparr>))
             | _ \<Rightarrow> retM rep)
        | _ \<Rightarrow> retM rep))"

section \<open>The verifier\<close>

definition verifyReplay :: "env \<Rightarrow> DeclineTaxonomy \<Rightarrow> PlaybookTable \<Rightarrow> ReplayReport dbm" where
  "verifyReplay E tx pt =
     bindM (readM (\<lambda>s. sort_by (\<lambda>a b. db_le E (cs_id a) (cs_id b)) (case_rows s))) (\<lambda>cases.
       foldM (\<lambda>rep r. bindM (check_revision (cs_id r) rep) (check_tier0 E tx pt r)) (emptyReport (length cases)) cases)"

definition renderReplay :: "ReplayReport \<Rightarrow> string list" where
  "renderReplay r =
     [''LEDGER REPLAY VERIFIER'',
      ''  cases checked                '' @ int_str (int (rp_casesChecked r)),
      ''  revisions reproduced         '' @ int_str (int (rp_revisionsReproduced r)),
      ''  tier 0 decisions re-derived  '' @ int_str (int (rp_tier0Reproduced r)) @ ''/'' @ int_str (int (rp_tier0DecisionsChecked r)),
      ''  tier 1 cases (not re-derived) '' @ int_str (int (rp_tier1Cases r))]
     @ (if rp_mismatches r \<noteq> []
        then [[], ''  MISMATCHES ('' @ int_str (int (length (rp_mismatches r))) @ ''):'']
          @ map (\<lambda>m. ''    '' @ rm_caseId m @ ''  ''
                @ (case rm_kind m of mm_revision \<Rightarrow> ''revision'' | mm_tier0_plan \<Rightarrow> ''tier0_plan''
                   | mm_tier0_rule \<Rightarrow> ''tier0_rule'' | mm_missing_ledger_rule \<Rightarrow> ''missing_ledger_rule'')
                @ ''  expected '' @ rm_expected m @ ''  got '' @ rm_actual m) (take 10 (rp_mismatches r))
        else [[], ''  every stored revision and every Tier 0 decision reproduced exactly.'',
          ''  Tier 1 decisions are inspectable rather than re-derivable: their inputs,'',
          ''  claims, provider, model and scores are recorded, but re-deriving one would'',
          ''  require re-calling the provider. Stated rather than glossed.''])"

section \<open>The first check never fails\<close>

text \<open>The unique key of the revisions, as an invariant.\<close>

definition revision_keys :: "db \<Rightarrow> bool" where
  "revision_keys s \<longleftrightarrow> distinct (map (\<lambda>r. (rv_caseId r, rv_revision r)) (case_revisions s))"

lemma revision_keys_append: "preserves revision_keys (event_append now c ev src)"
proof -
  have "preserves revision_keys (insert_revision rvn)" for rvn
    unfolding insert_revision_def by (auto simp: preserves_def monad_simps revision_keys_def)
  then show ?thesis
    unfolding event_append_def insert_case_event_def cancel_outstanding_def Let_def
    by (intro preserves_intros preserves_modifyM) (simp_all add: revision_keys_def)
qed

interpretation numbered: log_invariant revision_keys
proof unfold_locales
  show "preserves revision_keys (attach_or_insert now req)" for now req
    unfolding attach_or_insert_def upsert_obligation_def insert_case_def
    by (intro preserves_intros preserves_modifyM) (simp_all add: revision_keys_def)
qed (use revision_keys_append in \<open>auto simp: revision_keys_def label_case_def preserves_def monad_simps\<close>)

lemma reachable_revision_keys: "reachable w s \<Longrightarrow> revision_keys s"
proof -
  have "revision_keys (seeded ms cs)" for ms cs by (simp add: revision_keys_def seeded_def empty_db_def)
  moreover assume "reachable w s"
  ultimately show ?thesis unfolding reachable_def using numbered.reachable_keeps by blast
qed

lemma latest_is_replayed:
  assumes "store_inv s" and "revision_keys s" and "r \<in> set (case_rows s)" and "log_of (cs_id r) s \<noteq> []"
  shows "\<exists>rvn. reduceAll (cs_id r) (readAll (cs_id r) s) = Inr rvn \<and> latest_revision (cs_id r) s = Some rvn"
proof -
  let ?le = "\<lambda>a b. rv_revision b \<le> rv_revision a"
  have ok: "case_ok s r" using assms(1,3) by (simp add: store_inv_def)
  then obtain rvn where rvn: "reduceAll (cs_id r) (log_of (cs_id r) s) = Inr rvn" "revisions_of (cs_id r) s \<noteq> []"
      "last (revisions_of (cs_id r) s) = rvn"
    using assms(4) by (auto simp: case_ok_def)
  then have mem: "rvn \<in> set (revisions_of (cs_id r) s)" by (metis last_in_set)
  obtain x xs where sorted: "sort_by ?le (revisions_of (cs_id r) s) = x # xs"
    using rvn(2) by (cases "sort_by ?le (revisions_of (cs_id r) s)") (metis sort_by_Nil_iff)+
  have "total_preorder ?le" by (auto simp: total_preorder_def)
  from sorted_sort_by [OF this, of "revisions_of (cs_id r) s"] sorted
  have top: "\<forall>y \<in> set xs. rv_revision y \<le> rv_revision x" by simp
  have "set (x # xs) = set (revisions_of (cs_id r) s)" using sorted by (metis set_sort_by)
  with mem have x: "x \<in> set (revisions_of (cs_id r) s)" "rv_revision rvn \<le> rv_revision x" using top by auto
  have "rv_revision x \<le> rv_revision rvn"
    using ok x(1) reduceAll_revision [OF rvn(1)] by (auto simp: case_ok_def)
  with x mem have "(rv_caseId x, rv_revision x) = (rv_caseId rvn, rv_revision rvn)"
    by (auto simp: revisions_of_def)
  with assms(2) x(1) mem have "x = rvn"
    unfolding revision_keys_def distinct_map revisions_of_def by (auto simp: inj_on_def)
  with rvn(1) sorted case_ok_readAll [OF ok] show ?thesis by (simp add: latest_revision_def)
qed

lemma check_tier0_revisions:
  "\<exists>rep'. check_tier0 E tx pt r rep s = (Inr rep', s) \<and> rp_revisionsReproduced rep' = rp_revisionsReproduced rep
     \<and> rp_casesChecked rep' = rp_casesChecked rep
     \<and> filter (\<lambda>m. rm_kind m = mm_revision) (rp_mismatches rep') = filter (\<lambda>m. rm_kind m = mm_revision) (rp_mismatches rep)"
  by (auto simp: check_tier0_def monad_simps compare_tier0_def add_mismatch_def split: option.split Tier0Outcome.split)

lemma check_revision_reproduces:
  assumes "store_inv s" and "revision_keys s" and "r \<in> set (case_rows s)"
  shows "check_revision (cs_id r) rep s =
     (Inr (rep\<lparr>rp_revisionsReproduced := rp_revisionsReproduced rep + (if log_of (cs_id r) s = [] then 0 else 1)\<rparr>), s)"
proof (cases "log_of (cs_id r) s = []")
  case True
  moreover have "case_ok s r" using assms(1,3) by (simp add: store_inv_def)
  ultimately have "readAll (cs_id r) s = []" by (simp add: case_ok_readAll)
  with True show ?thesis by (auto simp: check_revision_def monad_simps split: option.split)
next
  case False
  from latest_is_replayed [OF assms False] obtain rvn where
    "reduceAll (cs_id r) (readAll (cs_id r) s) = Inr rvn" "latest_revision (cs_id r) s = Some rvn" by blast
  moreover have "readAll (cs_id r) s \<noteq> []"
    using False assms(1,3) by (simp add: store_inv_def case_ok_readAll)
  ultimately show ?thesis using False by (simp add: check_revision_def monad_simps same_revision_def)
qed

lemma verify_cases:
  assumes "store_inv s" and "revision_keys s" and "set rs \<subseteq> set (case_rows s)"
  shows "\<exists>rep'. foldM (\<lambda>rep r. bindM (check_revision (cs_id r) rep) (check_tier0 E tx pt r)) rep rs s = (Inr rep', s)
     \<and> rp_casesChecked rep' = rp_casesChecked rep
     \<and> rp_revisionsReproduced rep' = rp_revisionsReproduced rep + length (filter (\<lambda>r. log_of (cs_id r) s \<noteq> []) rs)
     \<and> filter (\<lambda>m. rm_kind m = mm_revision) (rp_mismatches rep') = filter (\<lambda>m. rm_kind m = mm_revision) (rp_mismatches rep)"
  using assms(3)
proof (induction rs arbitrary: rep)
  case Nil
  then show ?case by (simp add: monad_simps)
next
  case (Cons r rs)
  let ?rep = "rep\<lparr>rp_revisionsReproduced := rp_revisionsReproduced rep + (if log_of (cs_id r) s = [] then 0 else 1)\<rparr>"
  have r: "r \<in> set (case_rows s)" and rs: "set rs \<subseteq> set (case_rows s)" using Cons.prems by simp_all
  obtain rep1 where one: "check_tier0 E tx pt r ?rep s = (Inr rep1, s)" "rp_revisionsReproduced rep1 = rp_revisionsReproduced ?rep"
      "rp_casesChecked rep1 = rp_casesChecked ?rep"
      "filter (\<lambda>m. rm_kind m = mm_revision) (rp_mismatches rep1) = filter (\<lambda>m. rm_kind m = mm_revision) (rp_mismatches ?rep)"
    using check_tier0_revisions [of E tx pt r ?rep s] by blast
  from Cons.IH [OF rs, of rep1] show ?case
    using check_revision_reproduces [OF assms(1,2) r, of rep] one by (auto simp: bindM_def)
qed

lemma verifyReplay_reproduces:
  assumes "reachable w s"
  shows "\<exists>rep. verifyReplay E tx pt s = (Inr rep, s) \<and> rp_casesChecked rep = length (case_rows s)
     \<and> rp_revisionsReproduced rep = length (filter (\<lambda>r. log_of (cs_id r) s \<noteq> []) (case_rows s))
     \<and> (\<forall>m \<in> set (rp_mismatches rep). rm_kind m \<noteq> mm_revision)"
proof -
  let ?rs = "sort_by (\<lambda>a b. db_le E (cs_id a) (cs_id b)) (case_rows s)"
  have inv: "store_inv s" using reachable_sys_inv [OF assms] by (simp add: sys_inv_def paid_inv_def case_inv_def)
  have "length (filter P ?rs) = length (filter P (case_rows s))" for P
    by (metis mset_filter mset_sort_by size_mset)
  with verify_cases [OF inv reachable_revision_keys [OF assms], of ?rs E tx pt "emptyReport (length ?rs)"]
  show ?thesis by (auto simp: verifyReplay_def monad_simps emptyReport_def filter_empty_conv)
qed

end
