(* ===== verification/Batch_Replay.thy ===== *)
theory Batch_Replay
  imports Batch_Holdout Case_Replay
begin

text \<open>
  The replay verifier after a batch. \<open>recorded_as_decided\<close> says of the data base that every case is one of the cohort,
  that every plan on the ledger is the one Tier 0 decides for its case, and that every recorded decline
  is the rail and code of its case. The whole batch keeps it, so \<open>verifyReplay\<close> re-derives every decision it
  checks; with the revisions of \<open>Case_Replay\<close> the report is free of mismatches.
\<close>

definition opened_from :: "SyntheticCase list \<Rightarrow> string \<times> Domain \<Rightarrow> bool" where
  "opened_from cohort x \<longleftrightarrow> (\<exists>sc \<in> set cohort. x = (sy_caseId sc, sy_domain sc))"

definition decided_by :: "'w batch_setup \<Rightarrow> string \<Rightarrow> string \<Rightarrow> params \<Rightarrow> bool" where
  "decided_by G c ty ps \<longleftrightarrow> (ty = ''plan_selected'' \<longrightarrow>
     (\<exists>sc \<in> set (bf_cohort G). sy_caseId sc = c \<and> (\<exists>k plan. tier0_resolve G sc = Resolved k plan \<and> ps = plan_record k plan)))"

definition declined_as :: "SyntheticCase list \<Rightarrow> string \<Rightarrow> EvidenceKind \<Rightarrow> params \<Rightarrow> bool" where
  "declined_as cohort c kind ps \<longleftrightarrow> (kind = decline_code \<longrightarrow> (\<exists>sc \<in> set cohort. sy_caseId sc = c \<and> ps = decline_record sc))"

definition recorded_as_decided :: "'w batch_setup \<Rightarrow> db \<Rightarrow> bool" where
  "recorded_as_decided G s \<longleftrightarrow>
     (\<forall>x \<in> set (map (\<lambda>r. (cs_id r, cs_domain r)) (case_rows s)). opened_from (bf_cohort G) x)
     \<and> (\<forall>l \<in> set (ledger s). decided_by G (lg_case l) (lg_type l) (lg_payload l))
     \<and> (\<forall>e \<in> set (evidence s). declined_as (bf_cohort G) (er_case e) (er_kind e) (er_payload e))"

interpretation replayed: row_invariant "recorded_as_decided G" "\<lambda>_. True"
    "\<lambda>req. opened_from (bf_cohort G) (oq_caseId req, oq_domain req)" "decided_by G" "declined_as (bf_cohort G)" for G
  by unfold_locales
     (auto simp add: recorded_as_decided_def new_case_row_def map_update_where decided_by_def declined_as_def simp del: set_map)

lemma cohort_recorded:
  assumes "run_cohort G (empty_db, newBatch G llm) = Some (r, (t, b))" shows "recorded_as_decided G t"
proof -
  have "batch_holds (recorded_as_decided G) (\<lambda>_. True) (t, b)"
    by (rule replayed.cohort_keeps [OF assms])
       (unfold replayed.cohort_fits_def, auto simp: opened_from_def decided_by_def declined_as_def seedMerchant_def recorded_as_decided_def
         monad_simps empty_db_def memory_acts_def Let_def)
  then show ?thesis by (simp add: batch_holds_def)
qed

section \<open>The decisions are derived again\<close>

lemma recorded_inputs:
  "recorded_text ''rail'' (decline_record sc) = Some (rail_str (sy_rail sc))"
  "recorded_text ''code'' (decline_record sc) = (if sy_code sc = [] then None else Some (sy_code sc))"
  by (cases "sy_rail sc") (simp_all add: recorded_text_def decline_record_def)

lemma redecide_same: "redecide (bf_taxonomy G) (bf_playbooks G) (fl (bf_env G) (75/100)) (sy_domain sc) (rail_str (sy_rail sc)) (sy_code sc)
    = tier0_resolve G sc"
  by (cases "sy_rail sc") (simp_all add: redecide_def tier0_resolve_def RAILS_def)

lemma recorded_plan_of:
  assumes "recorded_as_decided G s" and "distinct (map sy_caseId (bf_cohort G))" and "sc \<in> set (bf_cohort G)"
    and "recorded_plan (sy_caseId sc) s = Some ps"
  shows "\<exists>k plan. tier0_resolve G sc = Resolved k plan \<and> ps = plan_record k plan"
proof -
  from assms(4) obtain l where l: "l \<in> set (ledger s)" "lg_case l = sy_caseId sc" "lg_type l = ''plan_selected''" "ps = lg_payload l"
    unfolding recorded_plan_def by (auto simp: find_Some_iff) (metis nth_mem)
  with assms(1) obtain sc' k plan where "sc' \<in> set (bf_cohort G)" "sy_caseId sc' = sy_caseId sc"
      "tier0_resolve G sc' = Resolved k plan" "ps = plan_record k plan"
    by (auto simp: recorded_as_decided_def decided_by_def)
  with assms(2,3) show ?thesis by (auto simp: distinct_map inj_on_def)
qed

lemma recorded_decline_of:
  assumes "recorded_as_decided G s" and "distinct (map sy_caseId (bf_cohort G))" and "sc \<in> set (bf_cohort G)"
    and "recorded_decline (sy_caseId sc) s = Some ps"
  shows "ps = decline_record sc"
proof -
  from assms(4) obtain e es where "sort_key er_observed (filter (\<lambda>e. er_case e = sy_caseId sc \<and> er_kind e = decline_code) (evidence s)) = e # es"
      and e: "ps = er_payload e"
    unfolding recorded_decline_def by (auto split: list.splits)
  then have "e \<in> set (filter (\<lambda>e. er_case e = sy_caseId sc \<and> er_kind e = decline_code) (evidence s))"
    by (metis list.set_intros(1) set_sort)
  with assms(1) e obtain sc' where "sc' \<in> set (bf_cohort G)" "sy_caseId sc' = sy_caseId sc" "ps = decline_record sc'"
    by (auto simp: recorded_as_decided_def declined_as_def)
  with assms(2,3) show ?thesis by (auto simp: distinct_map inj_on_def)
qed

text \<open>What a check keeps of a report that is free of mismatches so far.\<close>

definition all_reproduced :: "ReplayReport \<Rightarrow> bool" where
  "all_reproduced rep \<longleftrightarrow> rp_ok rep \<and> rp_tier0Reproduced rep = rp_tier0DecisionsChecked rep"

lemma check_tier0_reproduces:
  assumes rec: "recorded_as_decided G s" and ids: "distinct (map sy_caseId (bf_cohort G))"
    and r: "r \<in> set (case_rows s)" and "all_reproduced rep"
  shows "\<exists>rep'. check_tier0 (bf_env G) (bf_taxonomy G) (bf_playbooks G) r rep s = (Inr rep', s) \<and> all_reproduced rep'"
proof -
  from rec r obtain sc where sc: "sc \<in> set (bf_cohort G)" "cs_id r = sy_caseId sc" "cs_domain r = sy_domain sc"
    by (auto simp: recorded_as_decided_def opened_from_def)
  show ?thesis
  proof (cases "recorded_plan (sy_caseId sc) s")
    case (Some ps)
    from recorded_plan_of [OF rec ids sc(1) Some] obtain k plan where "tier0_resolve G sc = Resolved k plan" "ps = plan_record k plan"
      by blast
    with Some sc recorded_decline_of [OF rec ids sc(1)] assms(4) show ?thesis
      by (cases "recorded_decline (sy_caseId sc) s")
         (auto simp: check_tier0_def monad_simps recorded_inputs redecide_same [simplified] compare_tier0_def plan_record_def all_reproduced_def rp_ok_def
           split: option.split)
  qed (use sc assms(4) in \<open>auto simp: check_tier0_def monad_simps all_reproduced_def rp_ok_def\<close>)
qed

lemma verify_all:
  assumes "recorded_as_decided G s" and "distinct (map sy_caseId (bf_cohort G))" and "store_inv s" and "revision_keys s"
    and "set rs \<subseteq> set (case_rows s)" and "all_reproduced rep"
  shows "\<exists>rep'. foldM (\<lambda>rep r. bindM (check_revision (cs_id r) rep) (check_tier0 (bf_env G) (bf_taxonomy G) (bf_playbooks G) r)) rep rs s
      = (Inr rep', s) \<and> all_reproduced rep'"
  using assms(5,6)
proof (induction rs arbitrary: rep)
  case (Cons r rs)
  let ?rep = "rep\<lparr>rp_revisionsReproduced := rp_revisionsReproduced rep + (if log_of (cs_id r) s = [] then 0 else 1)\<rparr>"
  have "all_reproduced ?rep" using Cons.prems(2) by (simp add: all_reproduced_def rp_ok_def)
  with Cons.prems(1) obtain rep1 where "check_tier0 (bf_env G) (bf_taxonomy G) (bf_playbooks G) r ?rep s = (Inr rep1, s)" "all_reproduced rep1"
    using check_tier0_reproduces [OF assms(1,2)] by fastforce
  moreover have "check_revision (cs_id r) rep s = (Inr ?rep, s)"
    using check_revision_reproduces [OF assms(3,4)] Cons.prems(1) by simp
  ultimately show ?case using Cons.IH Cons.prems(1) by (auto simp: bindM_def)
qed (simp add: monad_simps)

lemma cohort_replays:
  assumes ids: "distinct (map sy_caseId (bf_cohort G))" and run: "run_cohort G (empty_db, newBatch G llm) = Some (r, (t, b))"
    and "reachable w t"
  shows "\<exists>rep. verifyReplay (bf_env G) (bf_taxonomy G) (bf_playbooks G) t = (Inr rep, t) \<and> rp_ok rep
     \<and> rp_casesChecked rep = length (case_rows t) \<and> rp_tier0Reproduced rep = rp_tier0DecisionsChecked rep"
proof -
  let ?rs = "sort_by (\<lambda>a b. db_le (bf_env G) (cs_id a) (cs_id b)) (case_rows t)"
  have "store_inv t" using reachable_sys_inv [OF assms(3)] by (simp add: sys_inv_def paid_inv_def case_inv_def)
  moreover have "all_reproduced (emptyReport (length ?rs))" by (simp add: all_reproduced_def rp_ok_def emptyReport_def)
  ultimately have "\<exists>rep. verifyReplay (bf_env G) (bf_taxonomy G) (bf_playbooks G) t = (Inr rep, t) \<and> all_reproduced rep"
    using verify_all [OF cohort_recorded [OF run] ids _ reachable_revision_keys [OF assms(3)], of ?rs]
    by (auto simp: verifyReplay_def monad_simps)
  with verifyReplay_reproduces [OF assms(3), of "bf_env G" "bf_taxonomy G" "bf_playbooks G"] show ?thesis
    by (auto simp: all_reproduced_def)
qed

end
