(* ===== verification/Simulation.thy ===== *)
theory Simulation
  imports Assurance Batch_Replay
begin

text \<open>
  What the simulated batch promises: the cohort it generates, the world it drains, the loop over its clock, and
  that a batch is a run of the engine.
\<close>

section \<open>A small batch\<close>

definition sample_scenario :: Scenario where
  "sample_scenario = \<lparr>sn_seed = 7, sn_merchant = ''m'', sn_size = 2,
     sn_domains = [(checkout_abandonment, 1)], sn_rails = [(card, 1)], sn_causes = [(''insufficient_funds'', 1)],
     sn_mu = 8, sn_sigma = 1,
     sn_world = \<lparr>sw_naturalRecoveryRate = 1/4, sw_respondsToLink = 1/2, sw_fundsClearAfterHours = 24,
       sw_optOutRate = 1/20, sw_disputeRate = 1/20, sw_replyRate = 1/2,
       sw_replyIntents = [(CustomerIntent.will_pay, 1)]\<rparr>,
     sn_holdout = 1/4, sn_windowDays = 0, sn_naturalRecoveryWindowMs = 3600000, sn_injections = []\<rparr>"

definition sample_taxonomy :: DeclineTaxonomy where
  "sample_taxonomy = newDeclineTaxonomy 1 [\<lparr>de_rail = card, de_code = ''51'', de_cause = ''insufficient_funds'',
     de_hardness = soft, de_retryEligible = True, de_retryCeiling = 3, de_confidence = 9/10, de_ruleId = ''D-1''\<rparr>]"

definition sample_playbooks :: PlaybookTable where
  "sample_playbooks = newPlaybookTable 1 [\<lparr>pb_domain = ''*'', pb_cause = ''insufficient_funds'', pb_ruleId = ''P-1'',
     pb_steps = [\<lparr>ps_actionId = ''link'', ps_params = []\<rparr>], pb_stopConditions = []\<rparr>]"

definition sample_synthetic :: "string \<Rightarrow> int option \<Rightarrow> SyntheticCase" where
  "sample_synthetic i paysAt = \<lparr>sy_caseId = i, sy_customerId = i, sy_obligationId = i, sy_externalRef = i,
     sy_domain = checkout_abandonment, sy_rail = card, sy_cause = ''insufficient_funds'', sy_code = ''51'',
     sy_amountPaise = 500, sy_gateway = ''A'', sy_issuer = ''SBI'',
     sy_latent = \<lparr>lt_willPayRegardless = (paysAt \<noteq> None), lt_naturalPaymentAtMs = paysAt, lt_hasFundsAfterMs = 0,
       lt_respondsToLink = 1/2, lt_cardExpired = False, lt_mandateState = latent_active, lt_willOptOut = False,
       lt_willDispute = False\<rparr>, sy_ambiguous = None\<rparr>"

definition sample_batch :: "unit batch_setup" where
  "sample_batch = \<lparr>bf_env = sample_env, bf_scenario = sample_scenario, bf_arm = arm_tier0_only,
     bf_policy = sample_policy, bf_library = sample_lib, bf_taxonomy = sample_taxonomy,
     bf_playbooks = sample_playbooks, bf_minter = sample_minter, bf_cohort = [sample_synthetic ''c1'' (Some 0)], bf_t0 = 36000000,
     bf_tickMs = 3600000, bf_uuid = (\<lambda>n. ''u'' @ int_str (int n)), bf_roles_provider = None,
     bf_reducer_provider = None, bf_models = \<lparr>mf_diagnosis = [], mf_context = [], mf_reducer = []\<rparr>,
     bf_late = (\<lambda>_ _. False)\<rparr>"

section \<open>The batch\<close>

lemma run_cohort_total: "0 < bf_tickMs G \<Longrightarrow> run_cohort G x \<noteq> None"
  unfolding run_cohort_def by (simp add: clock_loop_runs split: prod.split sum.split del: not_None_eq)

lemma runBatch_total: "0 < bf_tickMs G \<Longrightarrow> runBatch G llm s \<noteq> None"
  unfolding runBatch_def Let_def by (simp add: run_cohort_total split: sum.split del: not_None_eq)

text \<open>
  C32. A simulated batch is a run of the engine: with a positive tick it ends, whatever the scenario, the cohort,
  the providers and the answers of the agents, it leaves a state the engine can reach from an empty data base,
  and in it every case that is RECOVERED has its obligation covered by the settlements matched to it.
\<close>

theorem batch_is_engine_run:
  assumes "0 < bf_tickMs G"
  shows "\<exists>r t b. runBatch G llm empty_db = Some (r, (t, b)) \<and> reachable TYPE(simulator) t
     \<and> (\<forall>x \<in> set (case_rows t). cs_state x = RECOVERED \<longrightarrow>
          (\<exists>o' \<in> set (obligations t). ob_id o' = cs_obligation x \<and>
             ob_amount o' \<le> sum_list (map st_amount (filter (\<lambda>y. st_obligation y = Some (cs_obligation x)) (settlements t)))))"
proof -
  obtain r t b where run: "runBatch G llm empty_db = Some (r, (t, b))"
    using runBatch_total [OF assms, of llm empty_db] by auto
  then have "reachable TYPE(simulator) t" by (rule runBatch_reachable)
  with run reachable_sys_inv [OF this] show ?thesis
    by (auto simp: sys_inv_def paid_inv_def covered_def settled_total_def)
qed

theorem batch_is_engine_run_witness:
  "\<exists>r t b. runBatch sample_batch () empty_db = Some (r, (t, b)) \<and> reachable TYPE(simulator) t
     \<and> (\<forall>x \<in> set (case_rows t). cs_state x = RECOVERED \<longrightarrow>
          (\<exists>o' \<in> set (obligations t). ob_id o' = cs_obligation x \<and>
             ob_amount o' \<le> sum_list (map st_amount (filter (\<lambda>y. st_obligation y = Some (cs_obligation x)) (settlements t)))))"
  by (rule batch_is_engine_run) (simp add: sample_batch_def)

text \<open>
  C33. The loop over the clock ends when the tick is positive and the elapsed time within the horizon: it is the run of the
  tick at the instants \<open>elapsed\<close>, \<open>elapsed + tick\<close>, ... in order, once each, which stops at the first that fails; the last
  of these instants is the last one not past the horizon. (A tick of no length never ends, \<open>clock_loop_stuck\<close>.)
\<close>

theorem clock_loop_terminates:
  assumes "0 < bf_tickMs G" and "elapsed \<le> horizon"
  shows "clock_loop G horizon elapsed x =
       Some (forM (map (\<lambda>i. elapsed + int i * bf_tickMs G) [0..<nat ((horizon - elapsed) div bf_tickMs G) + 1]) (batch_tick G) x)
     \<and> elapsed + int (nat ((horizon - elapsed) div bf_tickMs G)) * bf_tickMs G \<le> horizon
     \<and> horizon < elapsed + int (nat ((horizon - elapsed) div bf_tickMs G) + 1) * bf_tickMs G"
proof -
  let ?q = "(horizon - elapsed) div bf_tickMs G"
  have "0 \<le> ?q" using assms by (simp add: pos_imp_zdiv_nonneg_iff)
  moreover have "?q * bf_tickMs G \<le> horizon - elapsed" "horizon < elapsed + (1 + ?q) * bf_tickMs G"
    using assms(1) pos_mod_bound [OF assms(1), of "horizon - elapsed"] pos_mod_sign [OF assms(1), of "horizon - elapsed"]
      div_mult_mod_eq [of "horizon - elapsed" "bf_tickMs G"]
    unfolding distrib_right mult_1 by linarith+
  ultimately show ?thesis
    using clock_loop_runs [OF assms(1), of horizon elapsed x] assms(2) by (simp add: tick_count_def)
qed

theorem clock_loop_terminates_witness:
  "clock_loop sample_batch 7200000 0 (empty_db, newBatch sample_batch ())
     = Some (forM [0, 3600000, 7200000] (batch_tick sample_batch) (empty_db, newBatch sample_batch ()))"
  using clock_loop_terminates [of sample_batch 0 7200000 "(empty_db, newBatch sample_batch ())"]
  by (simp add: sample_batch_def upt_rec)

section \<open>The cohort\<close>

text \<open>
  C34. Let the scenario name at least one domain, rail and cause, let the taxonomy be well formed, of at most \<open>2 ^ 20\<close> entries, with
  one for every rail of the scenario, and let rounding be exact on dyadic numbers, as that of doubles is. Then generating a
  cohort does not fail and gives as many cases as asked, with distinct identifiers, each on a rail and a domain of the
  scenario and with a natural payment exactly if it will pay regardless. The code of a case that is not ambiguous is
  classified as its cause; an ambiguous case has the cause \<open>unmapped_code\<close> and an opaque code.
\<close>

theorem cohort_well_formed:
  assumes "dyadic (fl E)" and "taxonomy_wf tx" and "taxonomy_covers tx sc"
    and "sn_domains sc \<noteq> []" and "sn_rails sc \<noteq> []" and "sn_causes sc \<noteq> []"
  shows "\<exists>cs. generateCohort E sc tx = Inr cs \<and> length cs = nat (sn_size sc)
     \<and> distinct (map sy_caseId cs) \<and> distinct (map sy_externalRef cs) \<and> distinct (map sy_obligationId cs)
     \<and> (\<forall>c \<in> set cs. sy_domain c \<in> fst ` set (sn_domains sc) \<and> sy_rail c \<in> fst ` set (sn_rails sc)
          \<and> (lt_naturalPaymentAtMs (sy_latent c) \<noteq> None) = lt_willPayRegardless (sy_latent c)
          \<and> (if sy_ambiguous c = None
             then \<exists>k. classify tx (sy_rail c) (sy_code c) 0 = Some k \<and> cl_cause k = sy_cause c
             else sy_cause c = ''unmapped_code'' \<and> sy_code c \<in> set OPAQUE_CODES))"
proof -
  obtain cs where cs: "generateCohort E sc tx = Inr cs" "length cs = nat (sn_size sc)"
      and fits: "\<forall>k < length cs. case_fits tx sc k (cs ! k)"
    using generateCohort_fits [OF assms(1,3-6)] by blast
  have "sy_domain c \<in> fst ` set (sn_domains sc) \<and> sy_rail c \<in> fst ` set (sn_rails sc)
      \<and> (lt_naturalPaymentAtMs (sy_latent c) \<noteq> None) = lt_willPayRegardless (sy_latent c)
      \<and> code_fits tx (sy_rail c) (sy_cause c, sy_code c, sy_ambiguous c)" if "c \<in> set cs" for c
    using that fits unfolding in_set_conv_nth case_fits_def by blast
  moreover have "if sy_ambiguous c = None
      then \<exists>k. classify tx (sy_rail c) (sy_code c) 0 = Some k \<and> cl_cause k = sy_cause c
      else sy_cause c = ''unmapped_code'' \<and> sy_code c \<in> set OPAQUE_CODES"
    if "code_fits tx (sy_rail c) (sy_cause c, sy_code c, sy_ambiguous c)" for c
    using that code_fits_classify [OF assms(2), of "sy_rail c" "sy_cause c" "sy_code c" 0]
    by (cases "sy_ambiguous c") (auto simp: code_fits_def)
  ultimately show ?thesis
    using cs case_ids_distinct [OF fits] by blast
qed

theorem cohort_well_formed_witness:
  "\<exists>cs. generateCohort sample_env sample_scenario sample_taxonomy = Inr cs \<and> length cs = 2
     \<and> distinct (map sy_caseId cs)
     \<and> (\<forall>c \<in> set cs. sy_domain c = checkout_abandonment \<and> sy_rail c = card)"
proof -
  have "length (tx_entries sample_taxonomy) = 1" "map de_rail (tx_entries sample_taxonomy) = [card]" by code_simp+
  then have "taxonomy_covers sample_taxonomy sample_scenario" by (auto simp: taxonomy_covers_def sample_scenario_def)
  moreover have "taxonomy_wf sample_taxonomy" by code_simp
  moreover have "dyadic (fl sample_env)" using dyadic_id by (simp add: sample_env_def env0_def)
  moreover have "sn_domains sample_scenario \<noteq> []" "sn_rails sample_scenario \<noteq> []" "sn_causes sample_scenario \<noteq> []"
    by (simp_all add: sample_scenario_def)
  ultimately obtain cs where cs: "generateCohort sample_env sample_scenario sample_taxonomy = Inr cs" "length cs = nat (sn_size sample_scenario)"
      "distinct (map sy_caseId cs)"
      "\<forall>c \<in> set cs. sy_domain c \<in> fst ` set (sn_domains sample_scenario) \<and> sy_rail c \<in> fst ` set (sn_rails sample_scenario)"
    using cohort_well_formed [of sample_env sample_taxonomy sample_scenario] by blast
  have "sn_size sample_scenario = 2" "sn_domains sample_scenario = [(checkout_abandonment, 1)]" "sn_rails sample_scenario = [(card, 1)]"
    by (simp_all add: sample_scenario_def)
  with cs show ?thesis by auto
qed

text \<open>
  C35. The world acts once: over increasing instants, the events of the world are each drained in the batch of the
  first instant at or after their time, no event twice, none early, and within a batch in the order of the world.
\<close>

theorem world_drains_once:
  assumes "total_preorder (locale_le E)" and "sorted ts"
  shows "fst (drain_all ts (newWorld E cs injs seed)) =
     map (\<lambda>i. filter (\<lambda>e. wv_atMs e \<le> ts ! i \<and> (\<forall>j < i. ts ! j < wv_atMs e)) (wo_events (newWorld E cs injs seed))) [0..<length ts]"
proof -
  have "events_left (newWorld E cs injs seed) = wo_events (newWorld E cs injs seed)"
    by (simp add: newWorld_def split: prod.split)
  with drain_all_batches [OF _ assms(2), of "newWorld E cs injs seed"] newWorld_by_time [OF assms(1), of cs injs seed]
  show ?thesis by simp
qed

definition sample_world :: World where
  "sample_world = newWorld sample_env [sample_synthetic ''c1'' (Some 500), sample_synthetic ''c2'' (Some 100)] [] 7"

theorem world_drains_once_witness:
  "map (map wv_caseId) (fst (drain_all [50, 300, 800] sample_world)) = [[], [''c2''], [''c1'']]"
proof -
  have "map (\<lambda>e. (wv_atMs e, wv_caseId e)) (wo_events sample_world) = [(100, ''c2''), (500, ''c1'')]" by code_simp
  then obtain e f where ev: "wo_events sample_world = [e, f]" "wv_atMs e = 100" "wv_atMs f = 500" "wv_caseId e = ''c2''" "wv_caseId f = ''c1''"
    by auto
  have "total_preorder (locale_le sample_env)" using total_preorder_code_le by (simp add: sample_env_def env0_def)
  from world_drains_once [OF this, of "[50, 300, 800]" "[sample_synthetic ''c1'' (Some 500), sample_synthetic ''c2'' (Some 100)]" "[]" 7]
  show ?thesis
    using ev by (simp add: sample_world_def [symmetric] upt_rec All_less_Suc nth_Cons')
qed

section \<open>The control group\<close>

text \<open>
  C36. The holdout is observed and never acted on: whatever happens in a batch, for a case whose row is flagged as
  held out there is no scheduled action, attempt, token, policy decision, promise, evidence, claim, agent run or
  incident membership, so that what the report counts as the control group is one.
\<close>

theorem holdout_untouched:
  assumes "distinct (map sy_caseId (bf_cohort G))" and "run_cohort G (empty_db, newBatch G llm) = Some (r, (t, b))"
    and "x \<in> set (case_rows t)" and "cs_holdout x"
  shows "cs_id x \<notin> worked_on t"
  by (rule holdout_not_worked_on [OF assms])

theorem holdout_untouched_witness:
  "\<exists>r t b x. run_cohort sample_batch (empty_db, newBatch sample_batch ()) = Some (r, (t, b))
     \<and> x \<in> set (case_rows t) \<and> cs_holdout x \<and> cs_state x = RECOVERED \<and> cs_id x \<notin> worked_on t"
proof -
  have "map_option (\<lambda>(r, (t, b)). map (\<lambda>x. (cs_holdout x, cs_state x)) (case_rows t))
      (run_cohort sample_batch (empty_db, newBatch sample_batch ())) = Some [(True, RECOVERED)]" by code_simp
  then obtain r t b x where run: "run_cohort sample_batch (empty_db, newBatch sample_batch ()) = Some (r, (t, b))"
      "x \<in> set (case_rows t)" "cs_holdout x" "cs_state x = RECOVERED" by auto
  moreover have "distinct (map sy_caseId (bf_cohort sample_batch))" by code_simp
  ultimately show ?thesis using holdout_untouched [of sample_batch "()" r t b x] by blast
qed

section \<open>The replay\<close>

text \<open>
  C37. A batch replays: on the data base any batch leaves, the replay verifier returns a report without a mismatch. It
  has looked at every case, has reproduced the stored revision of each case that has a log, and has derived
  again every Tier 0 decision it could check, with the rule and the cause the ledger records.
\<close>

theorem batch_replays:
  assumes "distinct (map sy_caseId (bf_cohort G))" and "run_cohort G (empty_db, newBatch G llm) = Some (r, (t, b))"
  shows "\<exists>rep. verifyReplay (bf_env G) (bf_taxonomy G) (bf_playbooks G) t = (Inr rep, t) \<and> rp_ok rep
     \<and> rp_casesChecked rep = length (case_rows t)
     \<and> rp_revisionsReproduced rep = length (filter (\<lambda>x. log_of (cs_id x) t \<noteq> []) (case_rows t))
     \<and> rp_tier0Reproduced rep = rp_tier0DecisionsChecked rep"
  using cohort_replays [OF assms run_cohort_reachable [OF assms(2)]]
    verifyReplay_reproduces [OF run_cohort_reachable [OF assms(2)], of "bf_env G" "bf_taxonomy G" "bf_playbooks G"]
  by auto

definition treated_batch :: "unit batch_setup" where
  "treated_batch = sample_batch\<lparr>bf_scenario := sample_scenario\<lparr>sn_holdout := 0\<rparr>\<rparr>"

theorem batch_replays_witness:
  "\<exists>r t b rep. run_cohort treated_batch (empty_db, newBatch treated_batch ()) = Some (r, (t, b))
     \<and> verifyReplay sample_env sample_taxonomy sample_playbooks t = (Inr rep, t) \<and> rp_ok rep
     \<and> rp_casesChecked rep = 1 \<and> rp_tier0DecisionsChecked rep = 1 \<and> rp_tier0Reproduced rep = 1"
proof -
  have "map_option (\<lambda>(r, (t, b)). (length (case_rows t),
        map_sum id rp_tier0DecisionsChecked (fst (verifyReplay sample_env sample_taxonomy sample_playbooks t))))
      (run_cohort treated_batch (empty_db, newBatch treated_batch ())) = Some (1, Inr 1)" by code_simp
  then obtain r t b where run: "run_cohort treated_batch (empty_db, newBatch treated_batch ()) = Some (r, (t, b))"
      "length (case_rows t) = 1"
      "map_sum id rp_tier0DecisionsChecked (fst (verifyReplay sample_env sample_taxonomy sample_playbooks t)) = Inr 1" by auto
  moreover have "distinct (map sy_caseId (bf_cohort treated_batch))" by code_simp
  ultimately show ?thesis
    using batch_replays [of treated_batch "()" r t b] by (auto simp: treated_batch_def sample_batch_def)
qed

end
