(* ===== verification/Console_Text.thy ===== *)
theory Console_Text
  imports Messages Action_Library
begin

text \<open>
  \<open>packages/console/src/render.ts\<close>: how the console writes values and page elements. A page is text; the white space
  that lays the templates out between elements is left out, the rupee sign is \<open>Rs\<close>, the dashes are \<open>-\<close>, and the
  style sheet of \<open>tokens.ts\<close>, a constant, is an argument. Shown here: \<open>esc\<close> loses nothing, and nothing it
  writes can open or close a tag or an attribute.
\<close>

section \<open>Text\<close>

definition esc_char :: "char \<Rightarrow> string" where
  "esc_char c =
     (if c = CHR ''&'' then ''&amp;'' else if c = CHR ''<'' then ''&lt;'' else if c = CHR ''>'' then ''&gt;''
      else if c = CHR 0x22 then ''&quot;'' else if c = CHR 0x27 then ''&#39;'' else [c])"

definition esc :: "string \<Rightarrow> string" where
  "esc s = concat (map esc_char s)"

text \<open>\<open>s.replace(/_/g, " ")\<close>, \<open>toLowerCase\<close> and \<open>toUpperCase\<close> on the letters of ASCII.\<close>

definition spaced :: "string \<Rightarrow> string" where
  "spaced s = map (\<lambda>c. if c = CHR ''_'' then CHR '' '' else c) s"

definition js_lower :: "string \<Rightarrow> string" where
  "js_lower s = map (\<lambda>c. if (of_char c :: nat) \<in> {65..90} then char_of (of_char c + 32 :: nat) else c) s"

definition js_upper :: "string \<Rightarrow> string" where
  "js_upper s = map (\<lambda>c. if (of_char c :: nat) \<in> {97..122} then char_of (of_char c - 32 :: nat) else c) s"

text \<open>
  \<open>toLocaleString("en-IN", { maximumFractionDigits: 0 })\<close>: rounded half away from zero, the last three digits in one
  group and the others in pairs.
\<close>

fun pairs_rev :: "string \<Rightarrow> string" where
  "pairs_rev (a # b # c # ds) = a # b # CHR '','' # pairs_rev (c # ds)"
| "pairs_rev ds = ds"

definition group_in :: "string \<Rightarrow> string" where
  "group_in ds = (if length ds \<le> 3 then ds else rev (take 3 (rev ds) @ '','' @ pairs_rev (drop 3 (rev ds))))"

definition locale_in :: "rat \<Rightarrow> string" where
  "locale_in r = (if r < 0 then ''-'' else []) @ group_in (nat_str (nat \<lfloor>\<bar>r\<bar> + 1/2\<rfloor>))"

definition rupees :: "env \<Rightarrow> rat option \<Rightarrow> string" where
  "rupees E paise = (let r = fdiv E (dflt paise 0) 100 in
     if \<bar>r\<bar> \<ge> 10000000 then ''Rs'' @ to_fixed E (fdiv E r 10000000) 2 @ '' Cr''
     else if \<bar>r\<bar> \<ge> 100000 then ''Rs'' @ to_fixed E (fdiv E r 100000) 2 @ '' L''
     else ''Rs'' @ locale_in r)"

definition pct :: "env \<Rightarrow> rat option \<Rightarrow> string" where
  "pct E x = to_fixed E (fmul E (dflt x 0) 100) 1 @ ''%''"

definition pad2 :: "int \<Rightarrow> string" where
  "pad2 n = (let s = int_str n in replicate (2 - length s) (CHR ''0'') @ s)"

text \<open>An offset from the opening of a case; the span of the trail picks the unit, and no span is infinite.\<close>

definition rel :: "env \<Rightarrow> int \<Rightarrow> int \<Rightarrow> int option \<Rightarrow> string" where
  "rel E ts origin lasts = (let ms = max 0 (ts - origin) in
     if (case lasts of None \<Rightarrow> False | Some n \<Rightarrow> n < 60000) then to_fixed E (fdiv E (of_int ms) 1000) 3 @ ''s''
     else if (case lasts of None \<Rightarrow> False | Some n \<Rightarrow> n < 3600000)
     then pad2 (ms div 60000) @ '':'' @ pad2 ((ms mod 60000) div 1000)
     else (let d = ms div 86400000; h = (ms mod 86400000) div 3600000; m = (ms mod 3600000) div 60000 in
       if d > 0 then int_str d @ ''d '' @ pad2 h @ ''h'' else pad2 h @ '':'' @ pad2 m))"

section \<open>Stored payloads\<close>

text \<open>A payload is JSONB, whose objects come back with the keys sorted by length and then by bytes.\<close>

definition key_le :: "string \<Rightarrow> string \<Rightarrow> bool" where
  "key_le a b \<longleftrightarrow> length a < length b \<or> (length a = length b \<and> code_le a b)"

fun jsonb :: "json \<Rightarrow> json" where
  "jsonb (JArr xs) = JArr (map jsonb xs)"
| "jsonb (JObj fs) = JObj (sort_by (\<lambda>a b. key_le (fst a) (fst b)) (map (\<lambda>(k, v). (k, jsonb v)) fs))"
| "jsonb v = v"

section \<open>Elements\<close>

definition open_tag :: "string \<Rightarrow> (string \<times> string) list \<Rightarrow> string" where
  "open_tag n attrs = ''<'' @ n @ concat (map (\<lambda>(k, v). '' '' @ k @ ''='' @ dquoted v) attrs) @ ''>''"

definition elem :: "string \<Rightarrow> (string \<times> string) list \<Rightarrow> string \<Rightarrow> string" where
  "elem n attrs body = open_tag n attrs @ body @ ''</'' @ n @ ''>''"

abbreviation cls :: "string \<Rightarrow> (string \<times> string) list" where
  "cls c \<equiv> [(''class'', c)]"

definition NAV :: "(string \<times> (string \<times> string) list) list" where
  "NAV = [(''Run'', [(''/'', ''Overview''), (''/stream'', ''Live activity'')]),
     (''Recovery'', [(''/cases'', ''Cases''), (''/incidents'', ''Incidents'')]),
     (''Evidence'', [(''/attribution'', ''Attribution''), (''/ablation'', ''Model''), (''/metrics'', ''Breakdown'')]),
     (''Rules'', [(''/policy'', ''Policy'')])]"

definition ORBS :: "(string \<times> string) list" where
  "ORBS = [(''/'', ''mint''), (''/stream'', ''sky''), (''/cases'', ''peach''), (''/incidents'', ''rose''),
     (''/attribution'', ''lavender''), (''/ablation'', ''lavender''), (''/metrics'', ''sky''), (''/policy'', ''peach'')]"

definition nav_of :: "string \<Rightarrow> string" where
  "nav_of active = concat (map (\<lambda>(group, items).
     elem ''div'' (cls ''navgroup'') (elem ''h3'' [] (esc group) @ elem ''nav'' []
       (concat (map (\<lambda>(href, label).
          elem ''a'' ([(''href'', href)] @ (if href = active then cls ''on'' else [])) (esc label)) items)))) NAV)"

definition page :: "string \<Rightarrow> string \<Rightarrow> string \<Rightarrow> string \<Rightarrow> string \<Rightarrow> string" where
  "page css title active body footer =
     ''<!doctype html>'' @ elem ''html'' [(''lang'', ''en''), (''data-orb'', dflt (map_of ORBS active) ''mint'')]
       (elem ''head'' []
          (open_tag ''meta'' [(''charset'', ''utf-8'')]
           @ open_tag ''meta'' [(''name'', ''viewport''), (''content'', ''width=device-width,initial-scale=1'')]
           @ elem ''title'' [] (esc title @ '' - Recovery Agent'') @ elem ''style'' [] css)
        @ elem ''body'' [] (elem ''div'' (cls ''shell'')
            (elem ''aside'' [] (elem ''div'' (cls ''brand'') (elem ''b'' [] ''Recovery Agent'') @ nav_of active
               @ (if footer = [] then [] else elem ''div'' (cls ''sidefoot'') footer))
             @ elem ''main'' [] body)))"

definition pageHead :: "string \<Rightarrow> bool \<Rightarrow> string" where
  "pageHead title i = elem ''div'' (cls ''pagehead'')
     (elem ''div'' (cls ''orb'') [] @ elem ''h1'' (if i then cls ''id'' else []) (esc title))"

definition section_of :: "string \<Rightarrow> string \<Rightarrow> string" where
  "section_of label inner = elem ''section'' [] ((if label = [] then [] else elem ''h2'' [] (esc label)) @ inner)"

definition card_of :: "string \<Rightarrow> string \<Rightarrow> string \<Rightarrow> bool \<Rightarrow> string" where
  "card_of title body meta flush = elem ''div'' (cls ''card'')
     ((if title = [] then [] else elem ''div'' (cls ''card-hd'')
         (elem ''h3'' [] (esc title) @ (if meta = [] then [] else elem ''span'' (cls ''meta'') meta)))
      @ elem ''div'' (cls (''card-bd'' @ (if flush then '' flush'' else []))) body)"

datatype StatTone = hero | normal_tone | quiet

definition stat :: "string \<Rightarrow> string \<Rightarrow> StatTone \<Rightarrow> string" where
  "stat label val tone = elem ''div'' (cls (''stat'' @ (case tone of hero \<Rightarrow> '' hero'' | quiet \<Rightarrow> '' quiet'' | normal_tone \<Rightarrow> [])))
     (elem ''div'' (cls ''k'') (esc label) @ elem ''div'' (cls ''v'') (esc val))"

definition grid_of :: "nat \<Rightarrow> string list \<Rightarrow> string" where
  "grid_of cols items = elem ''div'' (cls (''grid c'' @ int_str (int cols))) (concat items)"

definition surfaceTag :: "string \<Rightarrow> string" where
  "surfaceTag surface =
     (if surface = ''live'' then elem ''span'' (cls ''chip solid'') ''LIVE'' else elem ''span'' (cls ''chip'') ''SIM'')"

definition bar_of :: "env \<Rightarrow> rat \<Rightarrow> bool \<Rightarrow> string" where
  "bar_of E fraction q = elem ''div'' (cls (''bar'' @ (if q then '' quiet'' else [])))
     (elem ''span'' [(''style'', ''width:'' @ num_str E (fmul E (max 0 (min 1 fraction)) 100) @ ''%'')] [])"

definition cell :: "string \<Rightarrow> nat list \<Rightarrow> nat \<times> string \<Rightarrow> string" where
  "cell n numeric x = (case x of (i, body) \<Rightarrow> elem n (if i \<in> set numeric then cls ''num'' else []) body)"

definition table_of :: "string list \<Rightarrow> string list list \<Rightarrow> nat list \<Rightarrow> string" where
  "table_of headers rows numeric =
     (if rows = [] then elem ''p'' (cls ''empty'') ''Nothing to show yet.''
      else elem ''div'' (cls ''scroll'') (elem ''table'' []
        (elem ''thead'' [] (elem ''tr'' [] (concat (map (cell ''th'' numeric) (enumerate 0 (map esc headers)))))
         @ elem ''tbody'' [] (concat (map (\<lambda>r. elem ''tr'' [] (concat (map (cell ''td'' numeric) (enumerate 0 r)))) rows)))))"

definition term_of :: "string \<Rightarrow> string \<Rightarrow> string" where
  "term_of label body = elem ''div'' (cls ''term'')
     (elem ''div'' (cls ''term-hd'') (elem ''span'' (cls ''caret'') [] @ esc label) @ elem ''div'' (cls ''term-bd'') body)"

definition empty_of :: "string \<Rightarrow> string" where
  "empty_of what = elem ''p'' (cls ''empty'') what"

section \<open>What is written can be read back\<close>

text \<open>The five references of \<open>esc\<close>, read as a browser reads them.\<close>

definition REFERENCES :: "(string \<times> char) list" where
  "REFERENCES = [(''&amp;'', CHR ''&''), (''&lt;'', CHR ''<''), (''&gt;'', CHR ''>''), (''&quot;'', CHR 0x22), (''&#39;'', CHR 0x27)]"

definition reference_at :: "string \<Rightarrow> (string \<times> char) option" where
  "reference_at s = find (\<lambda>(r, _). take (length r) s = r) REFERENCES"

fun unesc :: "string \<Rightarrow> string" where
  "unesc [] = []"
| "unesc (c # cs) = (case reference_at (c # cs) of
     Some (r, x) \<Rightarrow> x # unesc (drop (length r - 1) cs) | None \<Rightarrow> c # unesc cs)"

lemma unesc_char: "unesc (esc_char c @ s) = c # unesc s"
proof (cases "c \<in> {CHR ''&'', CHR ''<'', CHR ''>'', CHR 0x22, CHR 0x27}")
  case True
  then show ?thesis by (auto simp: esc_char_def reference_at_def REFERENCES_def)
next
  case False
  then show ?thesis by (simp add: esc_char_def reference_at_def REFERENCES_def)
qed

lemma unesc_esc: "unesc (esc s) = s"
  by (induction s) (simp_all add: esc_def unesc_char)

section \<open>Markup\<close>

text \<open>The characters that begin or end a tag or an attribute, and what is left of a page when only they are kept.\<close>

definition MARKUP :: "char list" where
  "MARKUP = [CHR ''<'', CHR ''>'', CHR 0x22, CHR 0x27]"

definition skeleton :: "string \<Rightarrow> string" where
  "skeleton s = filter (\<lambda>c. c \<in> set MARKUP) s"

lemma skeleton_append [simp]: "skeleton (s @ t) = skeleton s @ skeleton t"
  by (simp add: skeleton_def)

lemma skeleton_Nil [simp]: "skeleton [] = []"
  by (simp add: skeleton_def)

lemma skeleton_Cons [simp]: "skeleton (c # s) = (if c \<in> set MARKUP then c # skeleton s else skeleton s)"
  by (simp add: skeleton_def)

lemma skeleton_concat [simp]: "skeleton (concat xs) = concat (map skeleton xs)"
  by (induction xs) simp_all

lemma skeleton_replicate [simp]: "skeleton (replicate n c) = (if c \<in> set MARKUP then replicate n c else [])"
  by (induction n) auto

lemma skeleton_esc [simp]: "skeleton (esc s) = []"
proof (induction s)
  case (Cons c s)
  have "skeleton (esc_char c) = []" by (simp add: esc_char_def MARKUP_def)
  with Cons show ?case by (simp add: esc_def)
qed (simp add: esc_def)

lemma skeleton_nat_str [simp]: "skeleton (nat_str n) = []"
proof -
  have "skeleton [char_of (48 + k :: nat)] = []" if "k < 10" for k :: nat
  proof -
    from that have "(of_char (char_of (48 + k :: nat)) :: nat) = 48 + k" by simp
    with that have "(char_of (48 + k :: nat) :: char) \<notin> set MARKUP"
      by (auto simp: MARKUP_def dest!: arg_cong [where f = "of_char :: char \<Rightarrow> nat"])
    then show ?thesis by simp
  qed
  then show ?thesis
  proof (induction n rule: nat_str.induct)
    case (1 n)
    then show ?case by (cases "n < 10") (simp_all only: nat_str.simps [of n] if_True if_False skeleton_append, simp)
  qed
qed

lemma skeleton_int_str [simp]: "skeleton (int_str z) = []"
  by (simp add: int_str_def MARKUP_def)

end
