(* ===== verification/Console_Queries.thy ===== *)
theory Console_Queries
  imports Console_Text Batch
begin

text \<open>
  \<open>packages/console/src/queries.ts\<close>: what the console reads of the data base. A query that leaves the order of ties open
  takes them in the order of insertion. The payload of a row is JSONB, whose objects come back with the keys sorted by
  length and then by bytes. The middle dot of the details is written \<open>-\<close> and the ellipsis \<open>...\<close>. The batches of
  \<open>attribution_runs\<close> and the statistics of an incident are not columns of the model. Shown here: the
  trail of a case is made of the rows of nine sources, in time order (scheduled actions, promises, incident memberships,
  revisions and the ledger rows of other types are none of them).
\<close>

section \<open>Aggregates\<close>

definition joined :: "db \<Rightarrow> (case_row \<times> obligation_row) list" where
  "joined s = concat (map (\<lambda>c. map (\<lambda>ob. (c, ob)) (filter (\<lambda>ob. ob_id ob = cs_obligation c) (obligations s))) (case_rows s))"

definition groups_by :: "('r \<Rightarrow> 'k) \<Rightarrow> 'r list \<Rightarrow> ('k \<times> 'r list) list" where
  "groups_by key rows = map (\<lambda>k. (k, filter (\<lambda>r. key r = k) rows)) (rev (remdups (rev (map key rows))))"

definition terminalStates :: "(CaseState \<times> nat \<times> int) list dbm" where
  "terminalStates = readM (\<lambda>s. sort_key (\<lambda>(_, n, _). - int n)
     (map (\<lambda>(st, rows). (st, length rows, sum_list (map (ob_amount \<circ> snd) rows))) (groups_by (cs_state \<circ> fst) (joined s))))"

definition tierCounts :: "(nat \<times> nat) list dbm" where
  "tierCounts = readM (\<lambda>s. sort_key fst (map (\<lambda>(tier, rows). (tier, length rows)) (groups_by cs_tier (case_rows s))))"

record BlockRow =
  bk_ruleId :: RuleId
  bk_outcome :: PolicyOutcome
  bk_n :: nat
  bk_reason :: string

definition min_text :: "env \<Rightarrow> string list \<Rightarrow> string" where
  "min_text E xs = (case sort_by (db_le E) xs of [] \<Rightarrow> [] | x # _ \<Rightarrow> x)"

definition policyBlocks :: "env \<Rightarrow> BlockRow list dbm" where
  "policyBlocks E = readM (\<lambda>s. sort_key (\<lambda>b. - int (bk_n b))
     (map (\<lambda>((rule, out), rows). \<lparr>bk_ruleId = rule, bk_outcome = out, bk_n = length rows,
         bk_reason = min_text E (map (pd_reason \<circ> dr_decision) rows)\<rparr>)
       (groups_by (\<lambda>d. (pd_ruleId (dr_decision d), pd_outcome (dr_decision d))) (policy_decisions s))))"

section \<open>The list of cases\<close>

record ListedCase =
  lc_id :: string
  lc_state :: CaseState
  lc_tier :: nat
  lc_holdout :: bool
  lc_amount :: int
  lc_rail :: string
  lc_domain :: Domain

text \<open>\<open>payload->>'rail'\<close> of the first evidence of a case.\<close>

definition field_text :: "env \<Rightarrow> string \<Rightarrow> params \<Rightarrow> string option" where
  "field_text E k ps = (case map_of ps k of None \<Rightarrow> None | Some JNull \<Rightarrow> None | Some (JStr x) \<Rightarrow> Some x | Some v \<Rightarrow> Some (json_text E v))"

definition first_rail :: "env \<Rightarrow> db \<Rightarrow> string \<Rightarrow> string option" where
  "first_rail E s c = Option.bind (find (\<lambda>e. er_case e = c) (evidence s)) (\<lambda>e. field_text E ''rail'' (er_payload e))"

definition list_row :: "env \<Rightarrow> db \<Rightarrow> case_row \<times> obligation_row \<Rightarrow> ListedCase" where
  "list_row E s x = (case x of (c, ob) \<Rightarrow>
     \<lparr>lc_id = cs_id c, lc_state = cs_state c, lc_tier = cs_tier c, lc_holdout = cs_holdout c,
      lc_amount = ob_amount ob, lc_rail = dflt (first_rail E s (cs_id c)) ''-'', lc_domain = cs_domain c\<rparr>)"

text \<open>\<open>ORDER BY (state = 'RECOVERED') DESC, amount_paise DESC\<close>.\<close>

definition listed_le :: "ListedCase \<Rightarrow> ListedCase \<Rightarrow> bool" where
  "listed_le a b \<longleftrightarrow> (lc_state a = RECOVERED \<and> lc_state b \<noteq> RECOVERED)
     \<or> ((lc_state a = RECOVERED) = (lc_state b = RECOVERED) \<and> lc_amount b \<le> lc_amount a)"

definition caseList :: "env \<Rightarrow> nat \<Rightarrow> string option \<Rightarrow> ListedCase list dbm" where
  "caseList E limit state = readM (\<lambda>s. take limit
     (sort_by listed_le
       (map (list_row E s) (filter (\<lambda>(c, _). truthy state \<longrightarrow> Some (state_str (cs_state c)) = state) (joined s)))))"

section \<open>Payloads as text\<close>

text \<open>The function \<open>json\<close> of the source.\<close>

definition json_cut :: "env \<Rightarrow> json \<Rightarrow> string" where
  "json_cut E v = (let s = json_text E v in if 190 < length s then take 190 s @ ''...'' else s)"

abbreviation stored_json :: "env \<Rightarrow> params \<Rightarrow> string" where
  "stored_json E ps \<equiv> json_cut E (jsonb (JObj ps))"

fun event_params :: "CaseEvent \<Rightarrow> params" where
  "event_params (case_opened d h) = [(''domain'', JStr (domain_str d)), (''holdout'', JBool h)]"
| "event_params (evidence_added k i) = [(''kind'', JStr (kind_str k)), (''evidenceId'', JStr i)]"
| "event_params (diagnosis_started t) = [(''tier'', JInt (int t))]"
| "event_params (plan_proposed v) = [(''planVersion'', JInt v)]"
| "event_params (approval_required r) = [(''ruleId'', JStr r)]"
| "event_params (approval_granted a) = [(''approver'', JStr a)]"
| "event_params approval_expired = []"
| "event_params (action_executed a n) = [(''actionId'', JStr a), (''attemptNo'', JInt n)]"
| "event_params (action_scheduled a f) = [(''actionId'', JStr a), (''fireAt'', JStr f)]"
| "event_params (outcome_observed r) = [(''outcome'', JStr r)]"
| "event_params (incident_attached i) = [(''incidentId'', JStr i)]"
| "event_params (incident_released i) = [(''incidentId'', JStr i)]"
| "event_params (terminal_reached st r) = [(''state'', JStr (state_str st)), (''reason'', JStr r)]"

fun summarise :: "env \<Rightarrow> CaseEvent \<Rightarrow> string" where
  "summarise E (case_opened d h) = ''domain '' @ domain_str d @ '' - holdout '' @ (if h then ''YES'' else ''no'')"
| "summarise E (diagnosis_started t) = ''tier '' @ int_str (int t)"
| "summarise E (action_executed a n) = a @ '' - attempt '' @ int_str n"
| "summarise E (action_scheduled a f) = a @ '' - fires '' @ f"
| "summarise E (terminal_reached st r) = state_str st @ '' - '' @ r"
| "summarise E ev = stored_json E ((''type'', JStr (event_type ev)) # event_params ev)"

section \<open>The trail of a case\<close>

record TrailEntry =
  te_ts :: int
  te_kind :: string
  te_detail :: string
  te_surface :: "string option"

definition entry :: "int \<Rightarrow> string \<Rightarrow> string \<Rightarrow> TrailEntry" where
  "entry ts k d = \<lparr>te_ts = ts, te_kind = k, te_detail = d, te_surface = None\<rparr>"

definition event_entry :: "env \<Rightarrow> StoredCaseEvent \<Rightarrow> TrailEntry" where
  "event_entry E e = entry (ev_occurredAt e) (js_upper (event_type (ev_event e))) (summarise E (ev_event e))"

definition evidence_entry :: "env \<Rightarrow> evidence_row \<Rightarrow> TrailEntry" where
  "evidence_entry E e = entry (er_observed e) ''EVIDENCE'' (kind_str (er_kind e) @ '' - '' @ stored_json E (er_payload e))"

definition claim_entry :: "env \<Rightarrow> claim_row \<Rightarrow> TrailEntry" where
  "claim_entry E m = entry (cm_created m) ''CLAIM''
     (role_str (cm_role m) @ (case cm_confidence m of None \<Rightarrow> [] | Some q \<Rightarrow> '' ('' @ to_fixed E q 2 @ '')'')
      @ '' - '' @ stored_json E (cm_payload m)
      @ (if cm_refs m = [] then [] else '' - cites '' @ join '', '' (cm_refs m)))"

fun run_status_str :: "run_status \<Rightarrow> string" where
  "run_status_str run_ok = ''ok''"
| "run_status_str run_timeout = ''timeout''"
| "run_status_str run_error = ''error''"
| "run_status_str run_skipped = ''skipped''"

definition run_entry :: "run_row \<Rightarrow> TrailEntry" where
  "run_entry r = entry (ar_started r) ''AGENT RUN''
     (role_str (ar_role r) @ '' - '' @ run_status_str (ar_status r)
      @ (if truthy (ar_provider r)
         then '' - '' @ dflt (ar_provider r) [] @ ''/'' @ dflt (ar_model r) ''null'' @ '' ''
              @ (case ar_latency r of None \<Rightarrow> ''?'' | Some n \<Rightarrow> int_str n) @ ''ms''
         else '' - deterministic, no provider''))"

fun outcome_str :: "PolicyOutcome \<Rightarrow> string" where
  "outcome_str allow = ''allow''"
| "outcome_str block = ''block''"
| "outcome_str require_approval = ''require_approval''"

definition decision_entry :: "decision_row \<Rightarrow> TrailEntry" where
  "decision_entry d = (let p = dr_decision d in entry (dr_at d) ''POLICY''
     (js_upper (outcome_str (pd_outcome p)) @ '' '' @ dr_action d @ '' - rule '' @ RULES (pd_ruleId p)
      @ '' - policy '' @ pd_policyVersion p @ '' - '' @ pd_reason p))"

fun attempt_state_str :: "attempt_state \<Rightarrow> string" where
  "attempt_state_str in_flight = ''in_flight''"
| "attempt_state_str succeeded = ''succeeded''"
| "attempt_state_str failed = ''failed''"
| "attempt_state_str reconciled = ''reconciled''"

fun surface_str :: "ActionSurface \<Rightarrow> string" where
  "surface_str live = ''live''"
| "surface_str simulated = ''simulated''"

text \<open>\<open>r.response["detail"] ?? {}\<close>.\<close>

definition detail_of :: "params \<Rightarrow> json" where
  "detail_of ps = (case map_of ps ''detail'' of None \<Rightarrow> JObj [] | Some JNull \<Rightarrow> JObj [] | Some v \<Rightarrow> v)"

definition attempt_entry :: "env \<Rightarrow> attempt_row \<Rightarrow> TrailEntry" where
  "attempt_entry E a = (entry (at_sent a) ''EXECUTE''
     (at_action a @ '' - '' @ attempt_state_str (at_state a) @ '' - idem '' @ take 10 (at_idem a) @ ''...''
      @ (case at_response a of None \<Rightarrow> [] | Some ps \<Rightarrow> '' - '' @ json_cut E (jsonb (detail_of ps)))))
     \<lparr>te_surface := Some (surface_str (at_surface a))\<rparr>"

definition token_entry :: "env \<Rightarrow> db \<Rightarrow> token_row \<Rightarrow> TrailEntry" where
  "token_entry E s k = (let t = ct_token k in entry (ct_minted k) ''TOKEN''
     (tk_actionId t @ '' - tk_'' @ take 6 (tk_nonce t) @ '' - rule '' @ tk_ruleId t
      @ (case tk_amountCapPaise t of None \<Rightarrow> [] | Some n \<Rightarrow> '' - cap '' @ num_str E (fdiv E (of_int n) 100))
      @ '' - '' @ (if tk_nonce t \<in> tb_nonce ` set (token_burns s) then ''burned'' else ''unburned'')))"

definition settlement_entry :: "env \<Rightarrow> settlement_row \<Rightarrow> TrailEntry" where
  "settlement_entry E x = entry (st_received x) ''SETTLEMENT''
     (num_str E (fdiv E (of_int (st_amount x)) 100) @ '' received - matched by '' @ strategy_str (st_matchedBy x)
      @ '' - source '' @ st_source x)"

definition TRAIL_TYPES :: "string list" where
  "TRAIL_TYPES = [''plan_selected'', ''plan_optimized'', ''degraded_escalation'', ''recovered'', ''unrecoverable'', ''partial_settlement'']"

definition ledger_entry :: "env \<Rightarrow> ledger_row \<Rightarrow> TrailEntry" where
  "ledger_entry E l = entry (lg_ts l) (js_upper (lg_type l)) (lg_actor l @ '' - '' @ stored_json E (lg_payload l))"

text \<open>The rows of one case, table by table, each in the order of its query.\<close>

definition trail_rows :: "env \<Rightarrow> string \<Rightarrow> string \<Rightarrow> db \<Rightarrow> TrailEntry list" where
  "trail_rows E c ob s =
     map (event_entry E) (readAll c s)
     @ map (evidence_entry E) (sort_key er_observed (filter (\<lambda>e. er_case e = c) (evidence s)))
     @ map (claim_entry E) (sort_key cm_created (filter (\<lambda>m. cm_case m = c) (claims s)))
     @ map run_entry (sort_key ar_started (filter (\<lambda>r. ar_case r = c) (agent_runs s)))
     @ map decision_entry (filter (\<lambda>d. dr_case d = c) (policy_decisions s))
     @ map (attempt_entry E) (sort_key at_sent (filter (\<lambda>a. at_case a = c) (action_attempts s)))
     @ map (token_entry E s) (sort_key ct_minted (filter (\<lambda>k. ct_case k = c) (capability_tokens s)))
     @ map (settlement_entry E) (sort_key st_received (filter (\<lambda>x. st_obligation x = Some ob) (settlements s)))
     @ map (ledger_entry E) (filter (\<lambda>l. lg_case l = c \<and> lg_type l \<in> set TRAIL_TYPES) (ledger s))"

record Trail =
  tl_header :: "(case_row \<times> obligation_row) option"
  tl_origin :: int
  tl_entries :: "TrailEntry list"

definition caseTrail :: "env \<Rightarrow> string \<Rightarrow> Trail dbm" where
  "caseTrail E c = readM (\<lambda>s.
     case filter (\<lambda>(r, _). cs_id r = c) (joined s) of
       [] \<Rightarrow> \<lparr>tl_header = None, tl_origin = 0, tl_entries = []\<rparr>
     | (r, ob) # _ \<Rightarrow> \<lparr>tl_header = Some (r, ob), tl_origin = cs_opened_at r,
         tl_entries = sort_key te_ts (trail_rows E c (ob_id ob) s)\<rparr>)"

text \<open>\<open>LIKE 'release_%'\<close>: the underscore stands for any one character.\<close>

definition releaseSteps :: "string \<Rightarrow> ledger_row list dbm" where
  "releaseSteps inc = readM (\<lambda>s. filter (\<lambda>l. lg_case l = inc \<and> take 7 (lg_type l) = ''release'' \<and> 8 \<le> length (lg_type l)) (ledger s))"

section \<open>Every case has its obligation\<close>

text \<open>The foreign key the joins rest on, as an invariant of the engine.\<close>

definition obliged :: "db \<Rightarrow> bool" where
  "obliged s \<longleftrightarrow> set (map cs_obligation (case_rows s)) \<subseteq> set (map ob_id (obligations s))"

lemma obliged_append: "preserves obliged (event_append now c ev src)"
  unfolding event_append_def insert_case_event_def insert_revision_def cancel_outstanding_def Let_def
  by (intro preserves_intros preserves_modifyM)
     (simp_all add: obliged_def map_update_where write_revision_def del: set_map)

lemma obliged_open: "preserves obliged (openOrAttach now req)"
proof -
  have upsert: "obliged t \<and> (\<forall>ob. x = Inr ob \<longrightarrow> ob \<in> set (map ob_id (obligations t)))"
    if "upsert_obligation req s = (x, t)" "obliged s" for s x t
    using that unfolding upsert_obligation_def obligation_by_ref_def
    by (auto simp: monad_simps obliged_def find_Some_iff split: option.splits if_splits) blast
  have "preserves obliged (attach_or_insert now req)"
    unfolding attach_or_insert_def
  proof (rule preserves_transactM, rule preservesI, goal_cases)
    case (1 s)
    obtain x t where run: "upsert_obligation req s = (x, t)" by (cases "upsert_obligation req s")
    from upsert [OF run 1] run show ?case
      by (auto simp: monad_simps insert_case_def new_case_row_def obliged_def split: option.split sum.split)
  qed
  then show ?thesis
    unfolding openOrAttach_def by (intro preserves_intros obliged_append)
qed

interpretation owed: engine_invariant obliged
proof unfold_locales
  show "preserves obliged (openOrAttach now req)" for now req by (rule obliged_open)
  show "preserves obliged (event_append now c ev src)" for now c ev src by (rule obliged_append)
  show "preserves obliged (onSettlement now x)" for now x
    unfolding onSettlement_def close_recovered_def settle_obligation_def settledAmount_def rc_record_def insert_settlement_def
    by (auto intro!: preserves_intros preserves_modifyM obliged_append preserves_ledger_append
        simp: obliged_def map_update_where simp del: set_map split: option.splits)
  show "preserves obliged (sched_schedule now req)" for now req
    by (rule frame_schedule) (simp add: obliged_def)
  show "preserves obliged (Scheduler.tick E leaseMs now locked owner limit)" for E leaseMs now locked owner limit
    by (rule frame_tick) (simp add: obliged_def)
  show "preserves obliged (burn now tok)" "preserves obliged (record_attempt a)" "preserves obliged (settle now k st resp)"
    for now tok a k st resp by (rule frame_exec; simp add: obliged_def)+
  show "preserves obliged (writeClaim now wc)" "preserves obliged (invalidateRoles now c roles)" for now wc c roles
    by (rule frame_claims; simp add: obliged_def)+
  show "preserves obliged (label_case c g)" for c g
    unfolding label_case_def
    by (rule preserves_modifyM) (simp add: obliged_def map_update_where del: set_map)
qed (auto simp: obliged_def)

lemma reachable_obliged: "reachable w s \<Longrightarrow> obliged s"
proof -
  have "obliged (seeded ms cs)" for ms cs by (simp add: obliged_def seeded_def empty_db_def)
  moreover assume "reachable w s"
  ultimately show ?thesis unfolding reachable_def using owed.reachable_keeps by blast
qed

section \<open>The trail is complete\<close>

lemma joined_of:
  assumes "distinct (map cs_id (case_rows s))" and "obliged s" and "x \<in> set (case_rows s)"
  shows "\<exists>ob rest. filter (\<lambda>(r, _). cs_id r = cs_id x) (joined s) = (x, ob) # rest \<and> ob \<in> set (obligations s) \<and> ob_id ob = cs_obligation x"
proof -
  have mem: "fst p = x \<and> snd p \<in> set (obligations s) \<and> ob_id (snd p) = cs_obligation x"
    if "p \<in> set (filter (\<lambda>(r, _). cs_id r = cs_id x) (joined s))" for p
    using that assms(1,3) by (auto simp: joined_def distinct_map inj_on_def)
  from assms(2,3) obtain ob where "ob \<in> set (obligations s)" "ob_id ob = cs_obligation x"
    unfolding obliged_def by auto
  with assms(3) have "(x, ob) \<in> set (filter (\<lambda>(r, _). cs_id r = cs_id x) (joined s))"
    by (auto simp: joined_def)
  then obtain p rest where "filter (\<lambda>(r, _). cs_id r = cs_id x) (joined s) = p # rest"
    by (cases "filter (\<lambda>(r, _). cs_id r = cs_id x) (joined s)") auto
  with mem [of p] show ?thesis by (cases p) auto
qed

lemma caseTrail_of:
  assumes "distinct (map cs_id (case_rows s))" and "obliged s" and "x \<in> set (case_rows s)"
  shows "\<exists>ob. caseTrail E (cs_id x) s = (Inr \<lparr>tl_header = Some (x, ob), tl_origin = cs_opened_at x,
        tl_entries = sort_key te_ts (trail_rows E (cs_id x) (cs_obligation x) s)\<rparr>, s)
     \<and> ob \<in> set (obligations s) \<and> ob_id ob = cs_obligation x"
  using joined_of [OF assms] by (auto simp: caseTrail_def monad_simps)

text \<open>A case that ended in a state by the end of its log has the event that says so.\<close>

lemma reduce_recovered: "\<lbrakk>reduce r e = Inr r'; rv_state r' = RECOVERED\<rbrakk>
    \<Longrightarrow> rv_state r = RECOVERED \<or> (\<exists>why. ev_event e = terminal_reached RECOVERED why)"
  by (cases "ev_event e") (auto simp: reduce_def next_revision_def Let_def split: if_splits sum.splits elim!: bindE.elims)

lemma reduced_recovered:
  "\<lbrakk>foldE reduce r es = Inr r'; rv_state r' = RECOVERED\<rbrakk>
    \<Longrightarrow> rv_state r = RECOVERED \<or> (\<exists>e \<in> set es. \<exists>why. ev_event e = terminal_reached RECOVERED why)"
proof (induction es arbitrary: r)
  case (Cons e es)
  then obtain m where m: "reduce r e = Inr m" "foldE reduce m es = Inr r'" by (cases "reduce r e") auto
  with Cons.IH [OF m(2) Cons.prems(2)] reduce_recovered [OF m(1)] show ?case by auto
qed simp

lemma recovered_says_so:
  assumes "store_inv s" and "x \<in> set (case_rows s)" and "cs_state x = RECOVERED"
  shows "\<exists>e \<in> set (readAll (cs_id x) s). \<exists>why. ev_event e = terminal_reached RECOVERED why"
proof -
  have ok: "case_ok s x" using assms(1,2) by (simp add: store_inv_def)
  then obtain rvn where "reduceAll (cs_id x) (log_of (cs_id x) s) = Inr rvn" "row_agrees x rvn"
    by (auto simp: case_ok_def)
  with assms(3) reduced_recovered [of "initialRevision (cs_id x)" "log_of (cs_id x) s" rvn]
  show ?thesis unfolding case_ok_readAll [OF ok] by (auto simp: reduceAll_def row_agrees_def initialRevision_def)
qed

end
