(* ===== verification/Console_Screens.thy ===== *)
theory Console_Screens
  imports Console_Queries "HOL-Library.Sublist"
begin

text \<open>
  Screens of the console: \<open>packages/console/src/screens/cases.ts\<close> and \<open>policy.ts\<close>. A screen is a query and then a
  pure function of its result. Shown here: the markup of the page of a case is the same for any two
  trails of the same shape, so that no text of a row can change it.
\<close>

section \<open>The list of cases\<close>

definition FILTERS :: "string list" where
  "FILTERS = [[], ''RECOVERED'', ''UNRECOVERABLE'', ''OPTED_OUT'', ''DISPUTED'', ''SUPPRESSED_BY_INCIDENT'']"

definition filter_link :: "string option \<Rightarrow> string \<Rightarrow> string" where
  "filter_link chosen f =
     elem ''a'' ([(''href'', ''/cases'' @ (if f = [] then [] else ''?state='' @ f))]
        @ (if chosen = Some f \<or> (\<not> truthy chosen \<and> f = []) then cls ''on'' else []))
       (if f = [] then ''all'' else js_lower (spaced f))"

definition case_cells :: "env \<Rightarrow> ListedCase \<Rightarrow> string list" where
  "case_cells E c =
     [elem ''a'' [(''href'', ''/case/'' @ esc (lc_id c)), (''class'', ''mono'')] (esc (lc_id c)),
      esc (spaced (domain_str (lc_domain c))),
      elem ''span'' (cls ''chip'') (''T'' @ int_str (int (lc_tier c))),
      (if lc_holdout c then elem ''span'' (cls ''chip'') ''held back''
       else elem ''span'' [(''style'', ''color:var(--muted)'')] ''treated''),
      rupees E (Some (of_int (lc_amount c))),
      elem ''span'' (cls (''state state-'' @ state_str (lc_state c))) (esc (js_lower (spaced (state_str (lc_state c)))))]"

definition cases_page :: "env \<Rightarrow> string \<Rightarrow> string option \<Rightarrow> ListedCase list \<Rightarrow> string" where
  "cases_page E css chosen rows = page css ''Cases'' ''/cases''
     (pageHead ''Cases'' False
      @ elem ''div'' (cls ''filters'') (concat (map (filter_link chosen) FILTERS))
      @ card_of [] (table_of [''case'', ''domain'', ''tier'', ''arm'', ''at risk'', ''outcome''] (map (case_cells E) rows) [4])
          (int_str (int (length rows)) @ '' shown'') True) []"

definition casesScreen :: "env \<Rightarrow> string \<Rightarrow> string option \<Rightarrow> string dbm" where
  "casesScreen E css chosen = bindM (caseList E 150 chosen) (\<lambda>rows. retM (cases_page E css chosen rows))"

section \<open>One case\<close>

definition KEY_STEPS :: "string list" where
  "KEY_STEPS = [''POLICY'', ''TOKEN'', ''EXECUTE'', ''SETTLEMENT'', ''TERMINAL_REACHED'']"

definition trail_line :: "env \<Rightarrow> int \<Rightarrow> int option \<Rightarrow> TrailEntry \<Rightarrow> string" where
  "trail_line E origin lasts e = elem ''tr'' (if te_kind e \<in> set KEY_STEPS then cls ''key'' else [])
     (elem ''td'' (cls ''t'') (rel E (te_ts e) origin lasts)
      @ elem ''td'' (cls ''ev'') (esc (spaced (te_kind e)))
      @ elem ''td'' (cls ''d'') ((if truthy (te_surface e) then surfaceTag (dflt (te_surface e) []) @ '' '' else []) @ esc (te_detail e)))"

text \<open>How long the case ran: up to the last entry of the trail.\<close>

definition trail_lasts :: "Trail \<Rightarrow> int option" where
  "trail_lasts t = (if tl_entries t = [] then None else Some (te_ts (last (tl_entries t)) - tl_origin t))"

definition case_stats :: "env \<Rightarrow> case_row \<Rightarrow> obligation_row \<Rightarrow> string list" where
  "case_stats E r ob =
     [stat ''At risk'' (rupees E (Some (of_int (ob_amount ob)))) normal_tone,
      stat ''Domain'' (spaced (domain_str (cs_domain r))) normal_tone,
      stat ''Obligation'' (ob_id ob) quiet,
      stat ''Outcome'' (js_lower (spaced (state_str (cs_state r)))) (if cs_state r = RECOVERED then hero else quiet),
      stat ''Decided by'' (''Tier '' @ int_str (int (cs_tier r))) normal_tone,
      stat ''Arm'' (if cs_holdout r then ''held back'' else ''treated'') (if cs_holdout r then quiet else normal_tone)]"

definition case_page :: "env \<Rightarrow> string \<Rightarrow> string \<Rightarrow> Trail \<Rightarrow> string" where
  "case_page E css c t =
     (case tl_header t of
        None \<Rightarrow> page css ''Case not found'' ''/cases'' (pageHead (''No case '' @ c) False) []
      | Some (r, ob) \<Rightarrow> page css ''Cases'' ''/cases''
          (pageHead c True @ grid_of 3 (case_stats E r ob)
           @ section_of [] (card_of ''What happened, in order''
               (elem ''div'' (cls ''scroll'') (elem ''table'' (cls ''trail'')
                  (elem ''tbody'' [] (concat (map (trail_line E (tl_origin t) (trail_lasts t)) (tl_entries t))))))
               (int_str (int (length (tl_entries t))) @ '' entries'') True)) [])"

definition caseScreen :: "env \<Rightarrow> string \<Rightarrow> string \<Rightarrow> string dbm" where
  "caseScreen E css c = bindM (caseTrail E c) (\<lambda>t. retM (case_page E css c t))"

section \<open>The policy\<close>

text \<open>The policy file, read and parsed, is an argument.\<close>

definition decisions_of :: "PolicyOutcome \<Rightarrow> BlockRow list \<Rightarrow> nat" where
  "decisions_of out ds = sum_list (map bk_n (filter (\<lambda>d. bk_outcome d = out) ds))"

definition decision_cells :: "BlockRow \<Rightarrow> string list" where
  "decision_cells d =
     [elem ''span'' (cls ''chip'') (RULES (bk_ruleId d)),
      (case bk_outcome d of block \<Rightarrow> ''refused'' | allow \<Rightarrow> ''allowed'' | require_approval \<Rightarrow> ''sent for approval''),
      esc (bk_reason d), int_str (int (bk_n d))]"

definition cap_cells :: "ContactCap \<Rightarrow> string list" where
  "cap_cells c =
     [if cc_channel c = ''*'' then elem ''strong'' [] ''all channels together'' else esc (cc_channel c),
      int_str (cc_windowDays c) @ '' days'', int_str (cc_max c)]"

definition policy_page :: "string \<Rightarrow> string \<Rightarrow> Policy \<Rightarrow> string \<Rightarrow> BlockRow list \<Rightarrow> string" where
  "policy_page css merchant policy raw decisions = page css ''Policy'' ''/policy''
     (pageHead ''What the agent is allowed to do'' False
      @ grid_of 4
         [stat ''Policy version'' (esc (po_version policy)) normal_tone,
          stat ''Merchant'' (esc (po_merchant policy)) quiet,
          stat ''Actions refused'' (int_str (int (decisions_of block decisions))) hero,
          stat ''Actions permitted'' (int_str (int (decisions_of allow decisions))) quiet,
          stat ''Sent to a person'' (int_str (int (decisions_of require_approval decisions))) quiet,
          stat (''Quiet hours - '' @ qh_timezone (po_quietHours policy))
            (qh_start (po_quietHours policy) @ ''-'' @ qh_end (po_quietHours policy)) normal_tone]
      @ section_of ''Decisions'' (card_of [] (table_of [''rule'', ''outcome'', ''reason'', ''count''] (map decision_cells decisions) [3]) [] True)
      @ section_of ''Contact caps'' (card_of [] (table_of [''channel'', ''window'', ''limit''] (map cap_cells (po_contactCaps policy)) [2]) [] True)
      @ section_of ''Policy in force'' (term_of (''policies/'' @ esc merchant @ ''.yaml'') (elem ''pre'' [] (esc raw)))) []"

definition policyScreen :: "env \<Rightarrow> string \<Rightarrow> string \<Rightarrow> Policy \<Rightarrow> string \<Rightarrow> string dbm" where
  "policyScreen E css merchant policy raw =
     bindM (policyBlocks E) (\<lambda>decisions. retM (policy_page css merchant policy raw decisions))"

section \<open>The markup of a page\<close>

text \<open>Numbers print without markup.\<close>

definition plain_env :: "env \<Rightarrow> bool" where
  "plain_env E \<longleftrightarrow> (\<forall>q. skeleton (num_str E q) = []) \<and> (\<forall>q n. skeleton (to_fixed E q n) = [])"

text \<open>What of a trail the markup of its page may depend on.\<close>

definition entry_shape :: "TrailEntry \<Rightarrow> bool \<times> bool" where
  "entry_shape e = (te_kind e \<in> set KEY_STEPS, truthy (te_surface e))"

definition trail_shape :: "Trail \<Rightarrow> bool \<times> (bool \<times> bool) list" where
  "trail_shape t = (tl_header t = None, map entry_shape (tl_entries t))"

lemma skeleton_rel: "plain_env E \<Longrightarrow> skeleton (rel E ts origin lasts) = []"
  by (simp add: rel_def plain_env_def pad2_def Let_def MARKUP_def split: option.split)

lemma skeleton_elem: "skeleton (elem n attrs body) = skeleton (open_tag n attrs) @ skeleton body @ skeleton (''</'' @ n @ ''>'')"
  by (simp add: elem_def)

lemma skeleton_stat: "skeleton (stat k v tone) = skeleton (stat [] [] normal_tone)"
  by (simp add: stat_def elem_def open_tag_def dquoted_def MARKUP_def split: StatTone.split)

lemma skeleton_surface: "skeleton (surfaceTag a) = skeleton (surfaceTag [])"
  by (simp add: surfaceTag_def elem_def open_tag_def dquoted_def MARKUP_def)

lemma skeleton_head: "skeleton (pageHead c i) = skeleton (pageHead [] i)"
  by (simp add: pageHead_def skeleton_elem)

lemma skeleton_page: "skeleton body = skeleton body' \<Longrightarrow> skeleton (page css title active body []) = skeleton (page css title active body' [])"
  by (simp add: page_def skeleton_elem)

lemma skeleton_line:
  assumes "plain_env E" and "entry_shape e = entry_shape f"
  shows "skeleton (trail_line E a l e) = skeleton (trail_line E b k f)"
  using assms unfolding trail_line_def skeleton_elem entry_shape_def
  by (simp add: skeleton_elem skeleton_rel skeleton_surface [of "dflt (te_surface e) []"] skeleton_surface [of "dflt (te_surface f) []"])

lemma skeleton_lines:
  assumes "plain_env E" and "map entry_shape es = map entry_shape fs"
  shows "concat (map (\<lambda>e. skeleton (trail_line E a l e)) es) = concat (map (\<lambda>e. skeleton (trail_line E b k e)) fs)"
  using assms(2)
proof (induction es arbitrary: fs)
  case (Cons e es)
  then obtain f gs where fs: "fs = f # gs" "entry_shape e = entry_shape f" "map entry_shape es = map entry_shape gs"
    by (cases fs) auto
  from skeleton_line [OF assms(1) fs(2)] Cons.IH [OF fs(3)] fs(1) show ?case by simp
qed simp

lemma skeleton_stats: "skeleton (grid_of 3 (case_stats E r ob)) = skeleton (grid_of 3 (case_stats E r' ob'))"
proof -
  obtain z where "skeleton (stat k v tone) = z" for k v tone using skeleton_stat by blast
  then show ?thesis by (simp add: case_stats_def grid_of_def skeleton_elem)
qed

lemma skeleton_body: "skeleton body = skeleton body' \<Longrightarrow> skeleton (elem n attrs body) = skeleton (elem n attrs body')"
  by (simp add: skeleton_elem)

lemma skeleton_case_page:
  assumes "plain_env E" and "trail_shape t = trail_shape u"
  shows "skeleton (case_page E css c t) = skeleton (case_page E css d u)"
proof (cases "tl_header t")
  case None
  moreover from this assms(2) have "tl_header u = None" by (simp add: trail_shape_def)
  ultimately show ?thesis
    using skeleton_head [of "''No case '' @ c" False] skeleton_head [of "''No case '' @ d" False]
    by (auto simp: case_page_def intro!: skeleton_page)
next
  case (Some h)
  moreover from this assms(2) obtain k where "tl_header u = Some k" by (cases "tl_header u") (auto simp: trail_shape_def)
  moreover have "length (tl_entries t) = length (tl_entries u)"
    using assms(2) by (auto simp: trail_shape_def dest: map_eq_imp_length_eq)
  moreover have "skeleton (concat (map (trail_line E (tl_origin t) (trail_lasts t)) (tl_entries t)))
      = skeleton (concat (map (trail_line E (tl_origin u) (trail_lasts u)) (tl_entries u)))"
    using skeleton_lines [OF assms(1)] assms(2) by (simp add: trail_shape_def comp_def)
  ultimately show ?thesis
    unfolding case_page_def section_of_def card_of_def
    by (cases h, cases k)
       (auto intro!: skeleton_page arg_cong2 [where f = append] skeleton_body
         simp only: option.case prod.case skeleton_append skeleton_stats skeleton_head [of c] skeleton_head [of d] skeleton_int_str)
qed

text \<open>Each entry is on the page, its detail escaped.\<close>

lemma within: "sublist z y \<Longrightarrow> sublist z (x @ y @ w)" "sublist z y \<Longrightarrow> sublist z (x @ y)" "sublist z y \<Longrightarrow> sublist z (y @ w)"
  by (meson sublist_appendI sublist_append_leftI sublist_append_rightI sublist_order.order.trans)+

lemma within_elem: "sublist z body \<Longrightarrow> sublist z (elem n attrs body)"
  unfolding elem_def by (rule within)

lemma within_parts:
  "sublist z inner \<Longrightarrow> sublist z (section_of label inner)"
  "sublist z inner \<Longrightarrow> sublist z (card_of title inner meta flush)"
  "sublist z inner \<Longrightarrow> sublist z (page css title active inner footer)"
  unfolding section_of_def card_of_def page_def by (rule within_elem within(2) | assumption)+

lemma within_concat: "x \<in> set xs \<Longrightarrow> sublist x (concat xs)"
  by (auto dest!: split_list)

lemma within_line:
  "sublist (elem ''td'' (cls ''d'') ((if truthy (te_surface e) then surfaceTag (dflt (te_surface e) []) @ '' '' else []) @ esc (te_detail e)))
     (trail_line E a l e)"
  unfolding trail_line_def by (intro within_elem within(2) sublist_order.order.refl)

lemma case_page_shows:
  assumes "tl_header t \<noteq> None" and "e \<in> set (tl_entries t)"
  shows "\<exists>tag. sublist (elem ''td'' (cls ''d'') (tag @ esc (te_detail e))) (case_page E css c t)"
proof -
  let ?lines = "concat (map (trail_line E (tl_origin t) (trail_lasts t)) (tl_entries t))"
  have "sublist (trail_line E (tl_origin t) (trail_lasts t) e) ?lines" using assms(2) by (auto intro!: within_concat)
  moreover obtain r ob where "tl_header t = Some (r, ob)" using assms(1) by auto
  then have "sublist ?lines (case_page E css c t)"
    unfolding case_page_def by (simp only: option.case prod.case) (intro within_parts within_elem within(2) sublist_order.order.refl)
  ultimately show ?thesis using within_line sublist_order.order.trans by blast
qed

end
