(* ===== verification/Console_Stream.thy ===== *)
theory Console_Stream
  imports Case_Replay Console_Text
begin

text \<open>
  \<open>packages/console/src/stream.ts\<close>: the live activity, a poll of the ledger behind a cursor. The id of a ledger row is its
  position, from 1. The middle dot and the arrows of the texts are ASCII. Shown here: whatever the polls read,
  the lines sent are those of the shown rows up to the cursor, once each and in order, and the cursor
  never moves past a block of rows that shows nothing.
\<close>

record StreamLine =
  sl_id :: nat
  sl_caseId :: string
  sl_kind :: string
  sl_text :: string

definition KINDS :: "(string \<times> string) list" where
  "KINDS = [(''plan_selected'', ''TIER0''), (''degraded_escalation'', ''TIER1''), (''claim_written'', ''CLAIM''),
     (''plan_optimized'', ''TIER1''), (''recovered'', ''VERIFY''), (''unrecoverable'', ''VERIFY''),
     (''partial_settlement'', ''VERIFY''), (''incident_opened'', ''INCIDENT''), (''cases_parked'', ''INCIDENT''),
     (''cases_released'', ''INCIDENT''), (''cases_reparked'', ''INCIDENT''), (''release_released'', ''INCIDENT''),
     (''release_reparked'', ''INCIDENT''), (''agent_run_failed'', ''BLOCK'')]"

text \<open>\<open>short\<close> of an object, and the values of a payload as the templates write them.\<close>

definition short_of :: "env \<Rightarrow> params \<Rightarrow> string" where
  "short_of E ps = take 90 (json_text E (jsonb (JObj ps)))"

fun js_truthy :: "json \<Rightarrow> bool" where
  "js_truthy JNull = False"
| "js_truthy (JBool b) = b"
| "js_truthy (JNum q) = (q \<noteq> 0)"
| "js_truthy (JStr x) = (x \<noteq> [])"
| "js_truthy _ = True"

definition field_or :: "string \<Rightarrow> json \<Rightarrow> params \<Rightarrow> json" where
  "field_or k v ps = (case map_of ps k of None \<Rightarrow> v | Some JNull \<Rightarrow> v | Some w \<Rightarrow> w)"

text \<open>\<open>Number(v)\<close>; \<open>None\<close> is \<open>NaN\<close>.\<close>

fun json_number :: "json \<Rightarrow> rat option" where
  "json_number (JNum q) = Some q"
| "json_number JNull = Some 0"
| "json_number (JBool b) = Some (if b then 1 else 0)"
| "json_number (JStr x) = map_option of_int (js_Number x)"
| "json_number _ = None"

text \<open>\<open>s.replace("agent:", "")\<close>: the first occurrence.\<close>

fun drop_first :: "string \<Rightarrow> string \<Rightarrow> string" where
  "drop_first p [] = []"
| "drop_first p (c # cs) = (if take (length p) (c # cs) = p then drop (length p) (c # cs) else c # drop_first p cs)"

definition line_text :: "env \<Rightarrow> ledger_row \<Rightarrow> string" where
  "line_text E l = (let p = lg_payload l; ty = lg_type l in
     if ty = ''plan_selected'' then ''rule '' @ string_of_field E ''ruleId'' p @ '' - '' @ string_of_field E ''cause'' p
     else if ty = ''plan_optimized''
       then ''selected '' @ js_String E (field_or ''selected'' (JStr ''none'') p) @ '' - resolved by '' @ string_of_field E ''resolvedBy'' p
     else if ty = ''claim_written''
       then drop_first ''agent:'' (lg_actor l) @ '' - ''
         @ (case map_of p ''usedProvider'' of
              Some v \<Rightarrow> if js_truthy v then string_of_field E ''provider'' p @ ''/'' @ string_of_field E ''model'' p else ''deterministic''
            | None \<Rightarrow> ''deterministic'')
     else if ty = ''degraded_escalation'' then ''degraded -> escalate - '' @ string_of_field E ''reason'' p
     else if ty = ''recovered''
       then ''RECOVERED '' @ (case json_number (field_or ''settled'' (JInt 0) p) of None \<Rightarrow> ''NaN'' | Some q \<Rightarrow> num_str E (fdiv E q 100))
         @ '' - matched by '' @ string_of_field E ''matchedBy'' p
     else if ty = ''incident_opened''
       then string_of_field E ''label'' p @ '' - z=''
         @ (case json_number (field_or ''z'' (JInt 0) p) of None \<Rightarrow> ''NaN'' | Some q \<Rightarrow> to_fixed E q 1)
         @ '' n='' @ string_of_field E ''n'' p @ '' -> OPEN''
     else if ty = ''cases_parked'' then string_of_field E ''parked'' p @ '' cases suspended''
     else short_of E p)"

definition line_of :: "env \<Rightarrow> nat \<times> ledger_row \<Rightarrow> StreamLine option" where
  "line_of E x = (case x of (i, l) \<Rightarrow>
     map_option (\<lambda>kind. \<lparr>sl_id = i, sl_caseId = lg_case l, sl_kind = kind, sl_text = line_text E l\<rparr>) (map_of KINDS (lg_type l)))"

text \<open>The rows after a cursor, and \<open>readSince\<close>.\<close>

definition rows_after :: "nat \<Rightarrow> db \<Rightarrow> (nat \<times> ledger_row) list" where
  "rows_after n s = filter (\<lambda>(i, _). n < i) (enumerate 1 (ledger s))"

definition readSince :: "env \<Rightarrow> nat \<Rightarrow> nat \<Rightarrow> StreamLine list dbm" where
  "readSince E afterId limit = readM (\<lambda>s. List.map_filter (line_of E) (take limit (rows_after afterId s)))"

text \<open>One poll of \<open>sse\<close>: the connection is its cursor and what was written to it.\<close>

record Stream =
  sm_cursor :: nat
  sm_sent :: "StreamLine list"

definition poll :: "env \<Rightarrow> db \<Rightarrow> Stream \<Rightarrow> Stream" where
  "poll E s c = (case fst (readSince E (sm_cursor c) 200 s) of
     Inl _ \<Rightarrow> c
   | Inr lines \<Rightarrow> fold (\<lambda>l c. c\<lparr>sm_cursor := sl_id l, sm_sent := sm_sent c @ [l]\<rparr>) lines c)"

definition sse :: "env \<Rightarrow> nat \<Rightarrow> db list \<Rightarrow> Stream" where
  "sse E startAfter ss = fold (poll E) ss \<lparr>sm_cursor = startAfter, sm_sent = []\<rparr>"

section \<open>The rows behind a cursor\<close>

lemma rows_after_drop: "rows_after n s = drop n (enumerate 1 (ledger s))"
proof -
  have "filter (\<lambda>(i, _). n < i) (enumerate k xs) = drop (Suc n - k) (enumerate k xs)" for k and xs :: "ledger_row list"
  proof (induction xs arbitrary: k)
    case (Cons x xs)
    show ?case
    proof (cases "n < k")
      case True
      then have "filter (\<lambda>(i, _). n < i) (enumerate (Suc k) xs) = enumerate (Suc k) xs"
        using Cons.IH [of "Suc k"] by simp
      with True show ?thesis by simp
    next
      case False
      with Cons.IH [of "Suc k"] show ?thesis by (simp add: Suc_diff_le)
    qed
  qed simp
  from this [of 1 "ledger s"] show ?thesis by (simp add: rows_after_def)
qed

text \<open>The lines of a ledger between two positions.\<close>

definition lines_between :: "env \<Rightarrow> nat \<Rightarrow> nat \<Rightarrow> db \<Rightarrow> StreamLine list" where
  "lines_between E a b s = List.map_filter (line_of E) (filter (\<lambda>(i, _). a < i \<and> i \<le> b) (enumerate 1 (ledger s)))"

lemma positions_between:
  "filter (\<lambda>(i, _). a < i \<and> i \<le> b) (enumerate 1 xs) = drop a (take b (enumerate 1 xs))" for xs :: "ledger_row list"
proof (induction xs rule: rev_induct)
  case (snoc x xs)
  then show ?case by (cases "b \<le> length xs"; cases "a \<le> length xs") (auto simp: enumerate_append_eq)
qed simp

lemma lines_between_drop: "lines_between E a b s = List.map_filter (line_of E) (drop a (take b (enumerate 1 (ledger s))))"
  by (simp only: lines_between_def positions_between)

lemma map_filter_append: "List.map_filter f (xs @ ys) = List.map_filter f xs @ List.map_filter f ys"
  by (induction xs) (simp_all add: List.map_filter_simps split: option.split)

lemma lines_between_join:
  assumes "a \<le> b" and "b \<le> c"
  shows "lines_between E a c s = lines_between E a b s @ lines_between E b c s"
proof -
  have "drop a (take c xs) = drop a (take b xs) @ drop b (take c xs)" for xs :: "(nat \<times> ledger_row) list"
  proof -
    have "take c xs = take b xs @ drop b (take c xs)"
      using assms(2) append_take_drop_id [of b "take c xs"] by (simp add: min_def)
    then have "drop a (take c xs) = drop a (take b xs) @ drop (a - min (length xs) b) (drop b (take c xs))"
      using drop_append [of a "take b xs" "drop b (take c xs)"] by (simp add: min.commute)
    with assms(1) show ?thesis by (cases "b \<le> length xs") (simp_all add: min_def)
  qed
  then show ?thesis by (simp only: lines_between_drop map_filter_append)
qed

lemma lines_between_later:
  assumes "ledger t = ledger s @ rest" and "b \<le> length (ledger s)"
  shows "lines_between E a b t = lines_between E a b s"
  using assms by (simp add: lines_between_drop enumerate_append_eq)

text \<open>The lines of a window end at its last shown row.\<close>

lemma map_filter_last:
  assumes "List.map_filter f xs \<noteq> []"
  shows "\<exists>u x v. xs = u @ x # v \<and> f x = Some (last (List.map_filter f xs)) \<and> List.map_filter f xs = List.map_filter f (u @ [x])"
  using assms
proof (induction xs rule: rev_induct)
  case (snoc x xs)
  show ?case
  proof (cases "f x")
    case None
    then have same: "List.map_filter f (xs @ [x]) = List.map_filter f xs"
      by (simp add: map_filter_append List.map_filter_simps)
    with snoc obtain u y v where "xs = u @ y # v" "f y = Some (last (List.map_filter f xs))"
        "List.map_filter f xs = List.map_filter f (u @ [y])"
      by metis
    with same show ?thesis by (intro exI [of _ u] exI [of _ y] exI [of _ "v @ [x]"]) simp
  next
    case (Some y)
    then show ?thesis
      by (intro exI [of _ xs] exI [of _ x] exI [of _ "[]"]) (simp add: map_filter_append List.map_filter_simps)
  qed
qed (simp add: List.map_filter_simps)

lemma fold_sent: "lines \<noteq> [] \<Longrightarrow> fold (\<lambda>l c. c\<lparr>sm_cursor := sl_id l, sm_sent := sm_sent c @ [l]\<rparr>) lines c
    = c\<lparr>sm_cursor := sl_id (last lines), sm_sent := sm_sent c @ lines\<rparr>"
  by (induction lines arbitrary: c) (auto simp: fold_Nil)

lemma poll_sends:
  "sm_cursor c \<le> sm_cursor (poll E s c) \<and> sm_sent (poll E s c) = sm_sent c @ lines_between E (sm_cursor c) (sm_cursor (poll E s c)) s
     \<and> sm_cursor (poll E s c) \<le> max (sm_cursor c) (length (ledger s))"
proof -
  let ?w = "take 200 (rows_after (sm_cursor c) s)"
  show ?thesis
  proof (cases "List.map_filter (line_of E) ?w = []")
    case True
    then have "poll E s c = c" by (simp add: poll_def readSince_def monad_simps)
    then show ?thesis by (simp add: lines_between_drop List.map_filter_simps)
  next
    case False
    then obtain u x v where w: "?w = u @ x # v" "line_of E x = Some (last (List.map_filter (line_of E) ?w))"
        "List.map_filter (line_of E) ?w = List.map_filter (line_of E) (u @ [x])"
      using map_filter_last by blast
    let ?n = "Suc (sm_cursor c + length u)"
    have len: "?n \<le> length (ledger s)" using arg_cong [OF w(1), of length] by (simp add: rows_after_drop)
    have "x = ?w ! length u" using w(1) by simp
    also have "\<dots> = (?n, ledger s ! (sm_cursor c + length u))"
      using arg_cong [OF w(1), of length] by (simp add: rows_after_drop nth_enumerate_eq)
    finally have "\<And>l. line_of E x = Some l \<Longrightarrow> sl_id l = ?n"
      by (auto simp: line_of_def)
    then have "sl_id (last (List.map_filter (line_of E) ?w)) = ?n"
      using w(2) by blast
    moreover have "u @ [x] = drop (sm_cursor c) (take ?n (enumerate 1 (ledger s)))"
    proof -
      have "Suc (length u) \<le> 200" using arg_cong [OF w(1), of length] by simp
      with arg_cong [OF w(1), of "take (Suc (length u))"] show ?thesis
        by (simp add: rows_after_drop drop_take min_def)
    qed
    ultimately show ?thesis
      using False len w(3) fold_sent [OF False, of c]
      by (simp add: poll_def readSince_def monad_simps lines_between_drop)
  qed
qed

lemma sse_sends:
  assumes "sorted_wrt (\<lambda>s t. \<exists>rest. ledger t = ledger s @ rest) ss" and "ss \<noteq> []"
  shows "a \<le> sm_cursor (sse E a ss) \<and> sm_sent (sse E a ss) = lines_between E a (sm_cursor (sse E a ss)) (last ss)
     \<and> sm_cursor (sse E a ss) \<le> max a (length (ledger (last ss)))"
  using assms
proof (induction ss rule: rev_induct)
  case (snoc s ss)
  let ?c = "sse E a ss"
  have step: "sse E a (ss @ [s]) = poll E s ?c" by (simp add: sse_def)
  show ?case
  proof (cases "ss = []")
    case True
    then show ?thesis using poll_sends [of ?c E s] by (simp add: step sse_def)
  next
    case False
    from snoc.prems False obtain rest where later: "ledger s = ledger (last ss) @ rest"
      by (auto simp: sorted_wrt_append dest: last_in_set)
    from snoc.IH snoc.prems(1) False have c: "a \<le> sm_cursor ?c" "sm_sent ?c = lines_between E a (sm_cursor ?c) (last ss)"
        "sm_cursor ?c \<le> max a (length (ledger (last ss)))"
      by (auto simp: sorted_wrt_append)
    have "sm_sent ?c = lines_between E a (sm_cursor ?c) s"
    proof (cases "sm_cursor ?c \<le> length (ledger (last ss))")
      case True
      from c(2) lines_between_later [OF later True, of E a] show ?thesis by simp
    next
      case False
      with c(1,3) have "sm_cursor ?c = a" by simp
      with c(2) show ?thesis by (simp add: lines_between_drop List.map_filter_simps)
    qed
    with poll_sends [of ?c E s] c(1) lines_between_join [of a "sm_cursor ?c" "sm_cursor (poll E s ?c)" E s]
    have "sm_sent (poll E s ?c) = lines_between E a (sm_cursor (poll E s ?c)) s" by simp
    moreover have "length (ledger (last ss)) \<le> length (ledger s)" by (simp add: later)
    ultimately show ?thesis
      using poll_sends [of ?c E s] c(1,3) unfolding step by (auto simp: le_max_iff_disj)
  qed
qed simp

section \<open>A block of rows that shows nothing\<close>

lemma poll_stalls:
  assumes "\<forall>x \<in> set (take 200 (rows_after (sm_cursor c) s)). line_of E x = None"
  shows "poll E s c = c"
proof -
  have "List.map_filter f xs = []" if "\<forall>x \<in> set xs. f x = None" for f :: "(nat \<times> ledger_row) \<Rightarrow> StreamLine option" and xs
    using that by (induction xs) (simp_all add: List.map_filter_simps)
  with assms show ?thesis by (simp add: poll_def readSince_def monad_simps)
qed

end
