(* ===== verification/Console.thy ===== *)
theory Console
  imports Console_Screens Console_Stream Simulation
begin

text \<open>
  What the console promises: the trail of a case holds every row of its nine sources and nothing else, a page shows it
  verbatim and cannot be broken by it, and the live stream sends each shown row of the ledger once.
\<close>

section \<open>The trail\<close>

text \<open>
  C38. The audit trail of a case is complete for its nine sources: in a reachable state it is found for every case, runs in the
  order of time, and has one entry for each event, piece of evidence, claim, agent run, policy decision, attempt and token
  of the case, each settlement of its obligation and each ledger row of the case that has one of the six types
  \<open>plan_selected\<close>, \<open>plan_optimized\<close>, \<open>degraded_escalation\<close>, \<open>recovered\<close>, \<open>unrecoverable\<close> and \<open>partial_settlement\<close>, and none
  besides (so scheduled actions, promises, memberships of incidents, revisions and other ledger rows have none). For a case
  that is RECOVERED there is the event of its end, and the settlements in the trail cover the amount.
\<close>

theorem trail_complete:
  assumes "reachable w s" and "x \<in> set (case_rows s)"
  shows "\<exists>ob es. caseTrail E (cs_id x) s =
       (Inr \<lparr>tl_header = Some (x, ob), tl_origin = cs_opened_at x, tl_entries = es\<rparr>, s)
     \<and> ob \<in> set (obligations s) \<and> ob_id ob = cs_obligation x \<and> sorted (map te_ts es)
     \<and> mset es =
         image_mset (event_entry E) (mset (filter (\<lambda>e. ev_caseId e = cs_id x) (case_events s)))
         + image_mset (evidence_entry E) (mset (filter (\<lambda>e. er_case e = cs_id x) (evidence s)))
         + image_mset (claim_entry E) (mset (filter (\<lambda>m. cm_case m = cs_id x) (claims s)))
         + image_mset run_entry (mset (filter (\<lambda>r. ar_case r = cs_id x) (agent_runs s)))
         + image_mset decision_entry (mset (filter (\<lambda>d. dr_case d = cs_id x) (policy_decisions s)))
         + image_mset (attempt_entry E) (mset (filter (\<lambda>a. at_case a = cs_id x) (action_attempts s)))
         + image_mset (token_entry E s) (mset (filter (\<lambda>k. ct_case k = cs_id x) (capability_tokens s)))
         + image_mset (settlement_entry E) (mset (filter (\<lambda>y. st_obligation y = Some (ob_id ob)) (settlements s)))
         + image_mset (ledger_entry E) (mset (filter (\<lambda>l. lg_case l = cs_id x \<and> lg_type l \<in> set TRAIL_TYPES) (ledger s)))
     \<and> (cs_state x = RECOVERED \<longrightarrow> (\<exists>e \<in> set es. te_kind e = ''TERMINAL_REACHED'')
          \<and> ob_amount ob \<le> sum_list (map st_amount (filter (\<lambda>y. st_obligation y = Some (ob_id ob)) (settlements s))))"
proof -
  have inv: "paid_inv s" using reachable_sys_inv [OF assms(1)] by (simp add: sys_inv_def)
  then have store: "store_inv s" "distinct (map cs_id (case_rows s))" "distinct (map ob_id (obligations s))"
    by (simp_all add: paid_inv_def case_inv_def store_inv_def obligation_keys_def)
  let ?es = "sort_key te_ts (trail_rows E (cs_id x) (cs_obligation x) s)"
  from caseTrail_of [OF store(2) reachable_obliged [OF assms(1)] assms(2), of E] obtain ob where
    ob: "caseTrail E (cs_id x) s = (Inr \<lparr>tl_header = Some (x, ob), tl_origin = cs_opened_at x, tl_entries = ?es\<rparr>, s)"
      "ob \<in> set (obligations s)" "ob_id ob = cs_obligation x" by blast
  have "mset (readAll (cs_id x) s) = mset (filter (\<lambda>e. ev_caseId e = cs_id x) (case_events s))"
    by (simp add: readAll_def)
  then have all: "mset ?es = mset (trail_rows E (cs_id x) (ob_id ob) s)" using ob(3) by simp
  have "\<exists>e \<in> set ?es. te_kind e = ''TERMINAL_REACHED''" if rec: "cs_state x = RECOVERED"
  proof -
    obtain e why where e: "e \<in> set (readAll (cs_id x) s)" "ev_event e = terminal_reached RECOVERED why"
      using recovered_says_so [OF store(1) assms(2) rec] by blast
    have "js_upper ''terminal_reached'' = ''TERMINAL_REACHED''" by code_simp
    then have "te_kind (event_entry E e) = ''TERMINAL_REACHED''" using e(2) by (simp add: event_entry_def entry_def)
    moreover have "event_entry E e \<in> set ?es" using e(1) by (simp add: trail_rows_def)
    ultimately show ?thesis by blast
  qed
  moreover have "ob_amount ob \<le> settled_total s (cs_obligation x)" if "cs_state x = RECOVERED"
    using inv assms(2) that ob(2,3) store(3) by (fastforce simp: paid_inv_def covered_def distinct_map inj_on_def)
  ultimately show ?thesis
    using ob all by (intro exI [of _ ob] exI [of _ ?es]) (simp add: trail_rows_def readAll_def settled_total_def ac_simps)
qed

theorem trail_complete_witness:
  "\<exists>x ob es. x \<in> set (case_rows sample_paid) \<and> cs_state x = RECOVERED
     \<and> caseTrail sample_env (cs_id x) sample_paid =
         (Inr \<lparr>tl_header = Some (x, ob), tl_origin = cs_opened_at x, tl_entries = es\<rparr>, sample_paid)
     \<and> sorted (map te_ts es) \<and> (\<exists>e \<in> set es. te_kind e = ''TERMINAL_REACHED'')
     \<and> ob_amount ob \<le> sum_list (map st_amount (filter (\<lambda>y. st_obligation y = Some (ob_id ob)) (settlements sample_paid)))"
proof -
  obtain x where "x \<in> set (case_rows sample_paid)" "cs_state x = RECOVERED" using sample_paid_rows by fastforce
  then show ?thesis using trail_complete [OF sample_paid_reachable, of x sample_env] by blast
qed

section \<open>The page of a case\<close>

text \<open>
  C39. What a page shows of a case is verbatim and harmless: the markup of the page is the same for any two cases and
  trails of the same shape, whatever the texts in their rows, and every entry of the trail stands in
  a cell of its own, escaped so that a browser reads back exactly its text.
\<close>

theorem page_shows_verbatim:
  assumes "plain_env E" and "trail_shape t = trail_shape u"
  shows "skeleton (case_page E css c t) = skeleton (case_page E css d u)
     \<and> (\<forall>e. tl_header t \<noteq> None \<and> e \<in> set (tl_entries t) \<longrightarrow>
          (\<exists>tag text. sublist (elem ''td'' (cls ''d'') (tag @ text)) (case_page E css c t)
             \<and> skeleton text = [] \<and> unesc text = te_detail e))"
proof -
  have "\<exists>tag text. sublist (elem ''td'' (cls ''d'') (tag @ text)) (case_page E css c t)
      \<and> skeleton text = [] \<and> unesc text = te_detail e" if "tl_header t \<noteq> None" "e \<in> set (tl_entries t)" for e
    using case_page_shows [OF that, of E css c] unesc_esc [of "te_detail e"] skeleton_esc [of "te_detail e"] by metis
  then show ?thesis using skeleton_case_page [OF assms] by blast
qed

definition sample_trail :: "string \<Rightarrow> Trail" where
  "sample_trail d = \<lparr>tl_header = Some (hd (case_rows sample_open), hd (obligations sample_open)), tl_origin = 0,
     tl_entries = [entry 5 ''EVIDENCE'' d]\<rparr>"

definition script :: string where
  "script = ''</td><script src='' @ dquoted ''//x'' @ ''>''"

theorem page_shows_verbatim_witness:
  "skeleton (case_page sample_env [] ''c1'' (sample_trail script)) = skeleton (case_page sample_env [] ''c1'' (sample_trail ''paid''))
     \<and> (\<exists>tag text. sublist (elem ''td'' (cls ''d'') (tag @ text)) (case_page sample_env [] ''c1'' (sample_trail script))
             \<and> skeleton text = [] \<and> unesc text = script)"
proof -
  have "plain_env sample_env" by (simp add: plain_env_def sample_env_def env0_def)
  moreover have "trail_shape (sample_trail script) = trail_shape (sample_trail ''paid'')"
    by (simp add: trail_shape_def sample_trail_def entry_shape_def entry_def)
  ultimately show ?thesis
    using page_shows_verbatim [of sample_env "sample_trail script" "sample_trail ''paid''" "[]" "''c1''" "''c1''"]
    by (simp add: sample_trail_def entry_def)
qed

section \<open>The live stream\<close>

text \<open>
  C40. The live stream sends each shown row once: however often the ledger is polled while it grows, the lines sent so far are
  those of the rows of a shown type between the start and the cursor, each once and in order, and the cursor
  is at a row of the ledger; and a poll that finds no row of a shown type among the next 200 sends nothing
  and leaves the cursor where it was.
\<close>

theorem stream_sends_once:
  assumes "sorted_wrt (\<lambda>s t. \<exists>rest. ledger t = ledger s @ rest) ss" and "ss \<noteq> []"
  shows "sm_sent (sse E a ss) =
       List.map_filter (line_of E) (filter (\<lambda>(i, _). a < i \<and> i \<le> sm_cursor (sse E a ss)) (enumerate 1 (ledger (last ss))))
     \<and> a \<le> sm_cursor (sse E a ss) \<and> sm_cursor (sse E a ss) \<le> max a (length (ledger (last ss)))
     \<and> (\<forall>s. (\<forall>x \<in> set (take 200 (rows_after (sm_cursor (sse E a ss)) s)). map_of KINDS (lg_type (snd x)) = None)
          \<longrightarrow> sse E a (ss @ [s]) = sse E a ss)"
proof -
  have "line_of E x = None" if "map_of KINDS (lg_type (snd x)) = None" for x
    using that by (cases x) (simp add: line_of_def)
  then have "sse E a (ss @ [s]) = sse E a ss"
    if "\<forall>x \<in> set (take 200 (rows_after (sm_cursor (sse E a ss)) s)). map_of KINDS (lg_type (snd x)) = None" for s
    using poll_stalls [of "sse E a ss" s E] that by (simp add: sse_def)
  then show ?thesis using sse_sends [OF assms, of a E] unfolding lines_between_def by blast
qed

text \<open>A ledger that grows: three rows, the second of a type that is not shown, and then one more.\<close>

definition sample_rows :: "string list \<Rightarrow> db" where
  "sample_rows tys = empty_db\<lparr>ledger := map (\<lambda>ty. \<lparr>lg_case = ''c1'', lg_ts = 0, lg_actor = ''runner'', lg_type = ty,
     lg_payload = [], lg_policy = None\<rparr>) tys\<rparr>"

definition sample_polls :: "db list" where
  "sample_polls = [sample_rows [''cases_parked'', ''approval_pending'', ''recovered''],
     sample_rows [''cases_parked'', ''approval_pending'', ''recovered'', ''unrecoverable'']]"

theorem stream_sends_once_witness:
  "map (\<lambda>l. (sl_id l, sl_kind l)) (sm_sent (sse sample_env 0 sample_polls)) = [(1, ''INCIDENT''), (3, ''VERIFY''), (4, ''VERIFY'')]
     \<and> sm_cursor (sse sample_env 0 sample_polls) \<le> 4"
proof -
  have "map (\<lambda>l. (sl_id l, sl_kind l)) (sm_sent (sse sample_env 0 sample_polls)) = [(1, ''INCIDENT''), (3, ''VERIFY''), (4, ''VERIFY'')]"
    by code_simp
  moreover have "sorted_wrt (\<lambda>s t. \<exists>rest. ledger t = ledger s @ rest) sample_polls" "sample_polls \<noteq> []"
    by (simp_all add: sample_polls_def sample_rows_def)
  moreover have "length (ledger (last sample_polls)) = 4" by (simp add: sample_polls_def sample_rows_def)
  ultimately show ?thesis using stream_sends_once [of sample_polls sample_env 0] by (simp only: max_0L) blast
qed

end
