(* ===== verification/Console_Run.thy ===== *)
theory Console_Run
  imports Console_Queries
begin

text \<open>
  The screens that show a run: \<open>packages/console/src/screens/batch.ts\<close> and \<open>attribution.ts\<close>, and the routes of
  \<open>server.ts\<close>. The row of \<open>attribution_runs\<close> the screens read is an argument (that table is not one of the model's; the row
  the runner writes is \<open>persisted\<close>); the other figures are queries. The signs of the equation are written in ASCII.
  Shown here: each case is counted in one tier, and every request gets one answer.
\<close>

record BatchRow =
  bw_batch_id :: string
  bw_arm :: string
  bw_treated_n :: nat
  bw_holdout_n :: nat
  bw_treated_recovered :: nat
  bw_holdout_recovered :: nat
  bw_treated_rate :: rat
  bw_holdout_rate :: rat
  bw_lift :: rat
  bw_lift_ci :: "rat \<times> rat"
  bw_gross_recovered_paise :: int
  bw_incremental_paise :: int
  bw_incremental_ci :: "int \<times> int"
  bw_excluded_treated :: nat
  bw_excluded_holdout :: nat
  bw_window_days :: int
  bw_provider_calls :: nat

text \<open>The row \<open>persist\<close> writes for the report of a batch; a rate is a REAL column, which rounds to single precision.\<close>

definition persisted :: "(rat \<Rightarrow> rat) \<Rightarrow> int \<Rightarrow> BatchReport \<Rightarrow> BatchRow" where
  "persisted real4 windowDays r = (let a = br_attribution r in
     \<lparr>bw_batch_id = br_batchId r, bw_arm = br_arm r, bw_treated_n = at_treatedN a, bw_holdout_n = at_holdoutN a,
      bw_treated_recovered = at_treatedRecovered a, bw_holdout_recovered = at_holdoutRecovered a,
      bw_treated_rate = real4 (at_treatedRate a), bw_holdout_rate = real4 (at_holdoutRate a), bw_lift = real4 (at_lift a),
      bw_lift_ci = (real4 (fst (at_liftCi a)), real4 (snd (at_liftCi a))),
      bw_gross_recovered_paise = at_grossRecoveredPaise a, bw_incremental_paise = at_incrementalPaise a,
      bw_incremental_ci = at_incrementalCi a, bw_excluded_treated = at_excludedTreated a, bw_excluded_holdout = at_excludedHoldout a,
      bw_window_days = windowDays, bw_provider_calls = bs_providerCalls (br_stats r)\<rparr>)"

abbreviation nat_text :: "nat \<Rightarrow> string" where
  "nat_text n \<equiv> int_str (int n)"

abbreviation money :: "env \<Rightarrow> int \<Rightarrow> string" where
  "money E n \<equiv> rupees E (Some (of_int n))"

definition ratio :: "env \<Rightarrow> nat \<Rightarrow> nat \<Rightarrow> rat" where
  "ratio E n d = fdiv E (of_nat n) (of_nat (if d = 0 then 1 else d))"

definition arms_rows :: "env \<Rightarrow> BatchRow \<Rightarrow> string list list" where
  "arms_rows E b =
     [[''Treated'', nat_text (bw_treated_n b), nat_text (bw_treated_recovered b), pct E (Some (bw_treated_rate b)), bar_of E (bw_treated_rate b) False],
      [''Held back'', nat_text (bw_holdout_n b), nat_text (bw_holdout_recovered b), pct E (Some (bw_holdout_rate b)), bar_of E (bw_holdout_rate b) True]]"

section \<open>The overview\<close>

definition headline :: "env \<Rightarrow> BatchRow \<Rightarrow> string" where
  "headline E b = grid_of 4
     [stat ''Recovered by the agent'' (money E (bw_incremental_paise b)) hero,
      stat ''95% interval'' (money E (fst (bw_incremental_ci b)) @ '' - '' @ money E (snd (bw_incremental_ci b))) normal_tone,
      stat ''Collected in total'' (money E (bw_gross_recovered_paise b)) quiet,
      stat ''Lift over holdout'' (pct E (Some (bw_lift b))) normal_tone]"

definition arms_card :: "env \<Rightarrow> BatchRow \<Rightarrow> string" where
  "arms_card E b = (let n = bw_excluded_treated b + bw_excluded_holdout b in
     card_of ''Treated against held back'' (table_of [''arm'', ''cases'', ''recovered'', ''rate'', []] (arms_rows E b) [1, 2, 3])
       (if n = 0 then [] else nat_text n @ '' excluded'') True)"

definition tiers_card :: "env \<Rightarrow> (nat \<times> nat) list \<Rightarrow> string" where
  "tiers_card E tiers = (let all = sum_list (map snd tiers) in
     card_of ''Who decided'' (table_of [[], ''how'', ''cases'', []]
       (map (\<lambda>(t, n). [elem ''span'' (cls ''chip'') (''Tier '' @ nat_text t),
          (if t = 0 then ''Taxonomy and playbook'' else if t = 1 then ''Specialists'' else ''A person''),
          nat_text n, bar_of E (ratio E n all) (t \<noteq> 0)]) tiers) [2]) [] True)"

definition outcomes_card :: "env \<Rightarrow> (CaseState \<times> nat \<times> int) list \<Rightarrow> string" where
  "outcomes_card E ends = (let all = sum_list (map (\<lambda>(_, n, _). n) ends) in
     card_of ''How cases ended'' (table_of [''outcome'', ''cases'', ''value'', []]
       (map (\<lambda>(st, n, v). [elem ''span'' (cls (''state state-'' @ state_str st)) (js_lower (spaced (state_str st))),
          nat_text n, money E v, bar_of E (ratio E n all) (st \<noteq> RECOVERED)]) ends) [1, 2]) [] True)"

definition refused_card :: "BlockRow list \<Rightarrow> string" where
  "refused_card blocks =
     (if blocks = [] then []
      else card_of ''Actions the policy refused'' (table_of [''rule'', ''because'', ''count'']
        (map (\<lambda>p. [elem ''span'' (cls ''chip'') (RULES (bk_ruleId p)), bk_reason p, nat_text (bk_n p)]) blocks) [2])
        (nat_text (sum_list (map bk_n blocks)) @ '' refusals'') True)"

definition batch_page :: "env \<Rightarrow> string \<Rightarrow> BatchRow \<Rightarrow> (nat \<times> nat) list \<Rightarrow> (CaseState \<times> nat \<times> int) list \<Rightarrow> BlockRow list \<Rightarrow> nat \<Rightarrow> string" where
  "batch_page E css b tiers ends decisions incs = page css ''Overview'' ''/''
     (pageHead ''Recovery run'' False
      @ headline E b
      @ section_of ''The measurement'' (elem ''div'' (cls ''grid c2'') (arms_card E b @ tiers_card E tiers))
      @ section_of ''Outcomes'' (elem ''div'' (cls ''grid c2'') (outcomes_card E ends @ refused_card (filter (\<lambda>p. bk_outcome p = block) decisions)))
      @ section_of ''Run at a glance'' (grid_of 4
          [stat ''Obligations worked'' (nat_text (bw_treated_n b + bw_holdout_n b)) normal_tone,
           stat ''Held back'' (nat_text (bw_holdout_n b)) normal_tone,
           stat ''Incidents'' (nat_text incs) normal_tone,
           stat ''Provider calls'' (nat_text (bw_provider_calls b)) normal_tone]))
     (''Batch '' @ elem ''span'' (cls ''mono'') (bw_batch_id b) @ open_tag ''br'' [] @ ''arm '' @ bw_arm b)"

definition batchScreen :: "env \<Rightarrow> string \<Rightarrow> BatchRow option \<Rightarrow> string dbm" where
  "batchScreen E css latest =
     (case latest of
        None \<Rightarrow> retM (page css ''Overview'' ''/'' (pageHead ''No run yet'' False
          @ elem ''p'' (cls ''note'') (''Run '' @ elem ''code'' [] ''npm run batch scenarios/demo.yaml'' @ '', then reload.'')) [])
      | Some b \<Rightarrow>
          bindM tierCounts (\<lambda>tiers. bindM terminalStates (\<lambda>ends. bindM (policyBlocks E) (\<lambda>decisions.
          bindM (readM (\<lambda>s. length (incidents s))) (\<lambda>incs. retM (batch_page E css b tiers ends decisions incs))))))"

section \<open>The attribution\<close>

definition mean_recovered :: "env \<Rightarrow> BatchRow \<Rightarrow> rat" where
  "mean_recovered E b =
     (if bw_treated_n b \<noteq> 0 \<and> bw_lift b \<noteq> 0
      then fdiv E (of_int (bw_incremental_paise b)) (fmul E (bw_lift b) (of_nat (bw_treated_n b))) else 0)"

definition equation :: "env \<Rightarrow> BatchRow \<Rightarrow> string" where
  "equation E b = elem ''pre'' [] (join [CHR 0x0A]
     [''  recovered by the agent'', [],
      ''    =  ( treated rate   -   held-back rate )  x  treated  x  mean value'', [],
      ''    =  (   '' @ pct E (Some (bw_treated_rate b)) @ ''      -      '' @ pct E (Some (bw_holdout_rate b)) @ ''     )  x   ''
        @ nat_text (bw_treated_n b) @ ''   x  '' @ rupees E (Some (mean_recovered E b)), [],
      ''    =  '' @ money E (bw_incremental_paise b), [],
      ''       95% interval   '' @ money E (fst (bw_incremental_ci b)) @ ''  -  '' @ money E (snd (bw_incremental_ci b))])"

definition excluded_part :: "BatchRow \<Rightarrow> string" where
  "excluded_part b =
     (if bw_excluded_treated b + bw_excluded_holdout b = 0 then []
      else section_of ''Excluded as natural recovery'' (card_of [] (table_of [''arm'', ''cases dropped'']
        [[''Treated'', nat_text (bw_excluded_treated b)], [''Held back'', nat_text (bw_excluded_holdout b)]] [1]) [] True))"

definition attributionScreen :: "env \<Rightarrow> string \<Rightarrow> BatchRow option \<Rightarrow> string" where
  "attributionScreen E css latest =
     (case latest of
        None \<Rightarrow> page css ''Attribution'' ''/attribution'' (pageHead ''No run yet'' False) []
      | Some b \<Rightarrow> page css ''Attribution'' ''/attribution''
          (pageHead ''How the number is arrived at'' False
           @ grid_of 4
              [stat ''Recovered by the agent'' (money E (bw_incremental_paise b)) hero,
               stat ''95% interval'' (money E (fst (bw_incremental_ci b)) @ '' - '' @ money E (snd (bw_incremental_ci b))) normal_tone,
               stat ''Collected in total'' (money E (bw_gross_recovered_paise b)) quiet,
               stat ''Held back'' (nat_text (bw_holdout_n b)) normal_tone]
           @ section_of ''The estimator'' (term_of ''incremental recovery'' (equation E b))
           @ section_of ''The two arms'' (card_of [] (table_of [''arm'', ''cases'', ''recovered'', ''rate'', []] (arms_rows E b) [1, 2, 3]) [] True)
           @ excluded_part b) [])"

section \<open>The counts add up\<close>

text \<open>Each case is counted once in the tiers, and once in the outcomes when it has its obligation.\<close>

lemma mset_groups: "mset (concat (map snd (groups_by key rows))) = mset rows"
proof -
  have "mset (concat (map (\<lambda>k. filter (\<lambda>r. key r = k) rows) ks)) = mset (filter (\<lambda>r. key r \<in> set ks) rows)"
    if "distinct ks" for ks
    using that
  proof (induction ks)
    case (Cons k ks)
    have "mset (filter (\<lambda>r. key r = k \<or> key r \<in> set ks) rows) = mset (filter (\<lambda>r. key r = k) rows) + mset (filter (\<lambda>r. key r \<in> set ks) rows)"
      using Cons.prems by (induction rows) auto
    with Cons show ?case by simp
  qed simp
  from this [of "rev (remdups (rev (map key rows)))"] show ?thesis
    by (simp add: groups_by_def comp_def)
qed

lemma sum_counts: "sum_list (map length xss) = length (concat xss)"
  by (induction xss) simp_all

lemma tierCounts_total: "tierCounts s = (Inr ts, s) \<Longrightarrow> sum_list (map snd ts) = length (case_rows s)"
proof -
  assume "tierCounts s = (Inr ts, s)"
  then have "mset (map snd ts) = mset (map (length \<circ> snd) (groups_by cs_tier (case_rows s)))"
    by (auto simp: tierCounts_def monad_simps comp_def case_prod_unfold image_mset.compositionality)
  then have "sum_list (map snd ts) = sum_list (map length (map snd (groups_by cs_tier (case_rows s))))"
    by (metis list.map_comp sum_mset_sum_list)
  then show ?thesis
    using arg_cong [OF mset_groups [of cs_tier "case_rows s"], of size] by (simp add: sum_counts del: map_map)
qed

section \<open>The server\<close>

text \<open>
  The routes of \<open>server.ts\<close>. A request is its method, the path of its URL and its query parameters; the webhook route and the
  stream are handed over, every other path is answered with a page. The screens and \<open>decodeURIComponent\<close>, which
  may fail, are arguments, as is the text of a stack trace.
\<close>

record screens =
  sn_overview :: "string dbm"
  sn_cases :: "string option \<Rightarrow> string dbm"
  sn_case :: "string \<Rightarrow> string dbm"
  sn_incidents :: "string dbm"
  sn_policy :: "string dbm"
  sn_attribution :: "string dbm"
  sn_metrics :: "string dbm"
  sn_ablation :: "string dbm"
  sn_stream :: string

datatype answer = post_only | to_webhook | to_events "int option" | html nat string

definition screen_of :: "(string \<Rightarrow> err + string) \<Rightarrow> screens \<Rightarrow> string \<Rightarrow> string option \<Rightarrow> string dbm option" where
  "screen_of decode sc path state =
     (if path = ''/'' then Some (sn_overview sc)
      else if path = ''/cases'' then Some (sn_cases sc state)
      else if take 6 path = ''/case/'' then Some (bindM (liftE (decode (drop 6 path))) (sn_case sc))
      else if path = ''/incidents'' then Some (sn_incidents sc)
      else if path = ''/policy'' then Some (sn_policy sc)
      else if path = ''/attribution'' then Some (sn_attribution sc)
      else if path = ''/metrics'' then Some (sn_metrics sc)
      else if path = ''/ablation'' then Some (sn_ablation sc)
      else if path = ''/stream'' then Some (retM (sn_stream sc))
      else None)"

definition serve :: "(string \<Rightarrow> err + string) \<Rightarrow> (err \<Rightarrow> string) \<Rightarrow> string \<Rightarrow> screens \<Rightarrow> string \<Rightarrow> string \<Rightarrow> (string \<rightharpoonup> string) \<Rightarrow> db \<Rightarrow> answer" where
  "serve decode stack css sc verb path params s =
     (if path = ''/webhook'' then (if verb = ''POST'' then to_webhook else post_only)
      else if path = ''/events'' then to_events (case params ''after'' of None \<Rightarrow> Some 0 | Some x \<Rightarrow> js_Number x)
      else (case screen_of decode sc path (params ''state'') of
              None \<Rightarrow> html 404 (page css ''not found'' [] (pageHead ''No such screen'' False) [])
            | Some m \<Rightarrow> (case fst (m s) of
                Inr text \<Rightarrow> html 200 text
              | Inl e \<Rightarrow> html 500 (page css ''error'' []
                  (pageHead ''Something broke'' False @ term_of ''stack trace'' (elem ''pre'' [] (stack e))) []))))"

text \<open>A page is answered with 404 exactly when no screen has its path, and the navigation only leads to screens.\<close>

lemma serve_unknown:
  assumes "path \<noteq> ''/webhook''" and "path \<noteq> ''/events''"
  shows "(\<exists>text. serve decode stack css sc verb path params s = html 404 text) \<longleftrightarrow> screen_of decode sc path (params ''state'') = None"
  using assms by (auto simp: serve_def split: option.split sum.split)

lemma nav_is_served:
  assumes "(g, items) \<in> set NAV" and "(href, label) \<in> set items"
  shows "screen_of decode sc href state \<noteq> None"
  using assms by (auto simp: NAV_def screen_of_def)

end
