(* ===== verification/Batch_Report.thy ===== *)
theory Batch_Report
  imports Batch Console_Text
begin

text \<open>
  \<open>packages/sim/src/report.ts\<close>: the report of a batch and the comparison of its two arms, as text. The characters of the
  frame are \<open>|\<close>, \<open>-\<close> and \<open>+\<close>, the rupee sign is \<open>R\<close> and the dashes are \<open>-\<close>, one for one, so that widths are kept.
  Shown here: the comparison attributes a difference to deliberation only when it is outside the noise band.
\<close>

definition report_rupees :: "env \<Rightarrow> int \<Rightarrow> string" where
  "report_rupees E paise = (let r = fdiv E (of_int paise) 100 in
     if r \<ge> 10000000 then ''R '' @ to_fixed E (fdiv E r 10000000) 2 @ '' Cr''
     else if r \<ge> 100000 then ''R '' @ to_fixed E (fdiv E r 100000) 2 @ '' L''
     else ''R '' @ locale_in r)"

definition report_pct :: "env \<Rightarrow> rat \<Rightarrow> string" where
  "report_pct E x = to_fixed E (fmul E x 100) 1 @ ''%''"

definition pad_end :: "string \<Rightarrow> nat \<Rightarrow> string" where
  "pad_end s n = s @ replicate (n - length s) (CHR '' '')"

definition pad_start :: "string \<Rightarrow> nat \<Rightarrow> string" where
  "pad_start s n = replicate (n - length s) (CHR '' '') @ s"

definition framed :: "string \<Rightarrow> string" where
  "framed s = ''| '' @ pad_end s 68 @ '' |''"

definition ruled :: string where
  "ruled = ''+'' @ replicate 70 (CHR ''-'') @ ''+''"

abbreviation count_str :: "nat \<Rightarrow> string" where
  "count_str n \<equiv> int_str (int n)"

definition tier_lines :: "BatchStats \<Rightarrow> (string \<times> nat) list" where
  "tier_lines b = [(''T0 resolved'', bs_tier0 b), (''T1 escalated'', bs_tier1 b), (''provider calls'', bs_providerCalls b),
     (''degraded escal.'', bs_degraded b), (''incidents opened'', bs_incidentsOpened b), (''cases parked'', bs_casesParked b),
     (''optimizer ranks'', bs_optimized b), (''playbook swaps'', bs_playbookSubstituted b),
     (''replies handled'', bs_repliesInterpreted b), (''quiet-hr deferrals'', bs_rescheduledPastQuietHours b),
     (''dup attempts blocked'', bs_duplicatesSuppressed b), (''promises resumed'', bs_promisesBroken b),
     (''mandate sequences'', bs_mandateSequenced b), (''actions executed'', bs_executed b)]"

definition nth_opt :: "'a list \<Rightarrow> nat \<Rightarrow> 'a option" where
  "nth_opt xs i = (if i < length xs then Some (xs ! i) else None)"

definition count_line :: "(string \<times> nat) option \<Rightarrow> (string \<times> nat) option \<Rightarrow> string" where
  "count_line t s =
     (let left = (case t of Some (k, n) \<Rightarrow> ''  -- '' @ pad_end k 16 @ '' '' @ pad_start (count_str n) 5
                  | None \<Rightarrow> replicate 26 (CHR '' ''));
          right = (case s of Some (k, n) \<Rightarrow> ''  '' @ pad_end k 22 @ '' '' @ pad_start (count_str n) 5 | None \<Rightarrow> [])
      in framed (pad_end left 28 @ ''|'' @ right))"

text \<open>The rules that blocked something, in the order of their ids.\<close>

definition blocks_of :: "BatchReport \<Rightarrow> (string \<times> nat) list" where
  "blocks_of r = map (\<lambda>k. (RULES k, br_policyBlocks r k)) (filter (\<lambda>k. 0 < br_policyBlocks r k)
     [ACTION_NOT_ALLOWED_ON_RAIL, RETRY_CAP, QUIET_HOURS, CONTACT_BUDGET, AMOUNT_APPROVAL, OPTED_OUT_RULE, ALLOWED])"

definition renderReport :: "env \<Rightarrow> BatchReport \<Rightarrow> string list" where
  "renderReport E r =
     (let a = br_attribution r; b = br_stats r; rs = report_rupees E; pc = report_pct E;
          terminals = sort_key (\<lambda>x. - int (snd x)) (br_terminalStates r); tiers = tier_lines b
      in [''+- RUN '' @ br_batchId r @ '' '' @ replicate (68 - 6 - length (br_batchId r) - 9) (CHR ''-'') @ '' COMPLETE -+'',
       framed [],
       framed (''  '' @ pad_start (rs (at_grossRecoveredPaise a)) 14 @ ''  '' @ pad_start (rs (at_incrementalPaise a)) 14
         @ ''  '' @ pad_start (rs (br_trueIncrementalPaise r)) 14 @ ''  '' @ pad_start (pc (br_estimationError r)) 7),
       framed (''  '' @ pad_end ''GROSS'' 14 @ ''  '' @ pad_end ''EST. INCREMENTAL'' 14 @ ''  '' @ pad_end ''TRUE (SIM)'' 14
         @ ''  '' @ pad_end ''ERROR'' 7),
       framed (''  '' @ pad_end [] 14 @ ''  ''
         @ pad_end (''95% CI '' @ rs (fst (at_incrementalCi a)) @ ''-'' @ rs (snd (at_incrementalCi a))) 32),
       framed [],
       framed (''  interval contains ground truth: '' @ (if br_intervalContainsTruth r then ''YES'' else ''NO'')),
       framed (''  value-band stratified (diagnostic): '' @ rs (at_incrementalStratifiedPaise a)),
       framed [],
       framed (''  treated '' @ pad_start (count_str (at_treatedN a)) 5 @ ''   rate '' @ pc (at_treatedRate a)
         @ ''   recovered '' @ count_str (at_treatedRecovered a)),
       framed (''  holdout '' @ pad_start (count_str (at_holdoutN a)) 5 @ ''   rate '' @ pc (at_holdoutRate a)
         @ ''   recovered '' @ count_str (at_holdoutRecovered a)),
       framed (''  lift    '' @ pc (at_lift a) @ ''   95% CI '' @ pc (fst (at_liftCi a)) @ '' - '' @ pc (snd (at_liftCi a))),
       framed (''  excluded (natural recovery, both arms): treated '' @ count_str (at_excludedTreated a)
         @ '', holdout '' @ count_str (at_excludedHoldout a)),
       ruled,
       framed ''  TIER            cases    |  TERMINAL STATE          cases'']
      @ map (\<lambda>i. count_line (nth_opt tiers i) (nth_opt terminals i)) [0..<max (length tiers) (length terminals)]
      @ (if bs_stepErrors b > 0
         then [ruled, framed (''  step errors: '' @ count_str (bs_stepErrors b))] @ map (\<lambda>e. framed (''    '' @ take 62 e)) (bs_errorSamples b)
         else [])
      @ (if blocks_of r \<noteq> []
         then ruled # map (\<lambda>(k, n). framed (''  policy '' @ k @ '' blocked '' @ count_str n @ '' action(s)'')) (blocks_of r)
         else [])
      @ [ruled])"

section \<open>The comparison of the arms\<close>

text \<open>How far the total can move on noise alone, given how few cases the arms differ on.\<close>

definition noise_band :: "env \<Rightarrow> BatchReport \<Rightarrow> int" where
  "noise_band E full = js_round (fmul E (fmul E (fmul E (fl E (196/100)) (js_sqrt E (of_nat (bs_tier1 (br_stats full)))))
     (of_int (at_meanValueAtRiskPaise (br_attribution full)))) (1/2))"

definition arm_line :: "env \<Rightarrow> string \<Rightarrow> BatchReport \<Rightarrow> string" where
  "arm_line E name r = name @ ''incremental '' @ report_rupees E (at_incrementalPaise (br_attribution r))
     @ ''   lift '' @ report_pct E (at_lift (br_attribution r)) @ ''   provider calls '' @ count_str (bs_providerCalls (br_stats r))"

definition unreadable_lines :: "nat \<Rightarrow> string list" where
  "unreadable_lines n =
     [''  NOT DISTINGUISHABLE FROM ZERO.'', [],
      ''  The arms differ on '' @ count_str n @ '' cases, and a batch total cannot resolve a'',
      ''  difference that small. This is the honest reading, and it is the reading'',
      ''  to give: deliberation did not measurably move the batch.'', [],
      ''  The defensible claim is per-case, not aggregate - which cases the model'',
      ''  diagnosed, what it concluded, and what the control did instead. Run'',
      ''  `npm run ablation:cases` for that comparison.'']"

definition CAVEAT :: "string list" where
  "CAVEAT = [[], ''  The control uses a generic per-rail playbook rather than stopping, so the'',
     ''  delta measures deliberation and not the degraded-mode safety rule.'', [],
     ''  Read it for what it is: deliberation against a generic default, not against'',
     ''  a hand-written rule set over the same retrieved context. A determined'',
     ''  engineer could encode some of this judgement in rules; what the model buys'',
     ''  is not having to anticipate every code an issuer might invent.'']"

definition attributed_line :: "env \<Rightarrow> int \<Rightarrow> string" where
  "attributed_line E delta = ''  attributable to deliberation: '' @ report_rupees E delta @ '', outside the noise band.''"

definition renderAblation :: "env \<Rightarrow> BatchReport \<Rightarrow> BatchReport \<Rightarrow> string list" where
  "renderAblation E full control =
     (if bs_providerCalls (br_stats full) = 0
      then [''ABLATION - NOT MEANINGFUL: no provider was configured.'', [],
        ''  The full arm made '' @ count_str (bs_providerCalls (br_stats full)) @ '' provider calls, so its Tier 1 cases ran in'',
        ''  degraded mode and escalated ('' @ count_str (bs_degraded (br_stats full)) @ '' cases) instead of being'',
        ''  diagnosed. Comparing that against the Tier 0 control measures the'',
        ''  degraded-mode safety rule, not deliberation.'', [],
        ''  Set OPENAI_API_KEY and re-run to measure the model's contribution.'']
      else
        (let delta = at_incrementalPaise (br_attribution full) - at_incrementalPaise (br_attribution control);
             differing = bs_tier1 (br_stats full);
             share = fdiv E (of_nat differing) (of_nat (br_cases full));
             band = noise_band E full
         in [''ABLATION - same seed, same world, deliberation on vs off'',
              arm_line E ''  full runtime      '' full, arm_line E ''  tier-0 control    '' control, [],
              ''  difference        '' @ report_rupees E delta @ ''   over '' @ count_str differing @ '' cases ('' @ report_pct E share @ '' of the batch)'',
              ''  noise band        +/- '' @ report_rupees E band, []]
            @ (if \<bar>delta\<bar> > band then [attributed_line E delta] else unreadable_lines differing)
            @ CAVEAT))"

lemma ablation_needs_readable:
  assumes "attributed_line E d \<in> set (renderAblation E full control)"
  shows "bs_providerCalls (br_stats full) \<noteq> 0
     \<and> \<bar>at_incrementalPaise (br_attribution full) - at_incrementalPaise (br_attribution control)\<bar> > noise_band E full"
  using assms
  by (auto simp: renderAblation_def attributed_line_def unreadable_lines_def CAVEAT_def arm_line_def Let_def split: if_splits)

end
