(* ===== verification/Configuration.thy ===== *)
theory Configuration
  imports Policy Taxonomy Messages
begin

text \<open>
  The files the engine starts from: \<open>packages/core/src/config.ts\<close>, \<open>parsePolicy\<close> of \<open>policy.ts\<close>, and the migrations of
  \<open>packages/db/src/migrate.ts\<close>. Reading a file and the YAML reader are parameters: a path gives the raw
  record of its text, or the error of reading it. Shown here: a configuration that loads holds only
  playbooks the library can run, and migrating is atomic per file and idempotent.
\<close>

section \<open>The policy file\<close>

record RawCap =
  rc_channel :: string
  rc_window_days :: int
  rc_max :: int

record RawPolicy =
  ry_version :: string
  ry_merchant :: string
  ry_quiet_hours :: QuietHours
  ry_contact_caps :: "RawCap list"
  ry_max_attempts_per_case :: int
  ry_require_approval_above_paise :: int
  ry_allowed_actions :: "(string \<times> string list) list"

definition parsePolicy :: "RawPolicy \<Rightarrow> Policy" where
  "parsePolicy raw =
     \<lparr>po_version = ry_version raw, po_merchant = ry_merchant raw, po_quietHours = ry_quiet_hours raw,
      po_contactCaps = map (\<lambda>c. \<lparr>cc_channel = rc_channel c, cc_windowDays = rc_window_days c, cc_max = rc_max c\<rparr>) (ry_contact_caps raw),
      po_maxAttemptsPerCase = ry_max_attempts_per_case raw,
      po_requireApprovalAbovePaise = ry_require_approval_above_paise raw,
      po_allowedActions = ry_allowed_actions raw\<rparr>"

definition loadPolicy :: "(string \<Rightarrow> err + RawPolicy) \<Rightarrow> string \<Rightarrow> err + Policy" where
  "loadPolicy read path = bindE (read path) (\<lambda>raw. Inr (parsePolicy raw))"

section \<open>The configuration of the engine\<close>

record EngineConfig =
  eg_library :: ActionLibrary
  eg_taxonomy :: DeclineTaxonomy
  eg_playbooks :: PlaybookTable

record config_files =
  fi_library :: "string \<Rightarrow> err + RawLibrary"
  fi_taxonomy :: "string \<Rightarrow> err + int \<times> DeclineEntry list"
  fi_playbooks :: "string \<Rightarrow> err + int \<times> RawPlaybook list"

definition loadConfig :: "config_files \<Rightarrow> string \<Rightarrow> err + EngineConfig" where
  "loadConfig files base =
     bindE (bindE (fi_library files (base @ ''/actions/library.yaml'')) parseActionLibrary) (\<lambda>library.
     bindE (bindE (fi_taxonomy files (base @ ''/taxonomy/decline-codes.yaml'')) (\<lambda>(v, codes). parseTaxonomy v codes)) (\<lambda>taxonomy.
     bindE (bindE (fi_playbooks files (base @ ''/playbooks/default.yaml'')) (\<lambda>(v, raw). parsePlaybooks v raw library)) (\<lambda>playbooks.
       Inr \<lparr>eg_library = library, eg_taxonomy = taxonomy, eg_playbooks = playbooks\<rparr>)))"

lemma loadConfig_runs:
  assumes "loadConfig files base = Inr c" and "pt_lookup (eg_playbooks c) d cause = Some pb" and "s \<in> set (pb_steps pb)"
  shows "\<exists>a. lib_get (eg_library c) (ps_actionId s) = Inr a"
proof -
  from assms(1) obtain v raw where "parsePlaybooks v raw (eg_library c) = Inr (eg_playbooks c)"
    by (auto simp: loadConfig_def bindE_eq_Inr)
  from parsePlaybooks_ok [OF this assms(2)] assms(3) show ?thesis by (auto simp: playbook_ok_def)
qed

section \<open>Migrations\<close>

text \<open>The table \<open>schema_migrations\<close> beside the rest of the data base, which a migration changes as its text says.\<close>

record 'd schema =
  sg_applied :: "string list"
  sg_data :: 'd

definition is_sql :: "string \<Rightarrow> bool" where
  "is_sql f \<longleftrightarrow> 4 \<le> length f \<and> drop (length f - 4) f = ''.sql''"

definition pending_of :: "string list \<Rightarrow> string list \<Rightarrow> string list" where
  "pending_of dir applied = filter (\<lambda>f. f \<notin> set applied) (sort_by code_le (filter is_sql dir))"

definition apply_file :: "(string \<Rightarrow> 'd \<Rightarrow> err + 'd) \<Rightarrow> string \<Rightarrow> ('d schema, err, unit) sem" where
  "apply_file run f =
     catchM (transactM
        (bindM (readM (\<lambda>s. run f (sg_data s))) (\<lambda>r.
         bindM (liftE r) (\<lambda>d.
         thenM (modifyM (\<lambda>s. s\<lparr>sg_data := d\<rparr>))
        (thenM (guardM (\<lambda>s. f \<notin> set (sg_applied s)) (UniqueViolation ''schema_migrations''))
               (modifyM (\<lambda>s. s\<lparr>sg_applied := sg_applied s @ [f]\<rparr>)))))))
       (\<lambda>e. throwM (Error (''migration '' @ f @ '' failed: '' @ err_message e)))"

definition migrate :: "(string \<Rightarrow> 'd \<Rightarrow> err + 'd) \<Rightarrow> string list \<Rightarrow> ('d schema, err, string list) sem" where
  "migrate run dir = bindM (readM (\<lambda>s. pending_of dir (sg_applied s))) (\<lambda>files. thenM (forM files (apply_file run)) (retM files))"

lemma apply_file_cases:
  assumes "apply_file run f s = (r, t)"
  shows "(\<exists>d. r = Inr () \<and> run f (sg_data s) = Inr d \<and> f \<notin> set (sg_applied s) \<and> t = s\<lparr>sg_data := d, sg_applied := sg_applied s @ [f]\<rparr>)
     \<or> (\<exists>m. r = Inl (Error (''migration '' @ f @ '' failed: '' @ m)) \<and> t = s)"
  using assms by (auto simp: apply_file_def monad_simps split: sum.splits if_splits)

text \<open>The files that were applied are recorded in order up to the first that fails, which leaves nothing behind.\<close>

lemma apply_all:
  assumes "forM fs (apply_file run) s = (r, t)"
  shows "\<exists>past. sg_applied t = sg_applied s @ past \<and> (case r of Inr _ \<Rightarrow> past = fs
     | Inl e \<Rightarrow> \<exists>f rest m. fs = past @ f # rest \<and> e = Error (''migration '' @ f @ '' failed: '' @ m))"
  using assms
proof (induction fs arbitrary: s)
  case (Cons f fs)
  obtain x u where one: "apply_file run f s = (x, u)" by (cases "apply_file run f s")
  show ?case
  proof (cases x)
    case (Inl e)
    with Cons.prems one apply_file_cases [OF one] show ?thesis by (auto simp: monad_simps)
  next
    case (Inr y)
    with Cons.prems one have rest: "forM fs (apply_file run) u = (r, t)" by (simp add: monad_simps)
    have "sg_applied u = sg_applied s @ [f]" using apply_file_cases [OF one] Inr by auto
    moreover obtain past where past: "sg_applied t = sg_applied u @ past" "case r of Inr _ \<Rightarrow> past = fs
        | Inl e \<Rightarrow> \<exists>f rest m. fs = past @ f # rest \<and> e = Error (''migration '' @ f @ '' failed: '' @ m)"
      using Cons.IH [OF rest] by blast
    ultimately show ?thesis by (intro exI [of _ "f # past"]) (cases r; simp)
  qed
qed (auto simp: monad_simps)

lemma migrate_again:
  assumes "migrate run dir s = (Inr fs, t)"
  shows "migrate run' dir t = (Inr [], t)"
proof -
  have "forM (pending_of dir (sg_applied s)) (apply_file run) s = (Inr (), t)"
    using assms by (auto simp: migrate_def monad_simps split: prod.splits sum.splits)
  from apply_all [OF this] have "sg_applied t = sg_applied s @ pending_of dir (sg_applied s)" by simp
  then have "pending_of dir (sg_applied t) = []" by (auto simp: pending_of_def filter_empty_conv)
  then show ?thesis by (simp add: migrate_def monad_simps)
qed

end
