(* ===== verification/Spec2Isabelle.thy ===== *)
theory Spec2Isabelle
  imports Simulation Console Console_Run Batch_Report Configuration
begin

text \<open>
  The revenue recovery agent: a model of its engine and the theorems that make it correct.

  \<^bold>\<open>The program.\<close> The repository recovers failed payments. A trigger (a failed payment, an
  abandoned checkout, an overdue invoice) opens a case on an obligation. Every change of a case is an
  event in an append-only log that a pure reducer folds into a revision. A work router sends new evidence
  to specialist roles, a table of playbooks or the agents propose actions, a policy engine decides on
  each and mints a signed single-use token, an executor records an attempt and calls the
  payment provider, a reconciler and a verifier match the settlements that arrive and close the case. A
  scheduler fires delayed actions, a lease serialises the work on an obligation, a detector opens
  incidents that park the cases of a failing segment and a release controller lets them go
  in a ramp. A randomised holdout measures what the agent caused.

  \<^bold>\<open>Theories and sources\<close> (under \<open>src/packages\<close>).
  \<^item> \<open>Prelude\<close>: results that may be an error (\<open>bindE\<close>, \<open>foldE\<close>, \<open>mapE\<close>), the state and exception
    monad in which an error keeps the writes before it and only \<open>transactM\<close> undoes them, invariants
    of statements (\<open>preserves\<close>), stable sorting, maps, numbers as text. \<open>Core_Types\<close>: \<open>core/src/types.ts\<close>, the thrown
    values, JSON values and the record \<open>env\<close> of run-time functions. \<open>Json_Text\<close>: \<open>JSON.stringify\<close> and hexadecimal.
  \<^item> \<open>State_Machine\<close>, \<open>Case_Events\<close>: \<open>core/src/state-machine.ts\<close>, \<open>events.ts\<close>. \<open>Action_Library\<close>, \<open>Taxonomy\<close>,
    \<open>Policy\<close>, \<open>Roles\<close>, \<open>Stats\<close>, \<open>Capability\<close>: \<open>core/src/actions.ts\<close>, \<open>taxonomy.ts\<close> and \<open>playbooks.ts\<close>,
    \<open>policy.ts\<close>, \<open>roles.ts\<close>, \<open>stats.ts\<close> and \<open>clock.ts\<close>, \<open>capability.ts\<close>. \<open>Configuration\<close>: \<open>config.ts\<close>, the
    parsing of the policy, and \<open>db/src/migrate.ts\<close>.
  \<^item> \<open>Db\<close>: the tables as lists of row records in a record \<open>db\<close>, with the unique and foreign keys the
    statements rely on. \<open>Case_Store\<close>: \<open>db/src/case-events.ts\<close>, \<open>ledger.ts\<close>, \<open>pool.ts\<close>.
  \<^item> \<open>Scheduler\<close>, \<open>Obligation_Lease\<close>, \<open>Case_Manager\<close>, \<open>Token_Burn\<close>, \<open>Policy_Engine\<close>, \<open>Executor\<close>,
    \<open>Reconciler\<close>, \<open>Verifier\<close>, \<open>Blackboard\<close>, \<open>Tier0\<close>, \<open>Mandate_Sequencer\<close>, \<open>Intent_Router\<close>,
    \<open>Checkout_Watcher\<close>, \<open>Detector\<close>, \<open>Incident\<close>, \<open>Release_Controller\<close>: the files of the
    same name in \<open>engine/src\<close> (\<open>Blackboard\<close> also \<open>work-router.ts\<close>).
  \<^item> \<open>Adapter\<close>, \<open>Simulated_PSP\<close>, \<open>Mulberry\<close>, \<open>Razorpay\<close>, \<open>Webhook\<close>: \<open>connectors/src\<close> and
    \<open>console/src/webhook-route.ts\<close>.
  \<^item> \<open>Attribution\<close>: \<open>attribution/src\<close>, and the draw of \<open>sim/src/deterministic-random.ts\<close>.
  \<^item> \<open>Messages\<close>, \<open>Providers\<close>, \<open>Claim_Cache\<close>, \<open>Redaction\<close>, \<open>Specialists\<close>, \<open>Deliberation\<close>, \<open>Optimizer\<close>,
    \<open>Agent_Runtime\<close>: \<open>agents/src\<close>, from the provider seam (\<open>provider.ts\<close>, \<open>claims.ts\<close> and the two
    vendors), the cache and the choice of a provider, redaction, the roles (\<open>specialists.ts\<close>), the reducer and the
    optimizer to the run of the roles of a revision (\<open>runtime.ts\<close>).
  \<^item> \<open>System\<close>: the engine as a step relation, one rule per operation of the components above, in any
    order and with any arguments; \<open>reachable\<close> are the states it leads to from a seeded data base.
    \<open>Recovery\<close>, \<open>Execution\<close>, \<open>Sample\<close>: lemmas that span components, and concrete states for the witnesses.
  \<^item> \<open>Scenario\<close>, \<open>Cohort\<close>, \<open>World\<close>: \<open>sim/src/scenario.ts\<close>, \<open>cohort.ts\<close>, \<open>world.ts\<close>, the synthetic cases of a batch and what
    their customers do on their own. \<open>Batch_State\<close>, \<open>Batch_Plan\<close>, \<open>Batch_Step\<close>, \<open>Batch\<close>: \<open>sim/src/runner.ts\<close>, its variables,
    the planning of a case, the execution of a step, and \<open>runBatch\<close> itself: it calls the components above as the code
    does. \<open>Batch_Invariant\<close>: what every statement of the runner keeps, as an interface, and \<open>Batch_Rows\<close> the
    same reduced to rows. Through them \<open>Batch_Engine\<close>: a batch is a sequence of engine steps, and its loop
    ends; \<open>Batch_Holdout\<close>: nothing is done to the control group; \<open>Case_Replay\<close> (\<open>sim/src/replay.ts\<close>) and
    \<open>Batch_Replay\<close>: what the ledger says is derived again. \<open>Batch_Report\<close>: \<open>sim/src/report.ts\<close>.
  \<^item> \<open>Console_Text\<close>, \<open>Console_Queries\<close>, \<open>Console_Screens\<close>, \<open>Console_Run\<close>, \<open>Console_Stream\<close>: \<open>render.ts\<close>, \<open>queries.ts\<close>, \<open>stream.ts\<close>,
    the screens of the cases, the policy, the overview and the attribution, and the routes of \<open>server.ts\<close>, in \<open>console/src\<close>.
  \<^item> \<open>Guarantees\<close>, \<open>Assurance\<close>, \<open>Simulation\<close>, \<open>Console\<close> and this theory: the properties.

  \<^bold>\<open>Interfaces.\<close> The locale \<open>engine_invariant\<close> (theory \<open>System\<close>) has a state predicate that every kind of step
    keeps as its law, and proves that reachable states have it; \<open>plain_invariant\<close>, \<open>log_invariant\<close> and
    \<open>bookkeeping\<close> give it under laws that are easier to check. They are interpreted on the schedule, the claims, the
    attempts, the settled money, the event log, the ledger, the numbers of the revisions, the obligations of the cases,
    closed cases, kept rows and burned tokens. The locale \<open>runner_invariant\<close> (theory \<open>Batch_Invariant\<close>) is the interface between the
    runner and the components: a condition that each operation keeps, some only for the cases that may be
    worked on, is kept by the whole batch; \<open>row_invariant\<close> gives it for any condition on rows. They are
    interpreted on the reachable states, the control group and the decisions on the ledger. The locales of single components
    (the lease, the single-use token, the store of events) stand beside the operations they are interpreted on.

  \<^bold>\<open>What is shown.\<close> Over the whole engine: a recovered case is paid (C1, C2), closed cases stay closed and the
    log only grows and agrees with the row (C3 to C6), the provider is called at most once per key, only with
    a valid token and only after the attempt is on record, and a token acts once (C7 to C11), a lease
    excludes other holders, no scheduled action is dispatched twice or after it is over (C12 to C15). Of single
    components: what authorisation mints, what a token covers and, for contacts each counted before the next is
    authorised, the caps (C16 to C18), crash recovery and deduplication (C19 to C21), the estimator (C22, C23), the webhook
    route, with redelivery at any later time, and replies (C24 to C26), incidents, their release from stage 0 and, over any
    history of windows, the detector (C27 to C29), the blackboard and the run of the roles, with the one throw that rejects
    it (C30, C31). Of a simulated
    batch: with a positive tick it ends and is a run of the engine (C32, C33), its cohort is well formed (C34), its world acts
    once and in order (C35), no case that is held out is acted on (C36), and the replay verifier reproduces every
    revision and every Tier 0 decision of it (C37). Of the console: the trail of a case has the rows of its nine sources and no others (C38), its page is
    verbatim and cannot be broken by a text (C39), and the live stream sends each shown row once (C40).

  \<^bold>\<open>Bounds and conventions.\<close> There is no fuel: the loops of the code run over lists or counters, and the loop
    over the clock of a batch, which a tick of no length never ends, is a \<open>partial_function\<close>. A
    double is a rational and each operation on doubles is rounded by \<open>fl\<close>; NaN and infinities are not
    modelled. Amounts are integers, exact as long as they are below \<open>2 ^ 53\<close>. A random identifier is an argument.
    Characters outside ASCII in messages are written in ASCII. The clock of a statement is an argument.
    A statement of the data base is atomic; operations interleave at the level of the steps of
    \<open>System\<close>, and the rows another transaction has locked are an argument of a tick. The workers of a batch that plan
    cases concurrently do so in the order of the cohort.

  \<^bold>\<open>Not modelled.\<close> Hash functions, the time-zone data base, number printing, collation and JSON parsing are
    fields of \<open>env\<close>; the YAML reader, sockets, the HTTP transport and the SQL server are outside. The answers of a language
    model are a parameter. Of the simulation the command line is not modelled. Of the
    console, the screens of incidents, metrics and the ablation and the style sheet are not; they, the terminal
    view and the scripts only print what the engine did.
\<close>

section \<open>Money and closed cases\<close>

text \<open>
  C1. In every state the engine can reach, by any interleaving of its operations, a case
  in state RECOVERED has an obligation whose amount is covered by the settlements matched
  to it: no sequence of events, intents, webhooks or ramp steps books a recovery that was not paid.
\<close>

theorem recovered_is_paid:
  assumes "reachable (w :: 'w itself) s" and "r \<in> set (case_rows s)" and "cs_state r = RECOVERED"
  shows "\<exists>b \<in> set (obligations s). ob_id b = cs_obligation r \<and>
    ob_amount b \<le> sum_list (map st_amount (filter (\<lambda>x. st_obligation x = Some (cs_obligation r)) (settlements s)))"
  using reachable_sys_inv [OF assms(1)] assms(2,3)
  by (auto simp: sys_inv_def paid_inv_def covered_def settled_total_def)

theorem recovered_is_paid_witness:
  "\<exists>r \<in> set (case_rows sample_paid). cs_state r = RECOVERED \<and>
    (\<exists>b \<in> set (obligations sample_paid). ob_id b = cs_obligation r \<and>
      ob_amount b \<le> sum_list (map st_amount (filter (\<lambda>x. st_obligation x = Some (cs_obligation r)) (settlements sample_paid))))"
proof -
  obtain r where "r \<in> set (case_rows sample_paid)" "cs_state r = RECOVERED"
    using sample_paid_rows by fastforce
  then show ?thesis using recovered_is_paid [OF sample_paid_reachable] by blast
qed

text \<open>
  C2. When the verifier answers that a settlement recovered a case, it was matched to an
  obligation, the case it closed is the oldest open one of that obligation, the settled
  total covers the obligation, the case is RECOVERED and closed at that instant, nothing
  of it is still scheduled, and the obligation is settled.
\<close>

theorem settlement_recovers:
  assumes "reachable (w :: 'w itself) s" and "onSettlement now x s = (Inr (recovered n), t)"
  shows "\<exists>ob r r'. mr_obligationId (match_settlement x s) = Some ob \<and> open_case_for s ob = Some r
    \<and> n = settled_total t ob \<and> covered t ob
    \<and> case_of t (cs_id r) = Some r' \<and> cs_state r' = RECOVERED \<and> cs_closed_at r' = Some now
    \<and> (\<forall>a \<in> set (scheduled_actions t). \<not> outstanding (cs_id r) a)
    \<and> (\<forall>b \<in> set (obligations t). ob_id b = ob \<longrightarrow> ob_state b = ''settled'')"
  using onSettlement_recovered [OF _ assms(2)] reachable_sys_inv [OF assms(1)]
  unfolding sys_inv_def by blast

lemma sample_settles: "fst (onSettlement 20 sample_settlement sample_open) = Inr (recovered 500)"
  by code_simp

theorem settlement_recovers_witness:
  "\<exists>ob r r'. mr_obligationId (match_settlement sample_settlement sample_open) = Some ob
    \<and> open_case_for sample_open ob = Some r \<and> covered sample_paid ob
    \<and> case_of sample_paid (cs_id r) = Some r' \<and> cs_state r' = RECOVERED"
proof -
  have "onSettlement 20 sample_settlement sample_open = (Inr (recovered 500), sample_paid)"
    using sample_settles by (simp add: sample_paid_def after_def prod_eq_iff)
  from settlement_recovers [OF sample_open_reachable this] show ?thesis by blast
qed

text \<open>
  C3. A case that has reached a terminal state keeps it: whatever the engine does
  afterwards, in any order and any number of steps, the case is still there in that state.
\<close>

theorem terminal_state_is_final:
  assumes "reachable (w :: 'w itself) s" and "case_of s c = Some r" and "isTerminal (cs_state r)"
    and "(sys_step w)\<^sup>*\<^sup>* s t"
  shows "\<exists>r'. case_of t c = Some r' \<and> cs_state r' = cs_state r"
proof -
  have "ended c (cs_state r) s"
    using reachable_sys_inv [OF assms(1)] assms(2) by (simp add: ended_def sys_inv_def paid_inv_def case_inv_def)
  from final.reachable_keeps [OF assms(4) this] assms(3) show ?thesis by (simp add: ended_def)
qed

theorem terminal_state_is_final_witness:
  "\<exists>r'. case_of (after (event_append 30 ''c1'' (diagnosis_started 0) ''runner'') sample_paid) ''c1'' = Some r'
     \<and> cs_state r' = RECOVERED"
proof -
  obtain r where r: "case_of sample_paid ''c1'' = Some r" "cs_state r = RECOVERED"
    using sample_paid_rows unfolding case_of_def by (cases "case_rows sample_paid") auto
  have "(sys_step TYPE(unit))\<^sup>*\<^sup>* sample_paid (after (event_append 30 ''c1'' (diagnosis_started 0) ''runner'') sample_paid)"
    by (rule r_into_rtranclp) (simp add: sys_step_def case_step.append)
  from terminal_state_is_final [OF sample_paid_reachable r(1) _ this] r(2) show ?thesis by simp
qed

text \<open>
  C4. The event log is append-only: any run of the engine leaves every event already
  written where it is, unchanged.
\<close>

theorem event_log_append_only:
  assumes "(sys_step (w :: 'w itself))\<^sup>*\<^sup>* s t"
  shows "\<exists>new. case_events t = case_events s @ new"
  using history.reachable_keeps [OF assms, of "case_events s"] by (auto simp: log_from_def)

theorem event_log_append_only_witness: "\<exists>new. case_events sample_paid = case_events sample_open @ new"
  by (rule event_log_append_only [where w = "TYPE(unit)"], rule r_into_rtranclp)
     (simp add: sys_step_def sample_paid_def case_step.settlement)

text \<open>
  C5. Replay is faithful in every reachable state: the log of a case is numbered without a
  gap from 0, reducing it from scratch does not fail, and the revision it gives has the
  state, incident and terminal reason the case row shows.
\<close>

theorem replay_agrees_with_row:
  assumes "reachable (w :: 'w itself) s" and "case_of s c = Some r"
  shows "map ev_seq (log_of c s) = map int [0..<length (log_of c s)] \<and>
    (\<exists>rvn. replay c s = (Inr rvn, s) \<and> reduceAll c (log_of c s) = Inr rvn
      \<and> rv_revision rvn = int (length (log_of c s))
      \<and> cs_state r = rv_state rvn \<and> cs_incident r = rv_incidentId rvn
      \<and> cs_terminal_reason r = rv_terminalReason rvn)"
proof -
  have inv: "store_inv s" using reachable_sys_inv [OF assms(1)] by (simp add: sys_inv_def paid_inv_def case_inv_def)
  have "map ev_seq (log_of c s) = map int [0..<length (log_of c s)]"
    using inv case_of_Some [OF assms(2)] case_ok_nums by (auto simp: store_inv_def)
  moreover obtain rvn where "replay c s = (Inr rvn, s)" "reduceAll c (log_of c s) = Inr rvn" "row_agrees r rvn"
    using replay_eval [OF inv assms(2)] by blast
  ultimately show ?thesis using reduceAll_revision by (auto simp: row_agrees_def)
qed

theorem replay_agrees_with_row_witness: "\<exists>rvn. replay ''c1'' sample_paid = (Inr rvn, sample_paid) \<and> rv_state rvn = RECOVERED"
proof -
  obtain r where r: "case_of sample_paid ''c1'' = Some r" "cs_state r = RECOVERED"
    using sample_paid_rows unfolding case_of_def by (cases "case_rows sample_paid") auto
  from replay_agrees_with_row [OF sample_paid_reachable r(1)] r(2) show ?thesis by auto
qed

text \<open>
  C6. Appending an event is one transaction: it fails exactly when the case is missing or
  the move is not legal, and then nothing has changed; otherwise the log grows by that
  event, numbered next, the row moves to the event's state, and if that state is terminal
  no action of the case is left pending or leased.
\<close>

theorem event_append_atomic:
  assumes "reachable (w :: 'w itself) s"
  shows "case event_append now c ev src s of
      (Inl e, t) \<Rightarrow> t = s \<and> (\<forall>r. case_of s c = Some r \<longrightarrow> \<not> canTransition (cs_state r) (targetState ev (cs_state r)))
    | (Inr (stored, rvn), t) \<Rightarrow>
        \<exists>r r'. case_of s c = Some r \<and> canTransition (cs_state r) (targetState ev (cs_state r))
        \<and> log_of c t = log_of c s @ [stored] \<and> ev_event stored = ev \<and> ev_seq stored = int (length (log_of c s))
        \<and> case_of t c = Some r' \<and> cs_state r' = targetState ev (cs_state r)
        \<and> (isTerminal (cs_state r') \<longrightarrow> (\<forall>a \<in> set (scheduled_actions t). \<not> outstanding c a))"
proof -
  have inv: "store_inv s" using reachable_sys_inv [OF assms] by (simp add: sys_inv_def paid_inv_def case_inv_def)
  show ?thesis
  proof (cases "event_append now c ev src s")
    case (Pair res t)
    show ?thesis
    proof (cases res)
      case (Inl e)
      then show ?thesis using Pair event_append_rollback [of now c ev src s e t] event_append_ok [OF inv, of c _ ev now src]
        by auto
    next
      case (Inr x)
      obtain stored rvn where x: "x = (stored, rvn)" by (cases x)
      with Pair Inr have run: "event_append now c ev src s = (Inr (stored, rvn), t)" by simp
      from event_append_Inr [OF inv run] obtain r where r: "case_of s c = Some r"
        and e: "stored = new_event now c (cs_next_seq r) ev src" and t: "t = appended now c stored rvn s" by blast
      have "cs_next_seq r = int (length (log_of c s))"
        using inv case_of_Some [OF r] case_ok_next by (auto simp: store_inv_def)
      moreover have "case_of t c = Some (write_revision rvn now (r\<lparr>cs_next_seq := cs_next_seq r + 1\<rparr>))"
        using r case_of_Some [OF r] by (simp add: t case_of_appended)
      ultimately show ?thesis
        using append_legal [OF inv run r] appended_terminal_none_outstanding [of rvn _ now c stored s] r e
        by (auto simp: Pair Inr x t log_of_appended write_revision_def)
    qed
  qed
qed

theorem event_append_atomic_witness:
  "fst (event_append 30 ''c1'' (plan_proposed 1) ''runner'' sample_open) = Inl (IllegalTransitionError DETECTED PLANNING ''plan_proposed'')
   \<and> snd (event_append 30 ''c1'' (plan_proposed 1) ''runner'' sample_open) = sample_open"
proof -
  have "fst (event_append 30 ''c1'' (plan_proposed 1) ''runner'' sample_open)
      = Inl (IllegalTransitionError DETECTED PLANNING ''plan_proposed'')" by code_simp
  with event_append_atomic [OF sample_open_reachable, where now = 30 and c = "''c1''" and ev = "plan_proposed 1" and src = "''runner''"] show ?thesis
    by (simp add: case_prod_unfold)
qed

section \<open>Execution\<close>

text \<open>
  C7. Over any sequence of executions and crash reconciliations, with any requests, the
  provider is asked to act at most once under each idempotency key, and every key it was
  asked under has its attempt row.
\<close>

theorem provider_called_at_most_once:
  "let (s', (w', calls)) = fold (run_exec E (logged ad) lib m ttl) ops (s, (w, []))
   in distinct calls \<and> set calls \<subseteq> at_idem ` set (action_attempts s')"
  using run_exec_calls_recorded [of "(s, (w, []))" E ad lib m ttl ops]
  by (simp add: calls_recorded_def case_prod_unfold Let_def)

text \<open>
  C8. Nothing reaches the provider, and nothing is returned, without a verified token: the
  action is a capability the adapter has, the signature is the minter's, the token has not
  expired, and it names this action, these parameters and an amount within its cap.
\<close>

theorem execution_needs_token:
  assumes "Executor.execute E ad lib m ttl now req (s, w) = (r, (t, w'))" and "w' \<noteq> w \<or> r = Inr x"
  shows "\<exists>a cap. lib_get lib (xr_actionId req) = Inr a \<and> ad_kind a = capability
    \<and> capability_named (ad_capability a) = Some cap \<and> cap \<in> set (pa_capabilities ad)
    \<and> hex_decode (tk_hmac (xr_token req)) = hmac_sha256 E (mi_key m) (canonical (xr_token req))
    \<and> (\<forall>d. parse_iso E (tk_notAfter (xr_token req)) = Some d \<longrightarrow> now \<le> d)
    \<and> tk_actionId (xr_token req) = xr_actionId req
    \<and> tk_paramsHash (xr_token req) = hashParams E (xr_params req)
    \<and> (\<forall>c n. tk_amountCapPaise (xr_token req) = Some c \<longrightarrow> xr_amountPaise req = Some n \<longrightarrow> n \<le> c)"
  using execute_enters [OF assms] by (auto simp: token_verify_Inr token_call_def)

theorem execution_needs_token_witness:
  "tk_actionId (xr_token sample_call) = xr_actionId sample_call
   \<and> hex_decode (tk_hmac sample_token) = hmac_sha256 sample_env (mi_key sample_minter) (canonical sample_token)"
proof -
  have "\<exists>r t. sample_run (sample_authed, 0) = (r, (t, 1))"
    using sample_executed_world by (metis sample_executed_def prod.collapse)
  then obtain r t where "sample_run (sample_authed, 0) = (r, (t, 1))" by blast
  from execution_needs_token [OF this, of undefined] show ?thesis by (auto simp: sample_call_def)
qed

text \<open>
  C9. The attempt is on record before the provider is asked: with an admitted request the
  provider is called from a state that has the nonce burned and the row in flight; if it
  fails the row stays in flight, if it answers the row is settled with the answer; the lease is
  released either way.
\<close>

theorem attempt_recorded_before_call:
  assumes "lib_get lib (xr_actionId req) = Inr a" and "ad_kind a = capability"
    and "capability_named (ad_capability a) = Some cap" and "cap \<in> set (pa_capabilities ad)"
    and "token_verify E m now (xr_token req) (token_call req) = Inr ()"
    and "tryAcquire ttl now (xr_obligationId req) (''executor:'' @ xr_caseId req) s = (Inr True, s1)"
    and "\<not> burned (tk_nonce (xr_token req)) s1"
    and "k = idempotencyKey E (xr_caseId req) (xr_actionId req) (xr_attemptNo req) (xr_params req)"
    and "k \<notin> at_idem ` set (action_attempts s1)"
    and "has_case (xr_caseId req) s1" and "has_obligation (xr_obligationId req) s1"
  shows "Executor.execute E ad lib m ttl now req (s, w) =
    (let unlock = (\<lambda>t. snd (Obligation_Lease.release (xr_obligationId req) (''executor:'' @ xr_caseId req) t));
         s2 = before_call now (pa_surface ad) k req s1
     in case invoke ad cap (adapter_call k req) (xr_token req) w of
          (Inl e, w') \<Rightarrow> (Inl e, (unlock s2, w'))
        | (Inr res, w') \<Rightarrow>
            (Inr \<lparr>xs_idemKey = k, xs_surface = pa_surface ad, xs_result = res\<rparr>,
             (unlock (snd (settle now k (if cr_ok res then succeeded else failed) (result_json res) s2)), w')))"
  using execute_eval [OF assms(1-6), of w] admitted_eval [OF assms(7,9-11), of ad now cap w] assms(8)
  by (simp add: Let_def split: prod.splits sum.splits)

theorem attempt_recorded_before_call_witness:
  "\<exists>t. sample_run (sample_authed, 0) = (Inr \<lparr>xs_idemKey = idempotencyKey sample_env ''c1'' ''link'' 0 [],
      xs_surface = simulated, xs_result = \<lparr>cr_ok = True, cr_reference = None, cr_detail = []\<rparr>\<rparr>, t)"
proof -
  have lib: "lib_get sample_lib (xr_actionId sample_call) = Inr sample_action" by code_simp
  have cap: "capability_named (ad_capability sample_action) = Some createPaymentLink"
    "createPaymentLink \<in> set (pa_capabilities sample_adapter)" "ad_kind sample_action = capability" by code_simp+
  have tok: "token_verify sample_env sample_minter sample_now (xr_token sample_call) (token_call sample_call) = Inr ()"
    by code_simp
  obtain s1 where s1: "s1 = snd (tryAcquire 30000 sample_now (xr_obligationId sample_call) (''executor:'' @ xr_caseId sample_call) sample_authed)"
    by blast
  have lease: "tryAcquire 30000 sample_now (xr_obligationId sample_call) (''executor:'' @ xr_caseId sample_call) sample_authed = (Inr True, s1)"
    unfolding s1 prod_eq_iff by simp code_simp
  have fresh: "\<not> burned (tk_nonce (xr_token sample_call)) s1" unfolding s1 by code_simp
  have key: "idempotencyKey sample_env (xr_caseId sample_call) (xr_actionId sample_call) (xr_attemptNo sample_call)
      (xr_params sample_call) \<notin> at_idem ` set (action_attempts s1)" unfolding s1 by code_simp
  have fks: "has_case (xr_caseId sample_call) s1" "has_obligation (xr_obligationId sample_call) s1"
    unfolding s1 by code_simp+
  from attempt_recorded_before_call [OF lib cap(3,1,2) tok lease fresh refl key fks, of 0]
  show ?thesis by (simp add: invoke_def sample_adapter_def sample_call_def Let_def)
qed

text \<open>
  C10. A token acts once, ever: after an execution that asked the provider or returned a
  result, whatever the engine does next, any request with a token of the same nonce is
  refused and does not reach the provider.
\<close>

theorem token_acts_once:
  assumes "Executor.execute E ad lib m ttl now req (s, w) = (r, (t, w'))" and "w' \<noteq> w \<or> \<not> isl r"
    and "(sys_step (v :: 'v itself))\<^sup>*\<^sup>* t t2"
    and "tk_nonce (xr_token req2) = tk_nonce (xr_token req)"
  shows "snd (snd (Executor.execute E2 ad2 lib2 m2 ttl2 now2 req2 (t2, w2))) = w2
    \<and> isl (fst (Executor.execute E2 ad2 lib2 m2 ttl2 now2 req2 (t2, w2)))"
proof -
  have "spent_keys {tk_nonce (xr_token req)} {} t"
    using execute_burns [OF assms(1,2)] by (simp add: spent_keys_def burned_def)
  from used.reachable_keeps [OF assms(3) this]
  have "burned (tk_nonce (xr_token req2)) t2" by (simp add: spent_keys_def burned_def assms(4))
  then show ?thesis by (rule execute_burned)
qed

theorem token_acts_once_witness:
  "snd (snd (sample_run (fst sample_executed, 1))) = 1 \<and> isl (fst (sample_run (fst sample_executed, 1)))"
proof -
  have run: "sample_run (sample_authed, 0) = (fst (sample_run (sample_authed, 0)), (fst sample_executed, 1))"
    using sample_executed_world by (simp add: sample_executed_def prod_eq_iff)
  show ?thesis by (rule token_acts_once [OF run _ rtranclp.rtrancl_refl refl]) simp
qed

text \<open>
  C11. Of any sequence of burns, at any instants, each nonce that was not burned before wins
  exactly once and a burned one never does.
\<close>

theorem nonce_wins_once:
  "count_list (burns.wins bs s) n = (if n \<in> (\<lambda>(now, tok). tk_nonce tok) ` set bs \<and> \<not> burned n s then 1 else 0)"
proof (cases "n \<in> (\<lambda>(now, tok). tk_nonce tok) ` set bs \<and> \<not> burned n s")
  case True
  with burns.wins_unspent [of n s bs] show ?thesis by simp
next
  case False
  then have "n \<notin> set (burns.wins bs s)" using burns.set_wins [of bs s] by blast
  with False show ?thesis by (simp add: count_list_0_iff)
qed

text \<open>
  C12. While one executor holds the lease of an obligation, until it expires, and whatever
  the other holders acquire or release in the meantime, a body that another holder
  wants to run under the lease is not run: it is refused and nothing changes.
\<close>

theorem lease_excludes:
  assumes "held s ob h x" and "\<forall>op \<in> set ops. op_holder op \<noteq> h \<and> op_before x op"
    and "now < x" and "h' \<noteq> h"
  shows "withLease ttl now ob h' fn (fold (run_lease ttl') ops s, w) =
    (Inl (LeaseUnavailableError ob h), (fold (run_lease ttl') ops s, w))"
  by (rule withLease_refused [OF obligation_lease.held_interleaving [OF assms(1,2)] assms(3)])
     (use assms(4) in simp)

theorem lease_excludes_witness:
  "fst (withLease 100 50 ''o1'' ''b'' (retM ()) (fold (run_lease 100) [Acquire ''o1'' ''b'' 40, Release ''o1'' ''b'']
     (snd (tryAcquire 100 0 ''o1'' ''a'' sample_open)), ())) = Inl (LeaseUnavailableError ''o1'' ''a'')"
proof -
  have h: "held (snd (tryAcquire 100 0 ''o1'' ''a'' sample_open)) ''o1'' ''a'' 100"
  proof -
    have "map_option (\<lambda>l. (lk_holder l, lk_expiry l)) (lock_of (snd (tryAcquire 100 0 ''o1'' ''a'' sample_open)) ''o1'')
      = Some (''a'', 100)" by code_simp
    then show ?thesis by (auto simp: held_def)
  qed
  show ?thesis by (subst lease_excludes [OF h]) simp_all
qed

section \<open>The schedule\<close>

text \<open>
  C13. A tick takes rows that are pending, due and not locked by another worker, each once,
  in order of firing time, at most as many as asked; it leaves a due row only when it has
  its fill of rows that come no later; and it leases exactly the rows it returns, to
  the worker, for the lease period.
\<close>

theorem tick_leases_due:
  assumes "reachable (w :: 'w itself) s" and "total_preorder (db_le E)"
  shows "\<exists>rows. Scheduler.tick E leaseMs now locked owner limit s =
      (Inr (map scheduled_of rows), s\<lparr>scheduled_actions :=
         map (\<lambda>a. if a \<in> set rows then lease_row owner (now + leaseMs) a else a) (scheduled_actions s)\<rparr>)
    \<and> length rows \<le> limit \<and> distinct (map sa_id rows) \<and> sorted_wrt (tick_le E) rows
    \<and> (\<forall>a \<in> set rows. a \<in> set (scheduled_actions s) \<and> sa_state a = pending \<and> sa_fire_at a \<le> now \<and> sa_id a \<notin> set locked)
    \<and> (\<forall>a \<in> set (scheduled_actions s). due now locked a \<longrightarrow> a \<notin> set rows \<longrightarrow>
         length rows = limit \<and> (\<forall>b \<in> set rows. tick_le E b a))"
proof -
  have inv: "sched_inv s" using reachable_sys_inv [OF assms(1)] by (simp add: sys_inv_def)
  define rows where "rows = tick_select E now locked limit s"
  have mem: "a \<in> set (scheduled_actions s) \<and> due now locked a" if "a \<in> set rows" for a
    using that tick_select_mem by (simp add: rows_def)
  have ids: "sa_id a \<in> sa_id ` set rows \<longleftrightarrow> a \<in> set rows" if "a \<in> set (scheduled_actions s)" for a
    using that inv mem by (auto simp: sched_inv_def distinct_map inj_on_def)
  have eval: "Scheduler.tick E leaseMs now locked owner limit s =
      (Inr (map scheduled_of rows), s\<lparr>scheduled_actions :=
         map (\<lambda>a. if a \<in> set rows then lease_row owner (now + leaseMs) a else a) (scheduled_actions s)\<rparr>)"
    unfolding tick_eval Let_def rows_def [symmetric] update_where_def
    by (intro arg_cong2 [where f = Pair] refl arg_cong [where f = "\<lambda>z. s\<lparr>scheduled_actions := z\<rparr>"] map_cong)
       (use ids in simp)
  have fill: "length rows = limit \<and> (\<forall>b \<in> set rows. tick_le E b a)"
    if "a \<in> set (scheduled_actions s)" "due now locked a" "a \<notin> set rows" for a
  proof (cases rows)
    case Nil
    have "limit = 0"
    proof (rule ccontr)
      assume "limit \<noteq> 0"
      with Nil have "filter (due now locked) (scheduled_actions s) = []" by (simp add: rows_def tick_select_def)
      with that show False by (auto simp: filter_empty_conv)
    qed
    with Nil show ?thesis by simp
  next
    case (Cons b bs)
    with tick_select_greedy [OF assms(2) that(1,2) that(3) [unfolded rows_def], folded rows_def] show ?thesis by auto
  qed
  show ?thesis
  proof (intro exI conjI)
    show "length rows \<le> limit" by (simp add: rows_def tick_select_def)
    show "distinct (map sa_id rows)" using tick_select_distinct [OF inv] by (simp add: rows_def)
    show "sorted_wrt (tick_le E) rows" using tick_select_sorted [OF assms(2)] by (simp add: rows_def)
    show "\<forall>a \<in> set rows. a \<in> set (scheduled_actions s) \<and> sa_state a = pending \<and> sa_fire_at a \<le> now \<and> sa_id a \<notin> set locked"
      using mem by (auto simp: due_def)
  qed (use eval fill in blast)+
qed

definition sample_queue :: db where
  "sample_queue = after (sched_schedule 10 \<lparr>sr_caseId = ''c1'', sr_obligationId = ''o1'', sr_fireAt = 15,
     sr_actionRef = \<lparr>rf_actionId = ''link'', rf_params = [], rf_attemptNo = 0\<rparr>\<rparr>) sample_open"

lemma sample_queue_reachable: "reachable TYPE(unit) sample_queue"
  using reachable_step [OF sample_open_reachable] queue_step.schedule
  by (simp add: sample_queue_def sys_step_def)

theorem tick_leases_due_witness:
  "\<exists>rows. fst (Scheduler.tick env0 1000 20 [] ''w1'' 5 sample_queue) = Inr (map scheduled_of rows) \<and> length rows \<le> 5"
  using tick_leases_due [OF sample_queue_reachable, of env0 1000 20 "[]" "''w1''" 5] total_preorder_code_le
  by (auto simp: env0_def)

lemma disjoint_image: "(\<And>b. b \<in> B \<Longrightarrow> f b \<notin> A) \<Longrightarrow> A \<inter> f ` B = {}"
  by blast

text \<open>
  C14. No action is handed to two workers: what one tick took, the next tick of any worker
  at any time does not take again, and a tick that runs while those rows are locked does not either.
\<close>

theorem no_double_dispatch:
  assumes "reachable (w :: 'w itself) s"
    and "Scheduler.tick E leaseMs now locked owner limit s = (Inr xs, t)"
    and "fst (Scheduler.tick E2 leaseMs2 now2 locked2 owner2 limit2 t) = Inr ys"
    and "fst (Scheduler.tick E2 leaseMs2 now2 (map sd_id xs @ locked2) owner2 limit2 s) = Inr zs"
  shows "sd_id ` set xs \<inter> sd_id ` set ys = {} \<and> sd_id ` set xs \<inter> sd_id ` set zs = {}"
proof -
  have t: "t = s\<lparr>scheduled_actions := update_where (\<lambda>a. sa_id a \<in> sa_id ` set (tick_select E now locked limit s))
            (lease_row owner (now + leaseMs)) (scheduled_actions s)\<rparr>"
    and xs: "xs = map scheduled_of (tick_select E now locked limit s)"
    using assms(2) by (auto simp: tick_eval Let_def)
  have res: "fst (Scheduler.tick E' ms' now' locked' owner' limit' s') = Inr (map scheduled_of (tick_select E' now' locked' limit' s'))"
    for E' ms' now' locked' owner' limit' s' by (simp add: tick_eval Let_def)
  have ys: "ys = map scheduled_of (tick_select E2 now2 locked2 limit2 t)"
    using assms(3) unfolding res by (rule sum.inject(2) [THEN iffD1, symmetric])
  have zs: "zs = map scheduled_of (tick_select E2 now2 (map sd_id xs @ locked2) limit2 s)"
    using assms(4) unfolding res by (rule sum.inject(2) [THEN iffD1, symmetric])
  have ids: "sd_id ` set (map scheduled_of rs) = sa_id ` set rs" for rs
    by (force simp: scheduled_of_def)
  have "sa_id b \<notin> sa_id ` set (tick_select E now locked limit s)"
    if "b \<in> set (tick_select E2 now2 locked2 limit2 t)" for b
  proof
    assume hit: "sa_id b \<in> sa_id ` set (tick_select E now locked limit s)"
    have "b \<in> set (scheduled_actions t)" "sa_state b = pending"
      using tick_select_mem [OF that] by (auto simp: due_def)
    then show False using hit unfolding t by (auto simp: set_update_where)
  qed
  then have "sd_id ` set xs \<inter> sd_id ` set ys = {}"
    unfolding xs ys ids by (rule disjoint_image)
  moreover have "sa_id b \<notin> sd_id ` set xs"
    if "b \<in> set (tick_select E2 now2 (map sd_id xs @ locked2) limit2 s)" for b
    using tick_select_mem [OF that] by (simp add: due_def)
  then have "sd_id ` set xs \<inter> sd_id ` set zs = {}"
    unfolding zs ids by (rule disjoint_image)
  ultimately show ?thesis ..
qed

theorem no_double_dispatch_witness:
  "\<exists>xs t ys zs. Scheduler.tick env0 1000 20 [] ''w1'' 5 sample_queue = (Inr xs, t) \<and> map sd_id xs = [1]
    \<and> fst (Scheduler.tick env0 1000 20 [] ''w2'' 5 t) = Inr ys
    \<and> fst (Scheduler.tick env0 1000 20 (map sd_id xs @ []) ''w2'' 5 sample_queue) = Inr zs
    \<and> sd_id ` set xs \<inter> sd_id ` set ys = {} \<and> sd_id ` set xs \<inter> sd_id ` set zs = {}"
proof -
  obtain xs t where xs: "Scheduler.tick env0 1000 20 [] ''w1'' 5 sample_queue = (Inr xs, t)"
    by (simp add: tick_eval Let_def)
  obtain ys where ys: "fst (Scheduler.tick env0 1000 20 [] ''w2'' 5 t) = Inr ys" by (simp add: tick_eval Let_def)
  obtain zs where zs: "fst (Scheduler.tick env0 1000 20 (map sd_id xs @ []) ''w2'' 5 sample_queue) = Inr zs"
    by (simp add: tick_eval Let_def)
  have "map_sum (\<lambda>e. e) (map sd_id) (fst (Scheduler.tick env0 1000 20 [] ''w1'' 5 sample_queue)) = Inr [1]"
    by code_simp
  with xs have "map sd_id xs = [1]" by simp
  then show ?thesis
    using xs ys zs no_double_dispatch [OF sample_queue_reachable xs ys zs]
    by (intro exI [of _ xs] exI [of _ t] exI [of _ ys] exI [of _ zs] conjI) (elim conjE, assumption)+
qed

end
